theory Spec2Isabelle
  imports Complex_Main "HOL-Library.AList"
begin

section \<open>JavaScript built-ins used by the swarm code\<close>

text \<open>
  Strings are lists of characters. \<open>js_split c s\<close> is \<^verbatim>\<open>s.split(c)\<close> for a
  one-character separator: it always returns at least one piece.
\<close>

fun js_split :: "char \<Rightarrow> string \<Rightarrow> string list" where
  "js_split c [] = [[]]"
| "js_split c (x # xs) =
     (if x = c then [] # js_split c xs
      else (case js_split c xs of [] \<Rightarrow> [[x]] | p # ps \<Rightarrow> (x # p) # ps))"

text \<open>\<^verbatim>\<open>xs[i]\<close>: reading past the end of an array gives \<^verbatim>\<open>undefined\<close> (\<open>None\<close>).\<close>

fun js_index :: "'a list \<Rightarrow> nat \<Rightarrow> 'a option" where
  "js_index [] i = None"
| "js_index (x # xs) 0 = Some x"
| "js_index (x # xs) (Suc i) = js_index xs i"

text \<open>\<^verbatim>\<open>xs.indexOf(x)\<close>: the first position of \<open>x\<close>, or \<open>-1\<close>.\<close>

fun js_indexOf :: "'a list \<Rightarrow> 'a \<Rightarrow> int" where
  "js_indexOf [] x = - 1"
| "js_indexOf (y # ys) x =
     (if y = x then 0 else (let i = js_indexOf ys x in if i < 0 then - 1 else i + 1))"

text \<open>
  \<^verbatim>\<open>xs.splice(start, count)\<close> and \<^verbatim>\<open>xs.splice(start)\<close>, returning the
  array that is left. A negative start counts from the end and is clamped at 0, so
  \<^verbatim>\<open>xs.splice(-1, 1)\<close> removes the last element.
\<close>

definition js_splice_start :: "'a list \<Rightarrow> int \<Rightarrow> nat" where
  "js_splice_start xs start =
     (if start < 0 then nat (max (int (length xs) + start) 0)
      else min (nat start) (length xs))"

definition js_splice :: "'a list \<Rightarrow> int \<Rightarrow> nat \<Rightarrow> 'a list" where
  "js_splice xs start count =
     (let s = js_splice_start xs start in take s xs @ drop (s + count) xs)"

definition js_splice_rest :: "'a list \<Rightarrow> int \<Rightarrow> 'a list" where
  "js_splice_rest xs start = take (js_splice_start xs start) xs"

subsection \<open>\<^verbatim>\<open>Number(x)\<close> on a string or \<^verbatim>\<open>undefined\<close>\<close>

text \<open>
  The result of \<^verbatim>\<open>Number\<close> is \<^verbatim>\<open>NaN\<close>, an infinity or a finite number, which is
  a double: the exact value a numeral denotes is rounded to the nearest double, ties to the
  one with an even significand (\<open>number_value\<close> below). Finite doubles are kept as the
  rationals they are; the sign of zero is not kept (\<^verbatim>\<open>-0 > 0\<close> and \<^verbatim>\<open>0 > 0\<close> are both false).
  The language allows an engine to round a decimal numeral of more than 20 significant
  digits from its first 20 digits; V8 rounds the exact value, and so does the model.
\<close>

datatype jsnum = NaN | PosInf | NegInf | Fin rat

definition js_gt :: "jsnum \<Rightarrow> rat \<Rightarrow> bool" where
  "js_gt x k = (case x of NaN \<Rightarrow> False | PosInf \<Rightarrow> True | NegInf \<Rightarrow> False | Fin q \<Rightarrow> k < q)"

definition js_lt :: "jsnum \<Rightarrow> rat \<Rightarrow> bool" where
  "js_lt x k = (case x of NaN \<Rightarrow> False | PosInf \<Rightarrow> False | NegInf \<Rightarrow> True | Fin q \<Rightarrow> q < k)"

definition js_neg :: "jsnum \<Rightarrow> jsnum" where
  "js_neg x = (case x of NaN \<Rightarrow> NaN | PosInf \<Rightarrow> NegInf | NegInf \<Rightarrow> PosInf | Fin q \<Rightarrow> Fin (- q))"

text \<open>
  Doubles have a significand of 53 bits; the least positive double is 2 to the power
  -1074, and a value that rounds to 2 to the power 1024 or more becomes an infinity. A
  non-negative rational \<open>q\<close> is scaled by \<open>2 ^ 1074\<close>, so that the doubles around it
  become integers: the multiples of \<open>2 ^ j\<close>, where \<open>j\<close> is the number of bits that the
  integer part of the scaled value has beyond 53.
\<close>

definition significand_bits :: nat where
  "significand_bits = 53"

definition min_value_exponent :: nat where
  "min_value_exponent = 1074"

definition overflow_exponent :: nat where
  "overflow_exponent = 1024"

definition round_half_even :: "rat \<Rightarrow> int" where
  "round_half_even x =
     (let f = \<lfloor>x\<rfloor>; d = x - of_int f
      in if d < 1 / 2 then f else if 1 / 2 < d then f + 1 else if even f then f else f + 1)"

fun bit_length :: "nat \<Rightarrow> nat" where
  "bit_length n = (if n = 0 then 0 else Suc (bit_length (n div 2)))"

declare bit_length.simps [simp del]

definition double_of_nonneg :: "rat \<Rightarrow> jsnum" where
  "double_of_nonneg q =
     (let s = q * 2 ^ min_value_exponent;
          j = bit_length (nat \<lfloor>s\<rfloor>) - significand_bits;
          n = round_half_even (s / 2 ^ j) * 2 ^ j
      in if 2 ^ (overflow_exponent + min_value_exponent) \<le> n then PosInf
         else Fin (of_int n / 2 ^ min_value_exponent))"

definition number_value :: "rat \<Rightarrow> jsnum" where
  "number_value q = (if q < 0 then js_neg (double_of_nonneg (- q)) else double_of_nonneg q)"

definition is_ws :: "char \<Rightarrow> bool" where
  "is_ws c = (of_char c \<in> {9, 10, 11, 12, 13, 32, 160 :: nat})"

definition js_trim :: "string \<Rightarrow> string" where
  "js_trim s = rev (dropWhile is_ws (rev (dropWhile is_ws s)))"

definition digit_val :: "nat \<Rightarrow> char \<Rightarrow> nat option" where
  "digit_val radix c =
     (let n = (of_char c :: nat);
          v = (if 48 \<le> n \<and> n \<le> 57 then Some (n - 48)
               else if 97 \<le> n \<and> n \<le> 102 then Some (n - 87)
               else if 65 \<le> n \<and> n \<le> 70 then Some (n - 55)
               else None)
      in case v of None \<Rightarrow> None | Some d \<Rightarrow> if d < radix then Some d else None)"

definition is_digit :: "char \<Rightarrow> bool" where
  "is_digit c = (digit_val 10 c \<noteq> None)"

fun digits_val :: "nat \<Rightarrow> nat \<Rightarrow> string \<Rightarrow> nat option" where
  "digits_val radix acc [] = Some acc"
| "digits_val radix acc (c # cs) =
     (case digit_val radix c of
        None \<Rightarrow> None
      | Some d \<Rightarrow> digits_val radix (acc * radix + d) cs)"

text \<open>A non-empty run of digits in the given radix, and nothing else.\<close>

definition radix_literal :: "nat \<Rightarrow> string \<Rightarrow> jsnum" where
  "radix_literal radix s =
     (if s = [] then NaN
      else case digits_val radix 0 s of None \<Rightarrow> NaN | Some n \<Rightarrow> number_value (of_nat n))"

text \<open>The exponent part: empty, or \<^verbatim>\<open>e\<close>/\<^verbatim>\<open>E\<close>, an optional sign and digits.\<close>

definition exponent_part :: "string \<Rightarrow> int option" where
  "exponent_part s =
     (case s of
        [] \<Rightarrow> Some 0
      | c # r \<Rightarrow>
          if c = CHR ''e'' \<or> c = CHR ''E'' then
            (let (neg, ds) =
               (case r of
                  [] \<Rightarrow> (False, [])
                | d # r' \<Rightarrow> if d = CHR ''+'' then (False, r')
                            else if d = CHR ''-'' then (True, r') else (False, r))
             in if ds = [] then None
                else case digits_val 10 0 ds of
                       None \<Rightarrow> None
                     | Some n \<Rightarrow> Some (if neg then - int n else int n))
          else None)"

definition scale10 :: "nat \<Rightarrow> int \<Rightarrow> rat" where
  "scale10 n k = (if 0 \<le> k then of_nat n * 10 ^ nat k else of_nat n / 10 ^ nat (- k))"

text \<open>
  An unsigned decimal literal: digits, an optional point and fraction digits (at least
  one digit on one side of the point), an optional exponent.
\<close>

definition unsigned_decimal :: "string \<Rightarrow> jsnum" where
  "unsigned_decimal s =
     (let ip = takeWhile is_digit s;
          r1 = dropWhile is_digit s;
          (fp, r2) =
            (case r1 of
               [] \<Rightarrow> ([], [])
             | c # t \<Rightarrow> if c = CHR ''.'' then (takeWhile is_digit t, dropWhile is_digit t)
                        else ([], r1))
      in if ip = [] \<and> fp = [] then NaN
         else case (digits_val 10 0 (ip @ fp), exponent_part r2) of
                (Some n, Some e) \<Rightarrow> number_value (scale10 n (e - int (length fp)))
              | _ \<Rightarrow> NaN)"

definition unsigned_literal :: "string \<Rightarrow> jsnum" where
  "unsigned_literal s = (if s = ''Infinity'' then PosInf else unsigned_decimal s)"

definition js_Number :: "string option \<Rightarrow> jsnum" where
  "js_Number x =
     (case x of
        None \<Rightarrow> NaN
      | Some s \<Rightarrow>
          (case js_trim s of
             [] \<Rightarrow> Fin 0
           | c # r \<Rightarrow>
               if c = CHR ''0'' \<and> r \<noteq> [] \<and> hd r \<in> {CHR ''x'', CHR ''X''} then radix_literal 16 (tl r)
               else if c = CHR ''0'' \<and> r \<noteq> [] \<and> hd r \<in> {CHR ''o'', CHR ''O''} then radix_literal 8 (tl r)
               else if c = CHR ''0'' \<and> r \<noteq> [] \<and> hd r \<in> {CHR ''b'', CHR ''B''} then radix_literal 2 (tl r)
               else if c = CHR ''+'' then unsigned_literal r
               else if c = CHR ''-'' then js_neg (unsigned_literal r)
               else unsigned_literal (c # r)))"

text \<open>Decimal rendering of a number, as string concatenation does it.\<close>

fun show_nat :: "nat \<Rightarrow> string" where
  "show_nat n =
     (if n < 10 then [''0123456789'' ! n]
      else show_nat (n div 10) @ [''0123456789'' ! (n mod 10)])"

declare show_nat.simps [simp del]

section \<open>The swarm module (src/unnamed/part_000)\<close>

subsection \<open>Constants\<close>

definition MAX_SIZE :: nat where
  "MAX_SIZE = 100"

definition HANDSHAKE_TIMEOUT :: nat where
  "HANDSHAKE_TIMEOUT = 5000"

definition RECONNECT_WAIT :: "nat list" where
  "RECONNECT_WAIT = [1000, 5000, 15000, 30000, 60000, 120000, 300000, 600000]"

text \<open>\<^verbatim>\<open>validAddr(addr)\<close>: the second piece of \<^verbatim>\<open>addr.split(':')\<close> (the text between the
  first colon and the next one, or the end), through \<^verbatim>\<open>Number\<close>.\<close>

definition validAddr :: "string \<Rightarrow> bool" where
  "validAddr a =
     (let port_number = js_Number (js_index (js_split CHR '':'' a) 1)
      in js_gt port_number 0 \<and> js_lt port_number 65535)"

subsection \<open>Objects, closures and the world\<close>

text \<open>
  Objects are referred to by identity. Swarms, peers, sockets (\<^verbatim>\<open>net.Socket\<close>), wires
  (\<^verbatim>\<open>Wire\<close> of bittorrent-protocol), pools, timers and \<^verbatim>\<open>once(...)\<close> wrappers each
  have their own numbering; a store maps an identity to the object's current fields.
\<close>

type_synonym sref = nat
type_synonym pref = nat
type_synonym cid = nat
type_synonym wid = nat
type_synonym plref = nat
type_synonym tid = nat
type_synonym oid = nat

text \<open>Events of sockets and wires, with their payload; \<open>evkind\<close> is the event's name.\<close>

datatype event =
    EvConnect | EvEnd | EvError | EvClose | EvFinish
  | EvHandshake string | EvDownload nat | EvUpload nat

datatype evkind = KConnect | KEnd | KError | KClose | KFinish | KHandshake | KDownload | KUpload

fun kind_of :: "event \<Rightarrow> evkind" where
  "kind_of EvConnect = KConnect"
| "kind_of EvEnd = KEnd"
| "kind_of EvError = KError"
| "kind_of EvClose = KClose"
| "kind_of EvFinish = KFinish"
| "kind_of (EvHandshake h) = KHandshake"
| "kind_of (EvDownload n) = KDownload"
| "kind_of (EvUpload n) = KUpload"

text \<open>
  What a swarm emits to its users. The three error messages of the module are kept
  structured: the listen error of \<^verbatim>\<open>Pool.prototype._onerror\<close> (with \<^verbatim>\<open>err.message\<close>),
  the duplicate info-hash error of \<^verbatim>\<open>addSwarm\<close> (info-hash and port), and the
  error that \<^verbatim>\<open>portfinder\<close> passed to \<^verbatim>\<open>listen\<close>.
\<close>

datatype swarm_error = ListenError string | DuplicateSwarm string nat | PortfinderError string

datatype emitted =
    Listening "nat option" | WireReady wid | Error swarm_error | Close
  | Download nat | Upload nat

text \<open>The function literals of the module, each with the variables it closes over.\<close>

datatype handler =
    PeerConnDestroy pref oid
  | PeerConnClose wid
  | PeerWireEnd pref
  | PoolConnClose plref cid
  | PoolHandshake plref cid pref tid
  | DrainConnect sref pref cid tid
  | DrainConnError pref
  | DrainHandshake sref pref tid
  | DrainWireEnd sref pref wid
  | OnconnClose sref
  | OnwireDownload sref
  | OnwireUpload sref
  | OnwireCleanup sref wid "cid option" oid

datatype callback = ConnDestroyCb cid | ReaddCb sref pref | RetryListenCb plref

datatype tick = EmitTick sref emitted

text \<open>Calls that leave the module, in the order they are made.\<close>

datatype effect =
    NetConnect cid "string option" "string option"
  | ConnDestroy cid
  | ConnPipe cid wid
  | WireEnd wid
  | WireDestroy wid
  | WireHandshake wid sref
  | SetTimeout tid nat callback
  | ClearTimeout tid
  | Emit sref emitted
  | ConsoleLog string
  | ConsoleError string
  | ServerListen plref nat
  | ServerClose plref
  | PortfinderGetPort sref

datatype exn = TypeError string

record peer =
  addr :: string
  conn :: "cid option"
  wire :: "wid option"
  timeout :: "tid option"
  retries :: nat

type_synonym listener = "evkind \<times> bool \<times> handler"

record conn_obj =
  remoteAddress :: string
  remotePort :: nat
  conn_listeners :: "listener list"

record wire_obj =
  wire_remoteAddress :: string
  wire_destroyed :: bool
  wire_listeners :: "listener list"

record swarm =
  infoHash :: string
  port :: nat
  downloaded :: nat
  uploaded :: nat
  wires :: "wid list"
  queue :: "pref list"
  peers :: "(string \<times> pref) list"
  paused :: bool
  destroyed :: bool

record pool =
  pool_port :: nat
  swarms :: "(string \<times> sref) list"
  listening :: bool
  conns :: "cid list"
  pool_retries :: nat

record world =
  swarm_objs :: "sref \<Rightarrow> swarm"
  next_swarm :: nat
  peer_objs :: "pref \<Rightarrow> peer"
  next_peer :: nat
  conn_objs :: "cid \<Rightarrow> conn_obj"
  next_conn :: nat
  wire_objs :: "wid \<Rightarrow> wire_obj"
  next_wire :: nat
  pool_objs :: "plref \<Rightarrow> pool"
  next_pool :: nat
  pools :: "(nat \<times> plref) list"
  once_called :: "oid \<Rightarrow> bool"
  next_once :: nat
  timers :: "(tid \<times> nat \<times> callback) list"
  next_timer :: nat
  ticks :: "tick list"
  effects :: "effect list"

type_synonym result = "exn option \<times> world"

definition ok :: "world \<Rightarrow> result" where
  "ok w = (None, w)"

definition throw :: "exn \<Rightarrow> world \<Rightarrow> result" where
  "throw e w = (Some e, w)"

text \<open>Sequencing: an exception skips the rest; the mutations made so far stay.\<close>

definition and_then :: "result \<Rightarrow> (world \<Rightarrow> result) \<Rightarrow> result" where
  "and_then r f = (case r of (None, w) \<Rightarrow> f w | (Some e, w) \<Rightarrow> (Some e, w))"

subsection \<open>Store updates and calls out of the module\<close>

definition upd_swarm :: "sref \<Rightarrow> (swarm \<Rightarrow> swarm) \<Rightarrow> world \<Rightarrow> world" where
  "upd_swarm sr f w = w\<lparr>swarm_objs := (swarm_objs w)(sr := f (swarm_objs w sr))\<rparr>"

definition upd_peer :: "pref \<Rightarrow> (peer \<Rightarrow> peer) \<Rightarrow> world \<Rightarrow> world" where
  "upd_peer pr f w = w\<lparr>peer_objs := (peer_objs w)(pr := f (peer_objs w pr))\<rparr>"

definition upd_conn :: "cid \<Rightarrow> (conn_obj \<Rightarrow> conn_obj) \<Rightarrow> world \<Rightarrow> world" where
  "upd_conn c f w = w\<lparr>conn_objs := (conn_objs w)(c := f (conn_objs w c))\<rparr>"

definition upd_wire :: "wid \<Rightarrow> (wire_obj \<Rightarrow> wire_obj) \<Rightarrow> world \<Rightarrow> world" where
  "upd_wire wd f w = w\<lparr>wire_objs := (wire_objs w)(wd := f (wire_objs w wd))\<rparr>"

definition upd_pool :: "plref \<Rightarrow> (pool \<Rightarrow> pool) \<Rightarrow> world \<Rightarrow> world" where
  "upd_pool pl f w = w\<lparr>pool_objs := (pool_objs w)(pl := f (pool_objs w pl))\<rparr>"

definition call :: "effect \<Rightarrow> world \<Rightarrow> world" where
  "call e w = w\<lparr>effects := effects w @ [e]\<rparr>"

text \<open>
  \<^verbatim>\<open>setTimeout(cb, delay)\<close> returns a new timer handle and keeps the timer pending;
  \<^verbatim>\<open>clearTimeout(t)\<close> drops a pending timer (and does nothing for any other handle).
\<close>

definition setTimeout :: "callback \<Rightarrow> nat \<Rightarrow> world \<Rightarrow> tid \<times> world" where
  "setTimeout cb delay w =
     (next_timer w,
      call (SetTimeout (next_timer w) delay cb)
        (w\<lparr>timers := timers w @ [(next_timer w, delay, cb)],
           next_timer := Suc (next_timer w)\<rparr>))"

definition clearTimeout :: "tid \<Rightarrow> world \<Rightarrow> world" where
  "clearTimeout t w =
     call (ClearTimeout t) (w\<lparr>timers := filter (\<lambda>e. fst e \<noteq> t) (timers w)\<rparr>)"

definition nextTick :: "tick \<Rightarrow> world \<Rightarrow> world" where
  "nextTick tk w = w\<lparr>ticks := ticks w @ [tk]\<rparr>"

definition emit :: "sref \<Rightarrow> emitted \<Rightarrow> world \<Rightarrow> world" where
  "emit sr e w = call (Emit sr e) w"

text \<open>
  \<^verbatim>\<open>conn.destroy()\<close> and \<^verbatim>\<open>wire.end()\<close> are recorded; what the socket or the wire
  emits afterwards arrives as a later event. \<^verbatim>\<open>wire.destroy()\<close> also sets the wire's
  \<^verbatim>\<open>destroyed\<close> property, which the reconnect handler reads.
\<close>

definition conn_destroy :: "cid \<Rightarrow> world \<Rightarrow> world" where
  "conn_destroy c w = call (ConnDestroy c) w"

definition wire_end :: "wid \<Rightarrow> world \<Rightarrow> world" where
  "wire_end wd w = call (WireEnd wd) w"

definition wire_destroy :: "wid \<Rightarrow> world \<Rightarrow> world" where
  "wire_destroy wd w = call (WireDestroy wd) (upd_wire wd (\<lambda>x. x\<lparr>wire_destroyed := True\<rparr>) w)"

definition conn_on :: "cid \<Rightarrow> evkind \<Rightarrow> bool \<Rightarrow> handler \<Rightarrow> world \<Rightarrow> world" where
  "conn_on c k once h w =
     upd_conn c (\<lambda>x. x\<lparr>conn_listeners := conn_listeners x @ [(k, once, h)]\<rparr>) w"

definition wire_on :: "wid \<Rightarrow> evkind \<Rightarrow> bool \<Rightarrow> handler \<Rightarrow> world \<Rightarrow> world" where
  "wire_on wd k once h w =
     upd_wire wd (\<lambda>x. x\<lparr>wire_listeners := wire_listeners x @ [(k, once, h)]\<rparr>) w"

text \<open>\<^verbatim>\<open>once(f)\<close>: a new wrapper that has not been called yet.\<close>

definition new_once :: "world \<Rightarrow> oid \<times> world" where
  "new_once w =
     (next_once w,
      w\<lparr>once_called := (once_called w)(next_once w := False), next_once := Suc (next_once w)\<rparr>)"

subsection \<open>Peer\<close>

definition Peer :: "string \<Rightarrow> peer" where
  "Peer a = \<lparr>addr = a, conn = None, wire = None, timeout = None, retries = 0\<rparr>"

text \<open>
  No statement of the module assigns a property \<^verbatim>\<open>node\<close> to a Peer (the constructor
  sets \<^verbatim>\<open>addr\<close>, \<^verbatim>\<open>conn\<close>, \<^verbatim>\<open>wire\<close>, \<^verbatim>\<open>timeout\<close>, \<^verbatim>\<open>retries\<close>), so reading
  \<^verbatim>\<open>peer.node\<close> gives \<^verbatim>\<open>undefined\<close>, which is falsy.
\<close>

definition node :: "peer \<Rightarrow> bool" where
  "node p = False"

definition new_Peer :: "string \<Rightarrow> world \<Rightarrow> pref \<times> world" where
  "new_Peer a w =
     (next_peer w,
      w\<lparr>peer_objs := (peer_objs w)(next_peer w := Peer a), next_peer := Suc (next_peer w)\<rparr>)"

text \<open>\<^verbatim>\<open>new Wire()\<close>: a wire nobody listens to yet.\<close>

definition new_Wire :: "world \<Rightarrow> wid \<times> world" where
  "new_Wire w =
     (next_wire w,
      w\<lparr>wire_objs := (wire_objs w)(next_wire w :=
            \<lparr>wire_remoteAddress = [], wire_destroyed = False, wire_listeners = []\<rparr>),
         next_wire := Suc (next_wire w)\<rparr>)"

text \<open>\<^verbatim>\<open>Peer.prototype.onconnect(conn)\<close>.\<close>

definition Peer_onconnect :: "pref \<Rightarrow> cid \<Rightarrow> world \<Rightarrow> world" where
  "Peer_onconnect pr c w =
     (let w1 = upd_peer pr (\<lambda>p. p\<lparr>conn := Some c\<rparr>) w;
          (wd, w2) = new_Wire w1;
          w3 = upd_peer pr (\<lambda>p. p\<lparr>wire := Some wd\<rparr>) w2;
          w4 = upd_wire wd (\<lambda>x. x\<lparr>wire_remoteAddress := addr (peer_objs w3 pr)\<rparr>) w3;
          (d, w5) = new_once w4;
          w6 = conn_on c KEnd True (PeerConnDestroy pr d) w5;
          w7 = conn_on c KError True (PeerConnDestroy pr d) w6;
          w8 = conn_on c KClose True (PeerConnClose wd) w7;
          w9 = wire_on wd KEnd True (PeerWireEnd pr) w8
      in call (ConnPipe c wd) w9)"

subsection \<open>Pool: registry, construction and teardown\<close>

text \<open>
  \<^verbatim>\<open>new Pool(port)\<close>: the server is created and told to listen; its
  \<^verbatim>\<open>connection\<close>, \<^verbatim>\<open>listening\<close> and \<^verbatim>\<open>error\<close> events reach \<open>Pool__onconn\<close>,
  \<open>Pool__onlistening\<close> and \<open>Pool__onerror\<close> below.
\<close>

definition new_Pool :: "nat \<Rightarrow> world \<Rightarrow> plref \<times> world" where
  "new_Pool pt w =
     (next_pool w,
      call (ServerListen (next_pool w) pt)
        (w\<lparr>pool_objs := (pool_objs w)(next_pool w :=
              \<lparr>pool_port = pt, swarms = [], listening = False, conns = [], pool_retries = 0\<rparr>),
           next_pool := Suc (next_pool w)\<rparr>))"

text \<open>\<^verbatim>\<open>Pool.prototype.destroy\<close>.\<close>

definition Pool_destroy :: "plref \<Rightarrow> world \<Rightarrow> world" where
  "Pool_destroy pl w =
     (let w1 = foldl (\<lambda>v c. conn_destroy c v) w (conns (pool_objs w pl));
          w2 = upd_pool pl (\<lambda>p. p\<lparr>listening := False\<rparr>) w1
      in call (ServerClose pl) w2)"

text \<open>
  \<^verbatim>\<open>Pool.prototype.addSwarm\<close>. The two \<^verbatim>\<open>process.nextTick\<close> calls are made in
  the order of the source: first the one guarded by \<^verbatim>\<open>this.listening\<close>, then the one
  of the duplicate check.
\<close>

definition Pool_addSwarm :: "plref \<Rightarrow> sref \<Rightarrow> world \<Rightarrow> world" where
  "Pool_addSwarm pl sr w =
     (let ih = infoHash (swarm_objs w sr);
          w1 = (if listening (pool_objs w pl) then nextTick (EmitTick sr (Listening None)) w else w)
      in if map_of (swarms (pool_objs w1 pl)) ih \<noteq> None
         then nextTick (EmitTick sr (Error (DuplicateSwarm ih (port (swarm_objs w1 sr))))) w1
         else upd_pool pl (\<lambda>p. p\<lparr>swarms := AList.update ih sr (swarms p)\<rparr>) w1)"

text \<open>\<^verbatim>\<open>Pool.prototype.removeSwarm\<close>.\<close>

definition Pool_removeSwarm :: "plref \<Rightarrow> sref \<Rightarrow> world \<Rightarrow> world" where
  "Pool_removeSwarm pl sr w =
     (let ih = infoHash (swarm_objs w sr);
          w1 = upd_pool pl (\<lambda>p. p\<lparr>swarms := AList.delete ih (swarms p)\<rparr>) w
      in if length (swarms (pool_objs w1 pl)) = 0 then Pool_destroy pl w1 else w1)"

text \<open>The static \<^verbatim>\<open>Pool.add\<close> and \<^verbatim>\<open>Pool.remove\<close>, on the registry \<^verbatim>\<open>Pool.pools\<close>.\<close>

definition Pool_add :: "sref \<Rightarrow> world \<Rightarrow> world" where
  "Pool_add sr w =
     (let pt = port (swarm_objs w sr)
      in case map_of (pools w) pt of
           Some pl \<Rightarrow> Pool_addSwarm pl sr w
         | None \<Rightarrow>
             (let (pl, w1) = new_Pool pt w;
                  w2 = w1\<lparr>pools := AList.update pt pl (pools w1)\<rparr>
              in Pool_addSwarm pl sr w2))"

definition Pool_remove :: "sref \<Rightarrow> world \<Rightarrow> world" where
  "Pool_remove sr w =
     (let pt = port (swarm_objs w sr)
      in case map_of (pools w) pt of
           None \<Rightarrow> w
         | Some pl \<Rightarrow>
             (let w1 = Pool_removeSwarm pl sr w
              in if length (swarms (pool_objs w1 pl)) = 0
                 then w1\<lparr>pools := AList.delete pt (pools w1)\<rparr>
                 else w1))"

subsection \<open>Swarm\<close>

text \<open>\<^verbatim>\<open>new Swarm(infoHash, peerId, extensions)\<close>; the info-hash is kept in its hex form.\<close>

definition new_Swarm :: "string \<Rightarrow> world \<Rightarrow> sref \<times> world" where
  "new_Swarm ih w =
     (next_swarm w,
      w\<lparr>swarm_objs := (swarm_objs w)(next_swarm w :=
            \<lparr>infoHash = ih, port = 0, downloaded = 0, uploaded = 0, wires = [], queue = [],
             peers = [], paused = False, destroyed = False\<rparr>),
         next_swarm := Suc (next_swarm w)\<rparr>)"

text \<open>
  The getters \<^verbatim>\<open>numQueued\<close>, \<^verbatim>\<open>numConns\<close>, \<^verbatim>\<open>numPeers\<close>. \<^verbatim>\<open>_peers\<close> is an
  object used as a dictionary: one entry per key, in insertion order.
\<close>

definition numQueued :: "sref \<Rightarrow> world \<Rightarrow> nat" where
  "numQueued sr w = length (queue (swarm_objs w sr))"

definition numConns :: "sref \<Rightarrow> world \<Rightarrow> nat" where
  "numConns sr w =
     foldl (\<lambda>prev current. prev + current) 0
       (map (\<lambda>e. if conn (peer_objs w (snd e)) \<noteq> None then 1 else 0) (peers (swarm_objs w sr)))"

definition numPeers :: "sref \<Rightarrow> world \<Rightarrow> nat" where
  "numPeers sr w = length (wires (swarm_objs w sr))"

text \<open>\<^verbatim>\<open>Swarm.prototype._remove(addr)\<close>.\<close>

definition Swarm__remove :: "sref \<Rightarrow> string \<Rightarrow> world \<Rightarrow> world" where
  "Swarm__remove sr a w =
     (case map_of (peers (swarm_objs w sr)) a of
        None \<Rightarrow> w
      | Some pr \<Rightarrow>
          (let w1 = upd_swarm sr (\<lambda>s. s\<lparr>peers := AList.delete a (peers s)\<rparr>) w;
               w2 = (if node (peer_objs w1 pr)
                     then upd_swarm sr (\<lambda>s. s\<lparr>queue := js_splice (queue s) (js_indexOf (queue s) pr) 1\<rparr>) w1
                     else w1);
               w3 = (case timeout (peer_objs w2 pr) of Some t \<Rightarrow> clearTimeout t w2 | None \<Rightarrow> w2)
           in case wire (peer_objs w3 pr) of Some wd \<Rightarrow> wire_destroy wd w3 | None \<Rightarrow> w3))"

text \<open>
  \<^verbatim>\<open>Swarm.prototype._drain()\<close>. The handshake timer is a local variable of the call,
  closed over by \<^verbatim>\<open>onhandshake\<close>; the peer's own \<^verbatim>\<open>timeout\<close> field holds the
  reconnect timer.
\<close>

definition Swarm__drain :: "sref \<Rightarrow> world \<Rightarrow> world" where
  "Swarm__drain sr w =
     (if numConns sr w \<ge> MAX_SIZE \<or> paused (swarm_objs w sr) then w
      else case queue (swarm_objs w sr) of
             [] \<Rightarrow> w
           | pr # rest \<Rightarrow>
               (let w1 = upd_swarm sr (\<lambda>s. s\<lparr>queue := rest\<rparr>) w;
                    w2 = (case timeout (peer_objs w1 pr) of
                            Some t \<Rightarrow> upd_peer pr (\<lambda>p. p\<lparr>timeout := None\<rparr>) (clearTimeout t w1)
                          | None \<Rightarrow> w1);
                    parts = js_split CHR '':'' (addr (peer_objs w2 pr));
                    c = next_conn w2;
                    w3 = call (NetConnect c (js_index parts 1) (js_index parts 0))
                           (w2\<lparr>conn_objs := (conn_objs w2)(c :=
                                 \<lparr>remoteAddress = [], remotePort = 0, conn_listeners = []\<rparr>),
                               next_conn := Suc c\<rparr>);
                    w4 = call (ConsoleLog (''Connecting to '' @ addr (peer_objs w3 pr))) w3;
                    (t, w5) = setTimeout (ConnDestroyCb c) HANDSHAKE_TIMEOUT w4;
                    w6 = conn_on c KConnect False (DrainConnect sr pr c t) w5
                in conn_on c KError False (DrainConnError pr) w6))"

text \<open>\<^verbatim>\<open>add\<close>, \<^verbatim>\<open>pause\<close>, \<^verbatim>\<open>resume\<close>, \<^verbatim>\<open>remove\<close>.\<close>

definition Swarm_add :: "sref \<Rightarrow> string \<Rightarrow> world \<Rightarrow> world" where
  "Swarm_add sr a w =
     (if destroyed (swarm_objs w sr) \<or> map_of (peers (swarm_objs w sr)) a \<noteq> None then w
      else if \<not> validAddr a then w
      else (let (pr, w1) = new_Peer a w;
                w2 = upd_swarm sr (\<lambda>s. s\<lparr>peers := AList.update a pr (peers s)\<rparr>) w1;
                w3 = upd_swarm sr (\<lambda>s. s\<lparr>queue := queue s @ [pr]\<rparr>) w2
            in Swarm__drain sr w3))"

definition Swarm_pause :: "sref \<Rightarrow> world \<Rightarrow> world" where
  "Swarm_pause sr w = upd_swarm sr (\<lambda>s. s\<lparr>paused := True\<rparr>) w"

definition Swarm_resume :: "sref \<Rightarrow> world \<Rightarrow> world" where
  "Swarm_resume sr w = Swarm__drain sr (upd_swarm sr (\<lambda>s. s\<lparr>paused := False\<rparr>) w)"

definition Swarm_remove :: "sref \<Rightarrow> string \<Rightarrow> world \<Rightarrow> world" where
  "Swarm_remove sr a w = Swarm__drain sr (Swarm__remove sr a w)"

text \<open>
  \<^verbatim>\<open>listen(port, onlistening)\<close>. The optional callback only subscribes the caller to
  the \<^verbatim>\<open>listening\<close> event, which the model records when it is emitted. \<open>listen_onPort\<close>
  is the function \<^verbatim>\<open>onPort\<close>; without a (non-zero) port it is handed to portfinder.
\<close>

definition listen_onPort :: "sref \<Rightarrow> string option \<Rightarrow> nat \<Rightarrow> world \<Rightarrow> world" where
  "listen_onPort sr err pt w =
     (case err of
        Some e \<Rightarrow> emit sr (Error (PortfinderError e)) w
      | None \<Rightarrow> Pool_add sr (upd_swarm sr (\<lambda>s. s\<lparr>port := pt\<rparr>) w))"

definition Swarm_listen :: "sref \<Rightarrow> nat option \<Rightarrow> world \<Rightarrow> world" where
  "Swarm_listen sr pt w =
     (case pt of
        Some n \<Rightarrow> if n \<noteq> 0 then listen_onPort sr None n w else call (PortfinderGetPort sr) w
      | None \<Rightarrow> call (PortfinderGetPort sr) w)"

text \<open>
  \<^verbatim>\<open>Swarm.prototype.destroy()\<close>. The \<^verbatim>\<open>for ... in\<close> loop visits every key that
  \<^verbatim>\<open>_peers\<close> has when the loop starts (each step deletes only the key it visits).
\<close>

definition Swarm_destroy :: "sref \<Rightarrow> world \<Rightarrow> world" where
  "Swarm_destroy sr w =
     (let w1 = upd_swarm sr (\<lambda>s. s\<lparr>destroyed := True\<rparr>) w;
          w2 = foldl (\<lambda>v a. Swarm__remove sr a v) w1 (map fst (peers (swarm_objs w1 sr)));
          w3 = Pool_remove sr w2
      in nextTick (EmitTick sr Close) w3)"

text \<open>\<^verbatim>\<open>Swarm.prototype._onconn(peer)\<close>: reading \<^verbatim>\<open>peer.conn.once\<close> of a null
  \<^verbatim>\<open>conn\<close> raises.\<close>

definition Swarm__onconn :: "sref \<Rightarrow> pref \<Rightarrow> world \<Rightarrow> result" where
  "Swarm__onconn sr pr w =
     (case conn (peer_objs w pr) of
        None \<Rightarrow> throw (TypeError ''peer.conn is null'') w
      | Some c \<Rightarrow> ok (conn_on c KClose True (OnconnClose sr) w))"

text \<open>\<^verbatim>\<open>Swarm.prototype._onwire(peer)\<close>.\<close>

definition Swarm__onwire :: "sref \<Rightarrow> pref \<Rightarrow> world \<Rightarrow> result" where
  "Swarm__onwire sr pr w =
     (let co = conn (peer_objs w pr);
          wo = wire (peer_objs w pr);
          w1 = upd_peer pr (\<lambda>p. p\<lparr>retries := 0\<rparr>) w
      in case wo of
           None \<Rightarrow> throw (TypeError ''wire is null'') w1
         | Some wd \<Rightarrow>
             (let w2 = wire_on wd KDownload False (OnwireDownload sr) w1;
                  w3 = wire_on wd KUpload False (OnwireUpload sr) w2;
                  (cl, w4) = new_once w3;
                  h = OnwireCleanup sr wd co cl;
                  w5 = wire_on wd KEnd False h w4;
                  w6 = wire_on wd KClose False h w5;
                  w7 = wire_on wd KError False h w6;
                  w8 = wire_on wd KFinish False h w7;
                  w9 = upd_swarm sr (\<lambda>s. s\<lparr>wires := wires s @ [wd]\<rparr>) w8
              in ok (emit sr (WireReady wd) w9)))"

text \<open>\<^verbatim>\<open>Swarm.prototype._onincoming(peer)\<close>.\<close>

definition Swarm__onincoming :: "sref \<Rightarrow> pref \<Rightarrow> world \<Rightarrow> result" where
  "Swarm__onincoming sr pr w =
     (case wire (peer_objs w pr) of
        None \<Rightarrow> throw (TypeError ''peer.wire is null'') w
      | Some wd \<Rightarrow>
          (let w1 = upd_swarm sr
                      (\<lambda>s. s\<lparr>peers := AList.update (wire_remoteAddress (wire_objs w wd)) pr (peers s)\<rparr>) w;
               w2 = call (WireHandshake wd sr) w1
           in and_then (Swarm__onconn sr pr w2) (Swarm__onwire sr pr)))"

subsection \<open>The function literals\<close>

text \<open>
  In \<^verbatim>\<open>Peer.prototype.onconnect\<close>: \<^verbatim>\<open>destroy = once(function () { this.conn.destroy();
  this.conn = null })\<close>, called by the socket's \<^verbatim>\<open>end\<close> and \<^verbatim>\<open>error\<close> listeners.
\<close>

definition peer_conn_destroy :: "pref \<Rightarrow> oid \<Rightarrow> world \<Rightarrow> result" where
  "peer_conn_destroy pr d w =
     (if once_called w d then ok w
      else (let w1 = w\<lparr>once_called := (once_called w)(d := True)\<rparr>
            in case conn (peer_objs w1 pr) of
                 None \<Rightarrow> throw (TypeError ''this.conn is null'') w1
               | Some c \<Rightarrow> ok (upd_peer pr (\<lambda>p. p\<lparr>conn := None\<rparr>) (conn_destroy c w1))))"

text \<open>In \<^verbatim>\<open>_drain\<close>: the function \<^verbatim>\<open>onhandshake(infoHash)\<close>.\<close>

definition drain_onhandshake :: "sref \<Rightarrow> pref \<Rightarrow> tid \<Rightarrow> string \<Rightarrow> world \<Rightarrow> result" where
  "drain_onhandshake sr pr t ih w =
     (let w1 = clearTimeout t w
      in if ih \<noteq> infoHash (swarm_objs w1 sr)
         then (case conn (peer_objs w1 pr) of
                 None \<Rightarrow> throw (TypeError ''peer.conn is null'') w1
               | Some c \<Rightarrow> ok (conn_destroy c w1))
         else Swarm__onwire sr pr w1)"

text \<open>
  In \<^verbatim>\<open>_drain\<close>: the listener of the wire's \<^verbatim>\<open>end\<close> event. In its second branch the
  guard has established \<open>retries < length RECONNECT_WAIT\<close>, so the array read is in
  range; \<^verbatim>\<open>peer.retries++\<close> yields the old value.
\<close>

definition drain_wire_onend :: "sref \<Rightarrow> pref \<Rightarrow> wid \<Rightarrow> world \<Rightarrow> world" where
  "drain_wire_onend sr pr wd w =
     (if destroyed (swarm_objs w sr) \<or> wire_destroyed (wire_objs w wd)
         \<or> retries (peer_objs w pr) \<ge> length RECONNECT_WAIT
      then Swarm__remove sr (addr (peer_objs w pr)) w
      else (let delay = RECONNECT_WAIT ! retries (peer_objs w pr);
                w1 = upd_peer pr (\<lambda>p. p\<lparr>retries := retries p + 1\<rparr>) w;
                (t, w2) = setTimeout (ReaddCb sr pr) delay w1
            in upd_peer pr (\<lambda>p. p\<lparr>timeout := Some t\<rparr>) w2))"

text \<open>In \<^verbatim>\<open>_drain\<close>: the function \<^verbatim>\<open>readd\<close>, run by the reconnect timer.\<close>

definition readd :: "sref \<Rightarrow> pref \<Rightarrow> world \<Rightarrow> world" where
  "readd sr pr w = Swarm__drain sr (upd_swarm sr (\<lambda>s. s\<lparr>queue := queue s @ [pr]\<rparr>) w)"

text \<open>In \<^verbatim>\<open>_drain\<close>: the function \<^verbatim>\<open>onconnect\<close>, the listener of the socket's
  \<^verbatim>\<open>connect\<close> event.\<close>

definition drain_onconnect :: "sref \<Rightarrow> pref \<Rightarrow> cid \<Rightarrow> tid \<Rightarrow> world \<Rightarrow> result" where
  "drain_onconnect sr pr c t w =
     and_then (Swarm__onconn sr pr (Peer_onconnect pr c w))
       (\<lambda>w1. case wire (peer_objs w1 pr) of
                None \<Rightarrow> throw (TypeError ''wire is null'') w1
              | Some wd \<Rightarrow>
                  (let w2 = wire_on wd KHandshake False (DrainHandshake sr pr t) w1;
                       w3 = wire_on wd KEnd False (DrainWireEnd sr pr wd) w2
                   in ok (call (WireHandshake wd sr) w3)))"

text \<open>In \<^verbatim>\<open>_onwire\<close>: \<^verbatim>\<open>cleanup = once(function () { this.wires.splice(this.wires.indexOf(wire), 1);
  conn.destroy() })\<close>.\<close>

definition onwire_cleanup :: "sref \<Rightarrow> wid \<Rightarrow> cid option \<Rightarrow> oid \<Rightarrow> world \<Rightarrow> result" where
  "onwire_cleanup sr wd co cl w =
     (if once_called w cl then ok w
      else (let w1 = w\<lparr>once_called := (once_called w)(cl := True)\<rparr>;
                w2 = upd_swarm sr (\<lambda>s. s\<lparr>wires := js_splice (wires s) (js_indexOf (wires s) wd) 1\<rparr>) w1
            in case co of
                 None \<Rightarrow> throw (TypeError ''conn is null'') w2
               | Some c \<Rightarrow> ok (conn_destroy c w2)))"

text \<open>
  In \<^verbatim>\<open>_onwire\<close>: the \<^verbatim>\<open>download\<close> and \<^verbatim>\<open>upload\<close> listeners (the speedometers
  they feed hold no state of the module and are left out).
\<close>

definition onwire_download :: "sref \<Rightarrow> nat \<Rightarrow> world \<Rightarrow> world" where
  "onwire_download sr n w = emit sr (Download n) (upd_swarm sr (\<lambda>s. s\<lparr>downloaded := downloaded s + n\<rparr>) w)"

definition onwire_upload :: "sref \<Rightarrow> nat \<Rightarrow> world \<Rightarrow> world" where
  "onwire_upload sr n w = emit sr (Upload n) (upd_swarm sr (\<lambda>s. s\<lparr>uploaded := uploaded s + n\<rparr>) w)"

text \<open>In \<^verbatim>\<open>Pool.prototype._onconn\<close>: the socket's \<^verbatim>\<open>close\<close> listener and the wire's
  \<^verbatim>\<open>handshake\<close> listener.\<close>

definition pool_conn_onclose :: "plref \<Rightarrow> cid \<Rightarrow> world \<Rightarrow> world" where
  "pool_conn_onclose pl c w =
     upd_pool pl (\<lambda>p. p\<lparr>conns := js_splice_rest (conns p) (js_indexOf (conns p) c)\<rparr>) w"

definition pool_onhandshake :: "plref \<Rightarrow> cid \<Rightarrow> pref \<Rightarrow> tid \<Rightarrow> string \<Rightarrow> world \<Rightarrow> result" where
  "pool_onhandshake pl c pr t ih w =
     (let w1 = clearTimeout t w
      in case map_of (swarms (pool_objs w1 pl)) ih of
           None \<Rightarrow> ok (conn_destroy c w1)
         | Some sr \<Rightarrow> Swarm__onincoming sr pr w1)"

text \<open>Running a listener on an event. A listener is only ever registered for the event
  kind it handles; on any other event it does nothing.\<close>

fun run_handler :: "handler \<Rightarrow> event \<Rightarrow> world \<Rightarrow> result" where
  "run_handler (PeerConnDestroy pr d) ev w = peer_conn_destroy pr d w"
| "run_handler (PeerConnClose wd) ev w = ok (wire_end wd w)"
| "run_handler (PeerWireEnd pr) ev w = ok (upd_peer pr (\<lambda>p. p\<lparr>wire := None\<rparr>) w)"
| "run_handler (PoolConnClose pl c) ev w = ok (pool_conn_onclose pl c w)"
| "run_handler (PoolHandshake pl c pr t) (EvHandshake ih) w = pool_onhandshake pl c pr t ih w"
| "run_handler (DrainConnect sr pr c t) ev w = drain_onconnect sr pr c t w"
| "run_handler (DrainConnError pr) ev w =
     ok (call (ConsoleLog (''Failed to connect to '' @ addr (peer_objs w pr))) w)"
| "run_handler (DrainHandshake sr pr t) (EvHandshake ih) w = drain_onhandshake sr pr t ih w"
| "run_handler (DrainWireEnd sr pr wd) ev w = ok (drain_wire_onend sr pr wd w)"
| "run_handler (OnconnClose sr) ev w = ok (Swarm__drain sr w)"
| "run_handler (OnwireDownload sr) (EvDownload n) w = ok (onwire_download sr n w)"
| "run_handler (OnwireUpload sr) (EvUpload n) w = ok (onwire_upload sr n w)"
| "run_handler (OnwireCleanup sr wd co cl) ev w = onwire_cleanup sr wd co cl w"
| "run_handler h ev w = ok w"

text \<open>
  \<^verbatim>\<open>emitter.emit(event)\<close>: the listeners registered for the event when it is emitted
  run in the order of registration; a \<^verbatim>\<open>once\<close> listener is removed just before it
  runs; an exception ends the emit.
\<close>

fun run_listeners :: "(listener \<Rightarrow> world \<Rightarrow> world) \<Rightarrow> event \<Rightarrow> listener list \<Rightarrow> world \<Rightarrow> result" where
  "run_listeners off ev [] w = ok w"
| "run_listeners off ev (l # ls) w =
     and_then (run_handler (snd (snd l)) ev (if fst (snd l) then off l w else w))
       (run_listeners off ev ls)"

definition conn_off :: "cid \<Rightarrow> listener \<Rightarrow> world \<Rightarrow> world" where
  "conn_off c l w = upd_conn c (\<lambda>x. x\<lparr>conn_listeners := remove1 l (conn_listeners x)\<rparr>) w"

definition wire_off :: "wid \<Rightarrow> listener \<Rightarrow> world \<Rightarrow> world" where
  "wire_off wd l w = upd_wire wd (\<lambda>x. x\<lparr>wire_listeners := remove1 l (wire_listeners x)\<rparr>) w"

definition conn_emits :: "cid \<Rightarrow> event \<Rightarrow> world \<Rightarrow> result" where
  "conn_emits c ev w =
     run_listeners (conn_off c) ev
       (filter (\<lambda>l. fst l = kind_of ev) (conn_listeners (conn_objs w c))) w"

definition wire_emits :: "wid \<Rightarrow> event \<Rightarrow> world \<Rightarrow> result" where
  "wire_emits wd ev w =
     run_listeners (wire_off wd) ev
       (filter (\<lambda>l. fst l = kind_of ev) (wire_listeners (wire_objs w wd))) w"

subsection \<open>Pool: the server's events\<close>

text \<open>\<^verbatim>\<open>Pool.prototype._onlistening\<close>.\<close>

definition Pool__onlistening :: "plref \<Rightarrow> world \<Rightarrow> world" where
  "Pool__onlistening pl w =
     (let w1 = upd_pool pl (\<lambda>p. p\<lparr>listening := True\<rparr>) w
      in foldl (\<lambda>v e. emit (snd e) (Listening (Some (pool_port (pool_objs v pl)))) v) w1
           (swarms (pool_objs w1 pl)))"

text \<open>
  \<^verbatim>\<open>Pool.prototype._onconn(conn)\<close>: the server hands over a new socket, here created
  with its remote address and port.
\<close>

definition Pool__onconn :: "plref \<Rightarrow> string \<Rightarrow> nat \<Rightarrow> world \<Rightarrow> world" where
  "Pool__onconn pl ra rp w =
     (let c = next_conn w;
          w1 = w\<lparr>conn_objs := (conn_objs w)(c :=
                   \<lparr>remoteAddress = ra, remotePort = rp, conn_listeners = []\<rparr>),
                 next_conn := Suc c\<rparr>;
          w2 = upd_pool pl (\<lambda>p. p\<lparr>conns := conns p @ [c]\<rparr>) w1;
          w3 = conn_on c KClose False (PoolConnClose pl c) w2;
          a = remoteAddress (conn_objs w3 c) @ '':'' @ show_nat (remotePort (conn_objs w3 c));
          (pr, w4) = new_Peer a w3;
          w5 = Peer_onconnect pr c w4;
          (t, w6) = setTimeout (ConnDestroyCb c) HANDSHAKE_TIMEOUT w5
      in case wire (peer_objs w6 pr) of
           None \<Rightarrow> w6
         | Some wd \<Rightarrow> wire_on wd KHandshake False (PoolHandshake pl c pr t) w6)"

text \<open>
  \<^verbatim>\<open>Pool.prototype._onerror(err)\<close>, with \<^verbatim>\<open>err.code\<close> and \<^verbatim>\<open>err.message\<close>.
  \<^verbatim>\<open>this.swarms\<close> is the object literal \<^verbatim>\<open>{}\<close> of the constructor, used as a
  dictionary from info-hash to swarm. A plain object has no method \<^verbatim>\<open>forEach\<close>, and
  a swarm stored under that key would not be a function either: the call
  \<^verbatim>\<open>this.swarms.forEach(...)\<close> raises a TypeError before the function literal that
  emits \<^verbatim>\<open>error\<close> is ever run.
\<close>

definition Pool__onerror :: "plref \<Rightarrow> string \<Rightarrow> string \<Rightarrow> world \<Rightarrow> result" where
  "Pool__onerror pl code msg w =
     (if code = ''EADDRINUSE'' \<and> pool_retries (pool_objs w pl) < 5
      then (let w1 = call (ConsoleError ''Address in use, retrying...'') w
            in ok (snd (setTimeout (RetryListenCb pl) 1000 w1)))
      else (let w1 = upd_pool pl (\<lambda>p. p\<lparr>listening := False\<rparr>) w
            in throw (TypeError ''this.swarms.forEach is not a function'') w1))"

text \<open>The retry timer of \<^verbatim>\<open>_onerror\<close>.\<close>

definition retry_listen :: "plref \<Rightarrow> world \<Rightarrow> world" where
  "retry_listen pl w =
     (let w1 = upd_pool pl (\<lambda>p. p\<lparr>pool_retries := pool_retries p + 1\<rparr>) w;
          w2 = call (ServerClose pl) w1
      in call (ServerListen pl (pool_port (pool_objs w2 pl))) w2)"

subsection \<open>Timers, ticks and the event loop\<close>

fun run_callback :: "callback \<Rightarrow> world \<Rightarrow> world" where
  "run_callback (ConnDestroyCb c) w = conn_destroy c w"
| "run_callback (ReaddCb sr pr) w = readd sr pr w"
| "run_callback (RetryListenCb pl) w = retry_listen pl w"

text \<open>A pending timer fires once; a handle that is not pending never fires.\<close>

definition timer_fires :: "tid \<Rightarrow> world \<Rightarrow> world" where
  "timer_fires t w =
     (case map_of (timers w) t of
        None \<Rightarrow> w
      | Some (delay, cb) \<Rightarrow> run_callback cb (w\<lparr>timers := filter (\<lambda>e. fst e \<noteq> t) (timers w)\<rparr>))"

fun run_tick :: "tick \<Rightarrow> world \<Rightarrow> world" where
  "run_tick (EmitTick sr e) w = emit sr e w"

text \<open>The first function queued with \<^verbatim>\<open>process.nextTick\<close> runs.\<close>

definition tick :: "world \<Rightarrow> world" where
  "tick w = (case ticks w of [] \<Rightarrow> w | tk # rest \<Rightarrow> run_tick tk (w\<lparr>ticks := rest\<rparr>))"

text \<open>What can happen to the module: a call of its API, or an event of its environment.\<close>

datatype input =
    NewSwarm string
  | Add sref string
  | Remove sref string
  | Pause sref
  | Resume sref
  | Listen sref "nat option"
  | Destroy sref
  | PortFound sref "string option" nat
  | ConnEmits cid event
  | WireEmits wid event
  | TimerFires tid
  | Tick
  | ServerListening plref
  | ServerConnection plref string nat
  | ServerError plref string string

fun step :: "input \<Rightarrow> world \<Rightarrow> result" where
  "step (NewSwarm ih) w = ok (snd (new_Swarm ih w))"
| "step (Add sr a) w = ok (Swarm_add sr a w)"
| "step (Remove sr a) w = ok (Swarm_remove sr a w)"
| "step (Pause sr) w = ok (Swarm_pause sr w)"
| "step (Resume sr) w = ok (Swarm_resume sr w)"
| "step (Listen sr pt) w = ok (Swarm_listen sr pt w)"
| "step (Destroy sr) w = ok (Swarm_destroy sr w)"
| "step (PortFound sr err pt) w = ok (listen_onPort sr err pt w)"
| "step (ConnEmits c ev) w = conn_emits c ev w"
| "step (WireEmits wd ev) w = wire_emits wd ev w"
| "step (TimerFires t) w = ok (timer_fires t w)"
| "step Tick w = ok (tick w)"
| "step (ServerListening pl) w = ok (Pool__onlistening pl w)"
| "step (ServerConnection pl ra rp) w = ok (Pool__onconn pl ra rp w)"
| "step (ServerError pl code msg) w = Pool__onerror pl code msg w"

text \<open>A run stops at the first uncaught exception.\<close>

fun run :: "input list \<Rightarrow> world \<Rightarrow> result" where
  "run [] w = ok w"
| "run (i # is) w = and_then (step i w) (run is)"

text \<open>The state when the module has been loaded: no object, no timer, no pool.\<close>

definition init :: world where
  "init =
     \<lparr>swarm_objs = (\<lambda>_. \<lparr>infoHash = [], port = 0, downloaded = 0, uploaded = 0, wires = [],
                          queue = [], peers = [], paused = False, destroyed = False\<rparr>),
      next_swarm = 0,
      peer_objs = (\<lambda>_. Peer []),
      next_peer = 0,
      conn_objs = (\<lambda>_. \<lparr>remoteAddress = [], remotePort = 0, conn_listeners = []\<rparr>),
      next_conn = 0,
      wire_objs = (\<lambda>_. \<lparr>wire_remoteAddress = [], wire_destroyed = False, wire_listeners = []\<rparr>),
      next_wire = 0,
      pool_objs = (\<lambda>_. \<lparr>pool_port = 0, swarms = [], listening = False, conns = [], pool_retries = 0\<rparr>),
      next_pool = 0,
      pools = [],
      once_called = (\<lambda>_. False),
      next_once = 0,
      timers = [],
      next_timer = 0,
      ticks = [],
      effects = []\<rparr>"

section \<open>The peer module (src/unnamed/part_001)\<close>

text \<open>
  This module has a Peer of its own, with a back-reference to its swarm. Its names carry a
  prefix where they would clash with the swarm module's: the fields of this Peer are
  \<open>p_id\<close>, \<open>p_addr\<close>, ..., and its \<^verbatim>\<open>HANDSHAKE_TIMEOUT\<close> is \<open>Peer_HANDSHAKE_TIMEOUT\<close>.
\<close>

definition Peer_HANDSHAKE_TIMEOUT :: nat where
  "Peer_HANDSHAKE_TIMEOUT = 25000"

record mpeer =
  p_id :: string
  p_addr :: "string option"
  p_conn :: "cid option"
  p_swarm :: "sref option"
  p_wire :: "wid option"
  p_destroyed :: bool
  p_timeout :: "tid option"
  p_retries :: nat
  p_sentHandshake :: bool

text \<open>
  The swarm as this module uses it: \<^verbatim>\<open>wires\<close>, \<^verbatim>\<open>destroyed\<close>, \<^verbatim>\<open>infoHashHex\<close>
  and the two byte counters. The record is extensible: whatever else a swarm holds is in
  its \<open>more\<close> part. The swarm's methods \<^verbatim>\<open>removePeer\<close> and \<^verbatim>\<open>_drain\<close>, which
  \<^verbatim>\<open>Peer.prototype.destroy\<close> calls, are not among the sources (the swarm module above has
  neither \<^verbatim>\<open>removePeer\<close> nor a \<^verbatim>\<open>wires\<close>-splicing peer); they are parameters
  \<open>rp\<close> and \<open>dr\<close> of the functions below and may be any functions on the swarm object.
\<close>

record mswarm =
  sw_wires :: "wid list"
  sw_destroyed :: bool
  sw_infoHashHex :: string
  sw_downloaded :: nat
  sw_uploaded :: nat

record mconn =
  c_id :: string
  c_connected :: bool
  c_remoteAddress :: "string option"
  c_remotePort :: nat

datatype mhandler = HDestroy pref | HOnConnect pref | HOnHandshake pref | HDownload pref | HUpload pref

datatype meffect =
    MConnDestroy cid
  | MWireDestroy wid
  | MConnPipe cid wid
  | MWireHandshake wid sref
  | MSetTimeout tid nat pref
  | MUnref tid
  | MClearTimeout tid
  | MEmitWire sref wid "string option"
  | MEmitDownload sref nat
  | MEmitUpload sref nat

record 'a pworld =
  mpeers :: "pref \<Rightarrow> mpeer"
  next_mpeer :: nat
  mswarms :: "sref \<Rightarrow> 'a mswarm_scheme"
  mconns :: "cid \<Rightarrow> mconn"
  mconn_listeners :: "cid \<Rightarrow> (evkind \<times> bool \<times> mhandler) list"
  mwire_listeners :: "wid \<Rightarrow> (evkind \<times> bool \<times> mhandler) list"
  next_mwire :: nat
  mtimers :: "(tid \<times> nat \<times> pref) list"
  next_mtimer :: nat
  meffects :: "meffect list"

type_synonym 'a presult = "exn option \<times> 'a pworld"

definition pok :: "'a pworld \<Rightarrow> 'a presult" where
  "pok w = (None, w)"

definition pthrow :: "exn \<Rightarrow> 'a pworld \<Rightarrow> 'a presult" where
  "pthrow e w = (Some e, w)"

definition pthen :: "'a presult \<Rightarrow> ('a pworld \<Rightarrow> 'a presult) \<Rightarrow> 'a presult" where
  "pthen r f = (case r of (None, w) \<Rightarrow> f w | (Some e, w) \<Rightarrow> (Some e, w))"

definition upd_mpeer :: "pref \<Rightarrow> (mpeer \<Rightarrow> mpeer) \<Rightarrow> 'a pworld \<Rightarrow> 'a pworld" where
  "upd_mpeer pr f w = w\<lparr>mpeers := (mpeers w)(pr := f (mpeers w pr))\<rparr>"

definition upd_mswarm ::
  "sref \<Rightarrow> ('a mswarm_scheme \<Rightarrow> 'a mswarm_scheme) \<Rightarrow> 'a pworld \<Rightarrow> 'a pworld" where
  "upd_mswarm sr f w = w\<lparr>mswarms := (mswarms w)(sr := f (mswarms w sr))\<rparr>"

definition mcall :: "meffect \<Rightarrow> 'a pworld \<Rightarrow> 'a pworld" where
  "mcall e w = w\<lparr>meffects := meffects w @ [e]\<rparr>"

definition mclearTimeout :: "tid \<Rightarrow> 'a pworld \<Rightarrow> 'a pworld" where
  "mclearTimeout t w =
     mcall (MClearTimeout t) (w\<lparr>mtimers := filter (\<lambda>e. fst e \<noteq> t) (mtimers w)\<rparr>)"

definition mconn_once :: "cid \<Rightarrow> evkind \<Rightarrow> mhandler \<Rightarrow> 'a pworld \<Rightarrow> 'a pworld" where
  "mconn_once c k h w =
     w\<lparr>mconn_listeners := (mconn_listeners w)(c := mconn_listeners w c @ [(k, True, h)])\<rparr>"

definition mwire_listen :: "wid \<Rightarrow> evkind \<Rightarrow> bool \<Rightarrow> mhandler \<Rightarrow> 'a pworld \<Rightarrow> 'a pworld" where
  "mwire_listen wd k once h w =
     w\<lparr>mwire_listeners := (mwire_listeners w)(wd := mwire_listeners w wd @ [(k, once, h)])\<rparr>"

text \<open>The constructor \<^verbatim>\<open>Peer(id)\<close> of this module.\<close>

definition new_mPeer :: "string \<Rightarrow> 'a pworld \<Rightarrow> pref \<times> 'a pworld" where
  "new_mPeer i w =
     (next_mpeer w,
      w\<lparr>mpeers := (mpeers w)(next_mpeer w :=
            \<lparr>p_id = i, p_addr = None, p_conn = None, p_swarm = None, p_wire = None,
             p_destroyed = False, p_timeout = None, p_retries = 0, p_sentHandshake = False\<rparr>),
         next_mpeer := Suc (next_mpeer w)\<rparr>)"

text \<open>\<^verbatim>\<open>xs.indexOf(x)\<close> where \<open>x\<close> may be \<^verbatim>\<open>null\<close>, which no element of \<open>xs\<close> is.\<close>

definition js_indexOf_nullable :: "'a list \<Rightarrow> 'a option \<Rightarrow> int" where
  "js_indexOf_nullable xs x = (case x of None \<Rightarrow> - 1 | Some y \<Rightarrow> js_indexOf xs y)"

text \<open>\<^verbatim>\<open>Peer.prototype.destroy(err)\<close>. Line 182 reads \<^verbatim>\<open>self.swarm.wires\<close> without a
  guard; lines 180, 184, 187 and 192 guard what they use.\<close>

definition Peer_destroy ::
  "(string \<Rightarrow> 'a mswarm_scheme \<Rightarrow> 'a mswarm_scheme) \<Rightarrow> ('a mswarm_scheme \<Rightarrow> 'a mswarm_scheme) \<Rightarrow>
   pref \<Rightarrow> 'a pworld \<Rightarrow> 'a presult" where
  "Peer_destroy rp dr pr w =
     (if p_destroyed (mpeers w pr) then pok w
      else
        (let w1 = upd_mpeer pr (\<lambda>p. p\<lparr>p_destroyed := True\<rparr>) w;
             w2 = (case p_conn (mpeers w1 pr) of Some c \<Rightarrow> mcall (MConnDestroy c) w1 | None \<Rightarrow> w1)
         in case p_swarm (mpeers w2 pr) of
              None \<Rightarrow> pthrow (TypeError ''self.swarm is null'') w2
            | Some sr \<Rightarrow>
                (let w3 = upd_mswarm sr
                            (\<lambda>s. s\<lparr>sw_wires := js_splice (sw_wires s)
                                     (js_indexOf_nullable (sw_wires s) (p_wire (mpeers w2 pr))) 1\<rparr>) w2;
                     w4 = (case p_wire (mpeers w3 pr) of Some wd \<Rightarrow> mcall (MWireDestroy wd) w3 | None \<Rightarrow> w3);
                     w5 = (case p_swarm (mpeers w4 pr) of
                             Some sr' \<Rightarrow> upd_mswarm sr' dr (upd_mswarm sr' (rp (p_id (mpeers w4 pr))) w4)
                           | None \<Rightarrow> w4);
                     w6 = (case p_timeout (mpeers w5 pr) of Some t \<Rightarrow> mclearTimeout t w5 | None \<Rightarrow> w5)
                 in pok (upd_mpeer pr
                           (\<lambda>p. p\<lparr>p_timeout := None, p_conn := None, p_swarm := None, p_wire := None\<rparr>) w6))))"

text \<open>\<^verbatim>\<open>Peer.prototype.setTimeout\<close> and \<^verbatim>\<open>clearTimeout\<close>; the timer's function is
  \<^verbatim>\<open>self.destroy()\<close>.\<close>

definition Peer_setTimeout :: "pref \<Rightarrow> 'a pworld \<Rightarrow> 'a pworld" where
  "Peer_setTimeout pr w =
     (let w1 = (case p_timeout (mpeers w pr) of Some t \<Rightarrow> mclearTimeout t w | None \<Rightarrow> w);
          t = next_mtimer w1;
          w2 = mcall (MSetTimeout t Peer_HANDSHAKE_TIMEOUT pr)
                 (w1\<lparr>mtimers := mtimers w1 @ [(t, Peer_HANDSHAKE_TIMEOUT, pr)],
                     next_mtimer := Suc t\<rparr>);
          w3 = upd_mpeer pr (\<lambda>p. p\<lparr>p_timeout := Some t\<rparr>) w2
      in mcall (MUnref t) w3)"

definition Peer_clearTimeout :: "pref \<Rightarrow> 'a pworld \<Rightarrow> 'a pworld" where
  "Peer_clearTimeout pr w =
     (let w1 = (case p_timeout (mpeers w pr) of Some t \<Rightarrow> mclearTimeout t w | None \<Rightarrow> w)
      in upd_mpeer pr (\<lambda>p. p\<lparr>p_timeout := None\<rparr>) w1)"

text \<open>\<^verbatim>\<open>Peer.prototype.handshake\<close>.\<close>

definition Peer_handshake :: "pref \<Rightarrow> 'a pworld \<Rightarrow> 'a presult" where
  "Peer_handshake pr w =
     (case (p_wire (mpeers w pr), p_swarm (mpeers w pr)) of
        (Some wd, Some sr) \<Rightarrow>
          pok (upd_mpeer pr (\<lambda>p. p\<lparr>p_sentHandshake := True\<rparr>) (mcall (MWireHandshake wd sr) w))
      | _ \<Rightarrow> pthrow (TypeError ''self.wire or self.swarm is null'') w)"

text \<open>\<^verbatim>\<open>Peer.prototype.onConnect\<close>.\<close>

definition Peer_onConnect :: "pref \<Rightarrow> 'a pworld \<Rightarrow> 'a presult" where
  "Peer_onConnect pr w =
     (case p_conn (mpeers w pr) of
        None \<Rightarrow> pthrow (TypeError ''conn is null'') w
      | Some c \<Rightarrow>
          (let w1 = mconn_once c KEnd (HDestroy pr) w;
               w2 = mconn_once c KClose (HDestroy pr) w1;
               w3 = mconn_once c KFinish (HDestroy pr) w2;
               w4 = mconn_once c KError (HDestroy pr) w3;
               wd = next_mwire w4;
               w5 = upd_mpeer pr (\<lambda>p. p\<lparr>p_wire := Some wd\<rparr>)
                      (w4\<lparr>mwire_listeners := (mwire_listeners w4)(wd := []), next_mwire := Suc wd\<rparr>);
               w6 = mwire_listen wd KEnd True (HDestroy pr) w5;
               w7 = mwire_listen wd KFinish True (HDestroy pr) w6;
               w8 = mwire_listen wd KError True (HDestroy pr) w7;
               w9 = mwire_listen wd KHandshake True (HOnHandshake pr) w8;
               w10 = Peer_setTimeout pr w9;
               w11 = mcall (MConnPipe c wd) w10
           in if p_swarm (mpeers w11 pr) \<noteq> None then Peer_handshake pr w11 else pok w11))"

text \<open>\<^verbatim>\<open>Peer.prototype.onHandshake(infoHash)\<close>, the info-hash in hex.\<close>

definition Peer_onHandshake ::
  "(string \<Rightarrow> 'a mswarm_scheme \<Rightarrow> 'a mswarm_scheme) \<Rightarrow> ('a mswarm_scheme \<Rightarrow> 'a mswarm_scheme) \<Rightarrow>
   pref \<Rightarrow> string \<Rightarrow> 'a pworld \<Rightarrow> 'a presult" where
  "Peer_onHandshake rp dr pr ih w =
     (case p_swarm (mpeers w pr) of
        None \<Rightarrow> pok w
      | Some sr \<Rightarrow>
          if sw_destroyed (mswarms w sr) then Peer_destroy rp dr pr w
          else if ih \<noteq> sw_infoHashHex (mswarms w sr) then Peer_destroy rp dr pr w
          else
            (let w1 = upd_mpeer pr (\<lambda>p. p\<lparr>p_retries := 0\<rparr>) (Peer_clearTimeout pr w)
             in case p_wire (mpeers w1 pr) of
                  None \<Rightarrow> pthrow (TypeError ''self.wire is null'') w1
                | Some wd \<Rightarrow>
                    (let w2 = mwire_listen wd KDownload False (HDownload pr) w1;
                         w3 = mwire_listen wd KUpload False (HUpload pr) w2
                     in pthen (if \<not> p_sentHandshake (mpeers w3 pr) then Peer_handshake pr w3 else pok w3)
                          (\<lambda>w4.
                             (let w5 = upd_mswarm sr (\<lambda>s. s\<lparr>sw_wires := sw_wires s @ [wd]\<rparr>) w4;
                                  a0 = p_addr (mpeers w5 pr)
                              in if a0 = None \<or> a0 = Some []
                                 then (case p_conn (mpeers w5 pr) of
                                         None \<Rightarrow> pthrow (TypeError ''self.conn is null'') w5
                                       | Some c \<Rightarrow>
                                           (case c_remoteAddress (mconns w5 c) of
                                              None \<Rightarrow> pok (mcall (MEmitWire sr wd a0) w5)
                                            | Some ra \<Rightarrow>
                                                if ra = [] then pok (mcall (MEmitWire sr wd a0) w5)
                                                else pok (mcall (MEmitWire sr wd
                                                       (Some (ra @ '':'' @ show_nat (c_remotePort (mconns w5 c))))) w5)))
                                 else pok (mcall (MEmitWire sr wd a0) w5))))))"

text \<open>The three exported constructors. A socket is given by its identity; its
  \<^verbatim>\<open>id\<close>, \<^verbatim>\<open>connected\<close>, \<^verbatim>\<open>remoteAddress\<close> and \<^verbatim>\<open>remotePort\<close> are in \<open>mconns\<close>.\<close>

definition createOutgoingTCPPeer :: "string \<Rightarrow> sref \<Rightarrow> 'a pworld \<Rightarrow> pref \<times> 'a pworld" where
  "createOutgoingTCPPeer a sr w =
     (let (pr, w1) = new_mPeer a w
      in (pr, upd_mpeer pr (\<lambda>p. p\<lparr>p_swarm := Some sr, p_addr := Some a\<rparr>) w1))"

definition createIncomingTCPPeer :: "cid \<Rightarrow> 'a pworld \<Rightarrow> pref \<times> 'a presult" where
  "createIncomingTCPPeer c w =
     (let a = (case c_remoteAddress (mconns w c) of None \<Rightarrow> ''undefined'' | Some ra \<Rightarrow> ra)
              @ '':'' @ show_nat (c_remotePort (mconns w c));
          (pr, w1) = new_mPeer a w;
          w2 = upd_mpeer pr (\<lambda>p. p\<lparr>p_conn := Some c, p_addr := Some a\<rparr>) w1
      in (pr, Peer_onConnect pr w2))"

definition createWebRTCPeer :: "cid \<Rightarrow> sref \<Rightarrow> 'a pworld \<Rightarrow> pref \<times> 'a presult" where
  "createWebRTCPeer c sr w =
     (let (pr, w1) = new_mPeer (c_id (mconns w c)) w;
          w2 = upd_mpeer pr (\<lambda>p. p\<lparr>p_conn := Some c, p_swarm := Some sr\<rparr>) w1
      in if c_connected (mconns w2 c) then (pr, Peer_onConnect pr w2)
         else (pr, pok (mconn_once c KError (HDestroy pr)
                          (Peer_setTimeout pr (mconn_once c KConnect (HOnConnect pr) w2)))))"

text \<open>The listeners and the timer of a peer, run by the socket's and the wire's events.\<close>

fun run_mhandler ::
  "(string \<Rightarrow> 'a mswarm_scheme \<Rightarrow> 'a mswarm_scheme) \<Rightarrow> ('a mswarm_scheme \<Rightarrow> 'a mswarm_scheme) \<Rightarrow>
   mhandler \<Rightarrow> event \<Rightarrow> 'a pworld \<Rightarrow> 'a presult" where
  "run_mhandler rp dr (HDestroy pr) ev w = Peer_destroy rp dr pr w"
| "run_mhandler rp dr (HOnConnect pr) ev w = Peer_onConnect pr w"
| "run_mhandler rp dr (HOnHandshake pr) (EvHandshake ih) w = Peer_onHandshake rp dr pr ih w"
| "run_mhandler rp dr (HDownload pr) (EvDownload n) w =
     (case p_swarm (mpeers w pr) of
        None \<Rightarrow> pthrow (TypeError ''self.swarm is null'') w
      | Some sr \<Rightarrow>
          pok (mcall (MEmitDownload sr n) (upd_mswarm sr (\<lambda>s. s\<lparr>sw_downloaded := sw_downloaded s + n\<rparr>) w)))"
| "run_mhandler rp dr (HUpload pr) (EvUpload n) w =
     (case p_swarm (mpeers w pr) of
        None \<Rightarrow> pthrow (TypeError ''self.swarm is null'') w
      | Some sr \<Rightarrow>
          pok (mcall (MEmitUpload sr n) (upd_mswarm sr (\<lambda>s. s\<lparr>sw_uploaded := sw_uploaded s + n\<rparr>) w)))"
| "run_mhandler rp dr h ev w = pok w"

fun run_mlisteners ::
  "(string \<Rightarrow> 'a mswarm_scheme \<Rightarrow> 'a mswarm_scheme) \<Rightarrow> ('a mswarm_scheme \<Rightarrow> 'a mswarm_scheme) \<Rightarrow>
   ((evkind \<times> bool \<times> mhandler) \<Rightarrow> 'a pworld \<Rightarrow> 'a pworld) \<Rightarrow> event \<Rightarrow>
   (evkind \<times> bool \<times> mhandler) list \<Rightarrow> 'a pworld \<Rightarrow> 'a presult" where
  "run_mlisteners rp dr off ev [] w = pok w"
| "run_mlisteners rp dr off ev (l # ls) w =
     pthen (run_mhandler rp dr (snd (snd l)) ev (if fst (snd l) then off l w else w))
       (run_mlisteners rp dr off ev ls)"

definition mconn_emits ::
  "(string \<Rightarrow> 'a mswarm_scheme \<Rightarrow> 'a mswarm_scheme) \<Rightarrow> ('a mswarm_scheme \<Rightarrow> 'a mswarm_scheme) \<Rightarrow>
   cid \<Rightarrow> event \<Rightarrow> 'a pworld \<Rightarrow> 'a presult" where
  "mconn_emits rp dr c ev w =
     run_mlisteners rp dr
       (\<lambda>l v. v\<lparr>mconn_listeners := (mconn_listeners v)(c := remove1 l (mconn_listeners v c))\<rparr>) ev
       (filter (\<lambda>l. fst l = kind_of ev) (mconn_listeners w c)) w"

definition mwire_emits ::
  "(string \<Rightarrow> 'a mswarm_scheme \<Rightarrow> 'a mswarm_scheme) \<Rightarrow> ('a mswarm_scheme \<Rightarrow> 'a mswarm_scheme) \<Rightarrow>
   wid \<Rightarrow> event \<Rightarrow> 'a pworld \<Rightarrow> 'a presult" where
  "mwire_emits rp dr wd ev w =
     run_mlisteners rp dr
       (\<lambda>l v. v\<lparr>mwire_listeners := (mwire_listeners v)(wd := remove1 l (mwire_listeners v wd))\<rparr>) ev
       (filter (\<lambda>l. fst l = kind_of ev) (mwire_listeners w wd)) w"

definition mtimer_fires ::
  "(string \<Rightarrow> 'a mswarm_scheme \<Rightarrow> 'a mswarm_scheme) \<Rightarrow> ('a mswarm_scheme \<Rightarrow> 'a mswarm_scheme) \<Rightarrow>
   tid \<Rightarrow> 'a pworld \<Rightarrow> 'a presult" where
  "mtimer_fires rp dr t w =
     (case map_of (mtimers w) t of
        None \<Rightarrow> pok w
      | Some (delay, pr) \<Rightarrow> Peer_destroy rp dr pr (w\<lparr>mtimers := filter (\<lambda>e. fst e \<noteq> t) (mtimers w)\<rparr>))"

text \<open>\<^verbatim>\<open>p.destroy()\<close> called \<open>n\<close> times in a row, each call from a caller of its own:
  the state after the last call.\<close>

fun destroy_times ::
  "(string \<Rightarrow> 'a mswarm_scheme \<Rightarrow> 'a mswarm_scheme) \<Rightarrow> ('a mswarm_scheme \<Rightarrow> 'a mswarm_scheme) \<Rightarrow>
   pref \<Rightarrow> nat \<Rightarrow> 'a pworld \<Rightarrow> 'a pworld" where
  "destroy_times rp dr pr 0 w = w"
| "destroy_times rp dr pr (Suc n) w = destroy_times rp dr pr n (snd (Peer_destroy rp dr pr w))"

text \<open>The state in which the module has created nothing yet, around one socket
  \<open>0\<close> that a server has accepted and one swarm \<open>0\<close>.\<close>

definition pinit :: "mswarm \<Rightarrow> mconn \<Rightarrow> unit pworld" where
  "pinit s c =
     \<lparr>mpeers = (\<lambda>_. \<lparr>p_id = [], p_addr = None, p_conn = None, p_swarm = None, p_wire = None,
                     p_destroyed = False, p_timeout = None, p_retries = 0, p_sentHandshake = False\<rparr>),
      next_mpeer = 0,
      mswarms = (\<lambda>_. s),
      mconns = (\<lambda>_. c),
      mconn_listeners = (\<lambda>_. []),
      mwire_listeners = (\<lambda>_. []),
      next_mwire = 0,
      mtimers = [],
      next_mtimer = 0,
      meffects = []\<rparr>"

section \<open>Observations on a run\<close>

text \<open>The events the swarms have emitted so far, in order.\<close>

fun emitted_of :: "effect \<Rightarrow> (sref \<times> emitted) option" where
  "emitted_of (Emit sr e) = Some (sr, e)"
| "emitted_of x = None"

definition emits :: "world \<Rightarrow> (sref \<times> emitted) list" where
  "emits w = List.map_filter emitted_of (effects w)"

text \<open>The outbound dials (\<^verbatim>\<open>net.connect\<close>) made so far.\<close>

fun is_dial :: "effect \<Rightarrow> bool" where
  "is_dial (NetConnect c p h) = True"
| "is_dial x = False"

definition dials :: "world \<Rightarrow> nat" where
  "dials w = length (filter is_dial (effects w))"

text \<open>The reconnect timers set so far for the peer \<open>pr\<close>: the calls
  \<^verbatim>\<open>setTimeout(readd, ...)\<close> of the wire's \<^verbatim>\<open>end\<close> listener.\<close>

fun is_reconnect :: "pref \<Rightarrow> effect \<Rightarrow> bool" where
  "is_reconnect pr (SetTimeout t d (ReaddCb sr p)) = (p = pr)"
| "is_reconnect pr x = False"

definition reconnects :: "pref \<Rightarrow> world \<Rightarrow> nat" where
  "reconnects pr w = length (filter (is_reconnect pr) (effects w))"

text \<open>An event that delivers a remote handshake.\<close>

fun handshake_event :: "event \<Rightarrow> bool" where
  "handshake_event (EvHandshake ih) = True"
| "handshake_event ev = False"

text \<open>
  One round of a peer that connects, completes the handshake for info-hash \<open>ih\<close> and
  then loses its wire, until its reconnect timer fires: socket \<open>c\<close> connects, wire \<open>wd\<close>
  gets the handshake and ends, timer \<open>t\<close> fires.
\<close>

definition lost_wire_round :: "string \<Rightarrow> cid \<Rightarrow> wid \<Rightarrow> tid \<Rightarrow> input list" where
  "lost_wire_round ih c wd t =
     [ConnEmits c EvConnect, WireEmits wd (EvHandshake ih), WireEmits wd EvEnd, TimerFires t]"

text \<open>The \<open>i\<close>-th of a series of remote peers connects to the pool \<open>pl\<close> from port
  \<open>4000 + i\<close> and sends its handshake; its wire is the \<open>i\<close>-th wire made.\<close>

definition incoming_peer :: "plref \<Rightarrow> string \<Rightarrow> nat \<Rightarrow> input list" where
  "incoming_peer pl ih i =
     [ServerConnection pl ''9.9.9.9'' (4000 + i), WireEmits i (EvHandshake ih)]"

text \<open>The first \<open>n\<close> of these remote peers, one after the other, and the key under which
  the swarm records the \<open>i\<close>-th of them.\<close>

definition incoming_peers :: "plref \<Rightarrow> string \<Rightarrow> nat \<Rightarrow> input list" where
  "incoming_peers pl ih n = concat (map (incoming_peer pl ih) [0..<n])"

definition incoming_key :: "nat \<Rightarrow> string" where
  "incoming_key i = ''9.9.9.9:'' @ show_nat (4000 + i)"

text \<open>
  What holds after \<open>n\<close> such peers have been adopted by swarm 0 of pool 0 (and no other
  socket, peer or wire has been made): the \<open>i\<close>-th peer is recorded under its key and has
  a socket; nothing is queued and the swarm is not destroyed.
\<close>

definition incoming_inv :: "nat \<Rightarrow> world \<Rightarrow> bool" where
  "incoming_inv n w =
     (next_conn w = n \<and> next_peer w = n \<and> next_wire w = n \<and>
      infoHash (swarm_objs w 0) = ''aa'' \<and> map_of (swarms (pool_objs w 0)) ''aa'' = Some 0 \<and>
      peers (swarm_objs w 0) = map (\<lambda>i. (incoming_key i, i)) [0..<n] \<and>
      list_all (\<lambda>i. conn (peer_objs w i) \<noteq> None) [0..<n] \<and>
      queue (swarm_objs w 0) = [] \<and> \<not> destroyed (swarm_objs w 0))"

subsection \<open>Relations between the state before and after a piece of code\<close>

text \<open>
  \<open>silent w w'\<close>: from \<open>w\<close> to \<open>w'\<close> no retry counter has changed, except that of a
  peer created in between (which starts at 0), and no reconnect timer has been set.
\<close>

definition silent :: "world \<Rightarrow> world \<Rightarrow> bool" where
  "silent w w' =
     (next_peer w \<le> next_peer w' \<and>
      (\<forall>p. retries (peer_objs w' p) = retries (peer_objs w p) \<or>
           (next_peer w \<le> p \<and> retries (peer_objs w' p) = 0)) \<and>
      (\<forall>pr. reconnects pr w' = reconnects pr w))"

text \<open>
  \<open>tracks pr w w'\<close>: for a peer \<open>pr\<close> that exists in \<open>w\<close>, its retry counter has grown
  from \<open>w\<close> to \<open>w'\<close> by the number of reconnect timers set for it in between.
\<close>

definition tracks :: "pref \<Rightarrow> world \<Rightarrow> world \<Rightarrow> bool" where
  "tracks pr w w' =
     (next_peer w \<le> next_peer w' \<and>
      (pr < next_peer w \<longrightarrow>
         reconnects pr w' + retries (peer_objs w pr) = reconnects pr w + retries (peer_objs w' pr)))"

text \<open>\<open>keeps_bound w w'\<close>: if no retry counter exceeds the length of \<open>RECONNECT_WAIT\<close>
  in \<open>w\<close>, none does in \<open>w'\<close>.\<close>

definition keeps_bound :: "world \<Rightarrow> world \<Rightarrow> bool" where
  "keeps_bound w w' =
     ((\<forall>p. retries (peer_objs w p) \<le> length RECONNECT_WAIT) \<longrightarrow>
      (\<forall>p. retries (peer_objs w' p) \<le> length RECONNECT_WAIT))"

definition good :: "pref \<Rightarrow> world \<Rightarrow> world \<Rightarrow> bool" where
  "good pr w w' = (tracks pr w w' \<and> keeps_bound w w')"

text \<open>
  \<open>stable w w'\<close>: from \<open>w\<close> to \<open>w'\<close> no swarm has changed its info-hash and no pool its
  table of swarms.
\<close>

definition stable :: "world \<Rightarrow> world \<Rightarrow> bool" where
  "stable w w' =
     ((\<forall>sr. infoHash (swarm_objs w' sr) = infoHash (swarm_objs w sr)) \<and>
      (\<forall>pl. swarms (pool_objs w' pl) = swarms (pool_objs w pl)))"

text \<open>
  A handshake listener that, given a handshake for info-hash \<open>ih\<close> in the state \<open>w\<close>, goes on
  to \<^verbatim>\<open>_onwire\<close> for the peer \<open>pr\<close>: the \<^verbatim>\<open>onhandshake\<close> of a dial of \<open>pr\<close> when \<open>ih\<close> is
  the info-hash of its swarm, or the pool's listener for \<open>pr\<close> when the pool has a swarm
  for \<open>ih\<close> (which then adopts the peer).
\<close>

fun accepts_handshake :: "pref \<Rightarrow> string \<Rightarrow> world \<Rightarrow> handler \<Rightarrow> bool" where
  "accepts_handshake pr ih w (DrainHandshake sr p t) = (p = pr \<and> ih = infoHash (swarm_objs w sr))"
| "accepts_handshake pr ih w (PoolHandshake pl c p t) = (p = pr \<and> map_of (swarms (pool_objs w pl)) ih \<noteq> None)"
| "accepts_handshake pr ih w h = False"

text \<open>
  An input that completes a handshake of the peer \<open>pr\<close>: a handshake event on a wire (or
  socket) that carries, for the event \<^verbatim>\<open>handshake\<close>, a listener that accepts it for \<open>pr\<close>.
  A handshake on the wire of another peer, and one with an info-hash that the listener
  refuses, are not of this kind.
\<close>

fun completes_handshake :: "pref \<Rightarrow> input \<Rightarrow> world \<Rightarrow> bool" where
  "completes_handshake pr (WireEmits wd (EvHandshake ih)) w =
     list_ex (\<lambda>l. fst l = KHandshake \<and> accepts_handshake pr ih w (snd (snd l)))
       (wire_listeners (wire_objs w wd))"
| "completes_handshake pr (ConnEmits c (EvHandshake ih)) w =
     list_ex (\<lambda>l. fst l = KHandshake \<and> accepts_handshake pr ih w (snd (snd l)))
       (conn_listeners (conn_objs w c))"
| "completes_handshake pr i w = False"

text \<open>A run, started in \<open>w\<close>, none of whose inputs completes a handshake of \<open>pr\<close>.\<close>

fun no_handshake_of :: "pref \<Rightarrow> input list \<Rightarrow> world \<Rightarrow> bool" where
  "no_handshake_of pr [] w = True"
| "no_handshake_of pr (i # ins) w =
     (\<not> completes_handshake pr i w \<and> no_handshake_of pr ins (snd (step i w)))"

text \<open>
  The listeners of a wire's \<^verbatim>\<open>end\<close> event that every peer with a wire gets: the one of
  \<^verbatim>\<open>Peer.prototype.onconnect\<close> and the \<^verbatim>\<open>cleanup\<close> of \<^verbatim>\<open>_onwire\<close>.
\<close>

fun own_end_listener :: "handler \<Rightarrow> bool" where
  "own_end_listener (PeerWireEnd p) = True"
| "own_end_listener (OnwireCleanup sr wd co cl) = True"
| "own_end_listener h = False"

section \<open>The constants and the address check as the specification words them\<close>

definition HANDSHAKE_TIMEOUT_OUT :: nat where
  "HANDSHAKE_TIMEOUT_OUT = 25000"

definition HANDSHAKE_TIMEOUT_IN :: nat where
  "HANDSHAKE_TIMEOUT_IN = 5000"

definition MAX_CONNS :: nat where
  "MAX_CONNS = 100"

text \<open>
  The specification's address check: the port text (the same piece of the address) is
  parsed as a decimal integer \<open>p\<close> (a non-empty run of decimal digits), and the address
  is accepted iff \<open>0 < p < 65535\<close>.
\<close>

definition spec_validAddr :: "string \<Rightarrow> bool" where
  "spec_validAddr a =
     (case js_index (js_split CHR '':'' a) 1 of
        None \<Rightarrow> False
      | Some p \<Rightarrow>
          p \<noteq> [] \<and> list_all is_digit p \<and>
          (case digits_val 10 0 p of None \<Rightarrow> False | Some n \<Rightarrow> 0 < n \<and> n < 65535))"

section \<open>Evaluation\<close>

subsection \<open>Rounding to a double\<close>

lemma bit_length_0 [simp]: "bit_length 0 = 0"
  by (simp add: bit_length.simps)

lemma bit_length_pos: "0 < n \<Longrightarrow> bit_length n = Suc (bit_length (n div 2))"
  by (subst bit_length.simps) simp

lemma bit_length_bounds: "0 < n \<Longrightarrow> 2 ^ (bit_length n - 1) \<le> n \<and> n < 2 ^ bit_length n"
proof (induction n rule: bit_length.induct)
  case (1 n)
  show ?case
  proof (cases "n div 2 = 0")
    case True
    with 1(2) have "n = 1" by (auto simp: div_eq_0_iff)
    then show ?thesis by (simp add: bit_length_pos)
  next
    case False
    then have p: "0 < n div 2" by simp
    from 1(1) 1(2) p have ih: "2 ^ (bit_length (n div 2) - 1) \<le> n div 2 \<and> n div 2 < 2 ^ bit_length (n div 2)"
      by simp
    have bl: "bit_length n = Suc (bit_length (n div 2))" using 1(2) by (rule bit_length_pos)
    have pos: "0 < bit_length (n div 2)" using p by (simp add: bit_length_pos)
    then obtain k where k: "bit_length (n div 2) = Suc k" by (cases "bit_length (n div 2)") auto
    from ih k have "2 ^ k \<le> n div 2" "n div 2 < 2 ^ Suc k" by simp_all
    then have "2 * 2 ^ k \<le> n" "n < 2 * 2 ^ Suc k" by linarith+
    then show ?thesis by (simp add: bl k)
  qed
qed

lemma bit_length_unique:
  assumes "2 ^ k \<le> n" "n < 2 ^ Suc k"
  shows "bit_length n = Suc k"
proof -
  have pos: "0 < n" using assms(1) by (metis less_le_trans zero_less_numeral zero_less_power)
  from bit_length_bounds[OF pos] have a: "2 ^ (bit_length n - 1) \<le> n" and b: "n < 2 ^ bit_length n" by simp_all
  have "(2::nat) ^ k < 2 ^ bit_length n" using assms(1) b by linarith
  then have 1: "k < bit_length n" by (rule power_less_imp_less_exp[rotated]) simp
  have "(2::nat) ^ (bit_length n - 1) < 2 ^ Suc k" using assms(2) a by linarith
  then have 2: "bit_length n - 1 < Suc k" by (rule power_less_imp_less_exp[rotated]) simp
  from 1 2 show ?thesis by linarith
qed

lemma bit_length_shift: "0 < m \<Longrightarrow> bit_length (m * 2 ^ i) = bit_length m + i"
proof -
  assume pos: "0 < m"
  from bit_length_bounds[OF pos] have a: "2 ^ (bit_length m - 1) \<le> m" and b: "m < 2 ^ bit_length m" by simp_all
  have p: "0 < bit_length m" using pos by (simp add: bit_length_pos)
  then obtain k where k: "bit_length m = Suc k" by (cases "bit_length m") auto
  have "2 ^ (k + i) \<le> m * 2 ^ i" using a k by (simp add: power_add)
  moreover have "m * 2 ^ i < 2 ^ Suc (k + i)" using b k by (simp add: power_add)
  ultimately have "bit_length (m * 2 ^ i) = Suc (k + i)" by (rule bit_length_unique)
  then show ?thesis by (simp add: k)
qed

lemma bit_length_le: "n < 2 ^ k \<Longrightarrow> bit_length n \<le> k"
proof (cases "n = 0")
  case True then show ?thesis by simp
next
  case False
  assume lt: "n < 2 ^ k"
  from False have pos: "0 < n" by simp
  from bit_length_bounds[OF pos] have "2 ^ (bit_length n - 1) \<le> n" by simp
  with lt have "(2::nat) ^ (bit_length n - 1) < 2 ^ k" by linarith
  then have "bit_length n - 1 < k" by (rule power_less_imp_less_exp[rotated]) simp
  then show ?thesis by linarith
qed

lemma round_half_even_int [simp]: "round_half_even (of_int z) = z"
  by (simp add: round_half_even_def)

lemma round_half_even_0 [simp]: "round_half_even 0 = 0"
  by (simp add: round_half_even_def)

lemma round_half_even_ge: "of_int k \<le> x \<Longrightarrow> k \<le> round_half_even x"
proof -
  assume "of_int k \<le> x"
  then have "k \<le> \<lfloor>x\<rfloor>" by (simp add: le_floor_iff)
  then show ?thesis by (simp add: round_half_even_def Let_def)
qed

lemma round_half_even_near:
  assumes "\<bar>x - of_int z\<bar> < 1 / 2"
  shows "round_half_even x = z"
proof (cases "of_int z \<le> x")
  case True
  with assms have f: "\<lfloor>x\<rfloor> = z" by (simp add: floor_eq_iff abs_less_iff)
  with assms True show ?thesis by (simp add: round_half_even_def abs_less_iff)
next
  case False
  with assms have f: "\<lfloor>x\<rfloor> = z - 1" by (simp add: floor_eq_iff abs_less_iff)
  with assms False show ?thesis by (simp add: round_half_even_def abs_less_iff)
qed

lemma double_of_nonneg_exact:
  assumes "m < 2 ^ significand_bits" "m * 2 ^ i < 2 ^ (overflow_exponent + min_value_exponent)"
    and "q * 2 ^ min_value_exponent = of_nat (m * 2 ^ i)"
  shows "double_of_nonneg q = Fin q"
proof (cases "m = 0")
  case True
  with assms(3) have "q = 0" by simp
  then show ?thesis by (simp add: double_of_nonneg_def)
next
  case False
  then have pos: "0 < m" by simp
  define s where "s = q * 2 ^ min_value_exponent"
  define j where "j = bit_length (nat \<lfloor>s\<rfloor>) - significand_bits"
  have s: "s = of_nat (m * 2 ^ i)" by (simp only: s_def assms(3))
  have fl: "nat \<lfloor>s\<rfloor> = m * 2 ^ i" by (simp only: s floor_of_nat nat_int)
  have bl: "bit_length (nat \<lfloor>s\<rfloor>) = bit_length m + i" by (simp only: fl bit_length_shift[OF pos])
  have "bit_length m \<le> significand_bits" using assms(1) by (rule bit_length_le)
  then have ji: "j \<le> i" by (simp add: j_def bl)
  then obtain d where d: "i = j + d" using le_Suc_ex by blast
  have "s / 2 ^ j = of_nat (m * 2 ^ d)"
    by (simp add: s d power_add)
  then have "s / 2 ^ j = of_int (int (m * 2 ^ d))" by simp
  then have r: "round_half_even (s / 2 ^ j) = int (m * 2 ^ d)" by (simp only: round_half_even_int)
  have n: "round_half_even (s / 2 ^ j) * 2 ^ j = int (m * 2 ^ i)"
    by (simp add: r d power_add)
  have lt: "\<not> (2::int) ^ (overflow_exponent + min_value_exponent) \<le> int (m * 2 ^ i)"
  proof -
    have "int (m * 2 ^ i) < int (2 ^ (overflow_exponent + min_value_exponent))"
      using assms(2) by (simp only: of_nat_less_iff)
    then show ?thesis by simp
  qed
  have v: "(of_int (int (m * 2 ^ i)) :: rat) / 2 ^ min_value_exponent = q"
    using assms(3) by (simp add: field_simps)
  show ?thesis
    unfolding double_of_nonneg_def Let_def s_def[symmetric] j_def[symmetric] n using lt v by simp
qed

lemma number_value_nat: "n < 2 ^ significand_bits \<Longrightarrow> number_value (of_nat n) = Fin (of_nat n)"
proof -
  assume a: "n < 2 ^ significand_bits"
  have "(2::nat) ^ significand_bits \<le> 2 ^ overflow_exponent"
    by (rule power_increasing) (simp_all add: significand_bits_def overflow_exponent_def)
  with a have "n < 2 ^ overflow_exponent" by linarith
  then have b: "n * 2 ^ min_value_exponent < 2 ^ (overflow_exponent + min_value_exponent)"
    by (simp add: power_add)
  have "double_of_nonneg (of_nat n) = Fin (of_nat n)"
    by (rule double_of_nonneg_exact[OF a b]) simp
  then show ?thesis by (simp add: number_value_def)
qed

lemma double_of_nonneg_large:
  assumes "2 ^ significand_bits \<le> q"
  shows "\<not> js_lt (double_of_nonneg q) (2 ^ significand_bits)"
proof -
  define s where "s = q * 2 ^ min_value_exponent"
  define b where "b = bit_length (nat \<lfloor>s\<rfloor>)"
  define j where "j = b - significand_bits"
  define e where "e = significand_bits + min_value_exponent"
  have s: "2 ^ e \<le> s"
    using assms by (simp add: s_def e_def power_add)
  then have "(2::int) ^ e \<le> \<lfloor>s\<rfloor>" by (simp add: le_floor_iff)
  then have f: "(2::nat) ^ e \<le> nat \<lfloor>s\<rfloor>" by (simp add: le_nat_iff)
  then have pos: "0 < nat \<lfloor>s\<rfloor>" by (metis less_le_trans zero_less_numeral zero_less_power)
  from bit_length_bounds[OF pos] have lo: "2 ^ (b - 1) \<le> nat \<lfloor>s\<rfloor>" and hi: "nat \<lfloor>s\<rfloor> < 2 ^ b"
    by (simp_all add: b_def)
  have "(2::nat) ^ e < 2 ^ b" using f hi by linarith
  then have b: "e < b" by (rule power_less_imp_less_exp[rotated]) simp
  have sb: "0 < significand_bits" by (simp add: significand_bits_def)
  have bj: "b - 1 = (significand_bits - 1) + j" using b sb by (simp add: j_def e_def)
  have j: "Suc min_value_exponent \<le> j" using b by (simp add: j_def e_def)
  have "of_nat (2 ^ (b - 1)) \<le> (of_nat (nat \<lfloor>s\<rfloor>) :: rat)" using lo by (simp only: of_nat_le_iff)
  also have "\<dots> \<le> s" using pos by (simp add: of_nat_nat)
  finally have "(2::rat) ^ (b - 1) \<le> s" by simp
  then have "(2::rat) ^ ((significand_bits - 1) + j) \<le> s" by (simp only: bj)
  then have "(2::rat) ^ (significand_bits - 1) \<le> s / 2 ^ j" by (simp add: power_add field_simps)
  then have "of_int (2 ^ (significand_bits - 1)) \<le> s / 2 ^ j" by simp
  then have r: "2 ^ (significand_bits - 1) \<le> round_half_even (s / 2 ^ j)" by (rule round_half_even_ge)
  define n where "n = round_half_even (s / 2 ^ j) * 2 ^ j"
  have "(2::int) ^ (significand_bits - 1) * 2 ^ Suc min_value_exponent \<le> 2 ^ (significand_bits - 1) * 2 ^ j"
    using j by (simp add: power_increasing del: power_Suc)
  also have "\<dots> \<le> n" using r by (simp add: n_def mult_right_mono)
  finally have "(2::int) ^ ((significand_bits - 1) + Suc min_value_exponent) \<le> n" by (simp only: power_add)
  moreover have "(significand_bits - 1) + Suc min_value_exponent = e" using sb by (simp add: e_def)
  ultimately have "(2::int) ^ e \<le> n" by (simp only:)
  then have "(of_int (2 ^ e) :: rat) \<le> of_int n" by (simp only: of_int_le_iff)
  then have "(2::rat) ^ significand_bits * 2 ^ min_value_exponent \<le> of_int n" by (simp add: e_def power_add)
  then have n: "(2::rat) ^ significand_bits \<le> of_int n / 2 ^ min_value_exponent" by (simp add: field_simps)
  show ?thesis
    unfolding double_of_nonneg_def Let_def s_def[symmetric] b_def[symmetric] j_def[symmetric] n_def[symmetric]
    using n by (simp add: js_lt_def)
qed

lemma number_value_large: "2 ^ significand_bits \<le> q \<Longrightarrow> \<not> js_lt (number_value q) (2 ^ significand_bits)"
proof -
  assume a: "2 ^ significand_bits \<le> q"
  have "(0::rat) < 2 ^ significand_bits" by simp
  with a have "\<not> q < 0" by linarith
  then show ?thesis using double_of_nonneg_large[OF a] by (simp add: number_value_def)
qed

lemma number_value_numeral:
  "numeral k < (9007199254740992::nat) \<Longrightarrow> number_value (numeral k) = Fin (numeral k)"
  using number_value_nat[of "numeral k"] by (simp add: significand_bits_def)

lemma number_value_0: "number_value 0 = Fin 0"
  using number_value_nat[of 0] by simp

lemma number_value_1: "number_value 1 = Fin 1"
  using number_value_nat[of 1] by (simp add: significand_bits_def)

lemma double_of_nonneg_tiny:
  assumes "0 \<le> q" "q * 2 ^ Suc min_value_exponent \<le> 1"
  shows "double_of_nonneg q = Fin 0"
proof -
  define s where "s = q * 2 ^ min_value_exponent"
  have "s * 2 = q * 2 ^ Suc min_value_exponent" by (simp add: s_def)
  then have h: "s \<le> 1 / 2" using assms(2) by simp
  have z: "0 \<le> s" using assms(1) by (simp add: s_def)
  have f: "\<lfloor>s\<rfloor> = 0" using h z by (simp add: floor_eq_iff)
  have "round_half_even s = 0" using h by (simp add: round_half_even_def f)
  then show ?thesis
    unfolding double_of_nonneg_def s_def[symmetric] by (simp add: f)
qed

lemma double_of_nonneg_near:
  assumes "2 ^ (significand_bits - 1) < m" "m < 2 ^ significand_bits" "k \<le> min_value_exponent"
    and "\<bar>q * 2 ^ k - of_nat m\<bar> < 1 / 2"
  shows "double_of_nonneg q = Fin (of_nat m / 2 ^ k)"
proof -
  define i where "i = min_value_exponent - k"
  define s where "s = q * 2 ^ min_value_exponent"
  have mk: "min_value_exponent = k + i" using assms(3) by (simp add: i_def)
  have sq: "s = q * 2 ^ k * 2 ^ i" by (simp add: s_def mk power_add)
  have "\<bar>s - of_nat m * 2 ^ i\<bar> = \<bar>q * 2 ^ k - of_nat m\<bar> * 2 ^ i"
    by (simp add: sq abs_mult left_diff_distrib[symmetric])
  also have "\<dots> < 1 / 2 * 2 ^ i" using assms(4) by (simp add: mult_strict_right_mono)
  finally have near: "\<bar>s - of_nat m * 2 ^ i\<bar> < 2 ^ i / 2" by simp
  from near have n1: "of_nat m * 2 ^ i - 2 ^ i / 2 < s" and n2: "s < of_nat m * 2 ^ i + 2 ^ i / 2"
    by linarith+
  have half: "(2::rat) ^ i / 2 \<le> 2 ^ i" by simp
  have sb: "0 < significand_bits" by (simp add: significand_bits_def)
  have m_lo: "2 ^ (significand_bits - 1) + 1 \<le> m" using assms(1) by simp
  have m_hi: "m + 1 \<le> 2 ^ significand_bits" using assms(2) by simp
  have lo: "(2::rat) ^ (significand_bits - 1 + i) \<le> s"
  proof -
    have "(2::rat) ^ (significand_bits - 1 + i) + 2 ^ i = of_nat (2 ^ (significand_bits - 1) + 1) * 2 ^ i"
      by (simp add: power_add algebra_simps)
    also have "\<dots> \<le> of_nat m * 2 ^ i" using m_lo by (simp only: mult_le_cancel_right of_nat_le_iff) simp
    finally have "(2::rat) ^ (significand_bits - 1 + i) + 2 ^ i \<le> of_nat m * 2 ^ i" .
    then show ?thesis using n1 half by linarith
  qed
  have hi: "s < 2 ^ (significand_bits + i)"
  proof -
    have "of_nat m * 2 ^ i + 2 ^ i = (of_nat (m + 1) :: rat) * 2 ^ i" by (simp add: algebra_simps)
    also have "\<dots> \<le> of_nat (2 ^ significand_bits) * 2 ^ i"
      using m_hi by (simp only: mult_le_cancel_right of_nat_le_iff) simp
    finally have "of_nat m * 2 ^ i + 2 ^ i \<le> (2::rat) ^ (significand_bits + i)" by (simp add: power_add)
    then show ?thesis using n2 half by linarith
  qed
  have "(2::int) ^ (significand_bits - 1 + i) \<le> \<lfloor>s\<rfloor>" using lo by (simp add: le_floor_iff)
  then have f1: "(2::nat) ^ (significand_bits - 1 + i) \<le> nat \<lfloor>s\<rfloor>" by (simp add: le_nat_iff)
  have "\<lfloor>s\<rfloor> < 2 ^ (significand_bits + i)" using hi by (simp add: floor_less_iff)
  then have f2: "nat \<lfloor>s\<rfloor> < 2 ^ Suc (significand_bits - 1 + i)" using sb by (simp add: nat_less_iff)
  have bl: "bit_length (nat \<lfloor>s\<rfloor>) = Suc (significand_bits - 1 + i)" using f1 f2 by (rule bit_length_unique)
  then have j: "bit_length (nat \<lfloor>s\<rfloor>) - significand_bits = i" using sb by simp
  have "\<bar>s / 2 ^ i - of_int (int m)\<bar> < 1 / 2"
    using assms(4) by (simp add: sq)
  then have r: "round_half_even (s / 2 ^ i) = int m" by (rule round_half_even_near)
  have "m * 2 ^ i < 2 ^ significand_bits * 2 ^ i"
    using assms(2) by simp
  also have "\<dots> \<le> 2 ^ significand_bits * 2 ^ min_value_exponent"
    by (intro mult_left_mono power_increasing) (simp_all add: mk)
  also have "\<dots> \<le> (2::nat) ^ (overflow_exponent + min_value_exponent)"
    by (simp only: power_add[symmetric]) (rule power_increasing, simp_all add: significand_bits_def overflow_exponent_def)
  finally have "int (m * 2 ^ i) < int (2 ^ (overflow_exponent + min_value_exponent))"
    by (simp only: of_nat_less_iff)
  then have lt: "\<not> (2::int) ^ (overflow_exponent + min_value_exponent) \<le> int m * 2 ^ i" by simp
  have v: "(of_int (int m * 2 ^ i) :: rat) / 2 ^ min_value_exponent = of_nat m / 2 ^ k"
    by (simp add: mk power_add)
  show ?thesis
    unfolding double_of_nonneg_def Let_def s_def[symmetric] j r using lt v by simp
qed

subsection \<open>Unfolding\<close>

lemmas prim_defs = ok_def throw_def and_then_def upd_swarm_def upd_peer_def upd_conn_def upd_wire_def
  upd_pool_def call_def setTimeout_def clearTimeout_def nextTick_def emit_def conn_destroy_def
  wire_end_def wire_destroy_def conn_on_def wire_on_def new_once_def Peer_def node_def new_Peer_def
  new_Wire_def new_Swarm_def new_Pool_def

lemmas op_defs = Peer_onconnect_def Pool_destroy_def Pool_addSwarm_def Pool_removeSwarm_def Pool_add_def
  Pool_remove_def numConns_def Swarm__remove_def Swarm__drain_def Swarm_add_def Swarm_pause_def
  Swarm_resume_def Swarm_remove_def listen_onPort_def Swarm_listen_def Swarm_destroy_def
  Swarm__onconn_def Swarm__onwire_def Swarm__onincoming_def peer_conn_destroy_def drain_onhandshake_def
  drain_wire_onend_def readd_def drain_onconnect_def onwire_cleanup_def pool_conn_onclose_def
  pool_onhandshake_def conn_off_def wire_off_def conn_emits_def wire_emits_def Pool__onlistening_def
  Pool__onconn_def Pool__onerror_def retry_listen_def timer_fires_def tick_def init_def
  MAX_SIZE_def HANDSHAKE_TIMEOUT_def RECONNECT_WAIT_def

lemmas pprim_defs = pok_def pthrow_def pthen_def upd_mpeer_def upd_mswarm_def mcall_def
  mclearTimeout_def mconn_once_def mwire_listen_def new_mPeer_def js_indexOf_nullable_def

lemmas pop_defs = Peer_destroy_def Peer_setTimeout_def Peer_clearTimeout_def Peer_handshake_def
  Peer_onConnect_def Peer_onHandshake_def createOutgoingTCPPeer_def createIncomingTCPPeer_def
  createWebRTCPeer_def mconn_emits_def mwire_emits_def mtimer_fires_def pinit_def
  Peer_HANDSHAKE_TIMEOUT_def

lemmas num_defs = validAddr_def js_Number_def js_trim_def is_ws_def unsigned_literal_def
  unsigned_decimal_def radix_literal_def digit_val_def is_digit_def exponent_part_def
  scale10_def js_gt_def js_lt_def js_neg_def
  number_value_numeral number_value_0 number_value_1

lemma validAddr_examples:
  "validAddr ''1.2.3.4:6881'' \<and> \<not> validAddr ''1.2.3.4:65535'' \<and> \<not> validAddr ''1.2.3.4''
   \<and> validAddr ''1.2.3.4:0x50'' \<and> validAddr ''h:1e3'' \<and> validAddr ''h: 80 '' \<and> validAddr ''h:80:90''
   \<and> \<not> validAddr ''h:80abc'' \<and> \<not> validAddr ''h:0'' \<and> \<not> validAddr ''h:-5''
   \<and> \<not> validAddr ''h:Infinity'' \<and> \<not> validAddr ''[::1]:80''"
  by (simp add: num_defs)

text \<open>
  Port texts at which the rounding decides: \<^verbatim>\<open>1e-400\<close> is below every positive double
  and becomes 0; \<^verbatim>\<open>65534.999999999999\<close> is nearer to 65535 than to the double below
  it and becomes 65535; 80.5 is a double.
\<close>

lemma port_text_examples:
  "js_Number (Some ''1e-400'') = number_value (1 / 10 ^ 400) \<and>
   js_Number (Some ''65534.999999999999'') = number_value (65534999999999999 / 10 ^ 12) \<and>
   js_Number (Some ''80.5'') = number_value (805 / 10 ^ 1)"
  by (simp add: js_Number_def js_trim_def is_ws_def unsigned_literal_def
      unsigned_decimal_def digit_val_def is_digit_def exponent_part_def scale10_def del: power_numeral)

lemma number_value_tiny: "number_value (1 / 10 ^ 400) = Fin 0"
proof -
  have "double_of_nonneg (1 / 10 ^ 400) = Fin 0"
    by (rule double_of_nonneg_tiny) (simp_all add: min_value_exponent_def)
  then show ?thesis by (simp add: number_value_def)
qed

lemma number_value_rounds_up: "number_value (65534999999999999 / 10 ^ 12) = Fin 65535"
proof -
  have "double_of_nonneg (65534999999999999 / 10 ^ 12) = Fin (of_nat 9007061815787520 / 2 ^ 37)"
    by (rule double_of_nonneg_near) (simp_all add: significand_bits_def min_value_exponent_def)
  then show ?thesis by (simp add: number_value_def)
qed

lemma number_value_half: "number_value (805 / 10 ^ 1) = Fin (161 / 2)"
proof -
  have "double_of_nonneg (161 / 2) = Fin (161 / 2)"
    by (rule double_of_nonneg_exact[where m = 161 and i = 1073])
       (simp_all add: significand_bits_def min_value_exponent_def overflow_exponent_def)
  then show ?thesis by (simp add: number_value_def)
qed

lemma validAddr_rounding:
  "\<not> validAddr ''h:1e-400'' \<and> \<not> validAddr ''h:65534.999999999999'' \<and> validAddr ''h:80.5''"
proof -
  have s: "js_index (js_split CHR '':'' ''h:1e-400'') 1 = Some ''1e-400''"
    "js_index (js_split CHR '':'' ''h:65534.999999999999'') 1 = Some ''65534.999999999999''"
    "js_index (js_split CHR '':'' ''h:80.5'') 1 = Some ''80.5''"
    by simp_all
  show ?thesis
    unfolding validAddr_def Let_def s
    by (simp only: port_text_examples number_value_tiny number_value_rounds_up number_value_half)
       (simp add: js_gt_def js_lt_def)
qed

section \<open>Pool: duplicate swarms and listen errors\<close>

text \<open>
  C6. A pool on port 6881 is listening and holds swarm 0 under info-hash \<open>aa\<close>. Swarm 1,
  with the same info-hash, listens on the same port: \<^verbatim>\<open>addSwarm\<close> leaves the pool's
  \<open>swarms\<close> as they were and the rejected swarm gets its \<^verbatim>\<open>error\<close> event, but before
  it the rejected swarm is also sent \<^verbatim>\<open>listening\<close>: the tick guarded by
  \<^verbatim>\<open>this.listening\<close> is queued before the duplicate check returns.
\<close>

theorem addSwarm_duplicate_still_emits_listening:
  "(let r = run [NewSwarm ''aa'', NewSwarm ''aa'', Listen 0 (Some 6881), ServerListening 0,
                 Listen 1 (Some 6881), Tick, Tick] init
    in fst r = None \<and> swarms (pool_objs (snd r) 0) = [(''aa'', 0)] \<and>
       effects (snd r) =
         [ServerListen 0 6881, Emit 0 (Listening (Some 6881)),
          Emit 1 (Listening None), Emit 1 (Error (DuplicateSwarm ''aa'' 6881))])"
  by (simp add: prim_defs op_defs Let_def)

text \<open>
  C7. A pool with one member swarm gets a bind error. When the error is not
  \<^verbatim>\<open>EADDRINUSE\<close>, and also when it is \<^verbatim>\<open>EADDRINUSE\<close> for the sixth time (five retries
  of one second each have been made), \<^verbatim>\<open>_onerror\<close> sets \<open>listening\<close> to false and then
  raises a TypeError at \<^verbatim>\<open>this.swarms.forEach\<close>: no \<^verbatim>\<open>error\<close> event reaches the
  member swarm, neither at once nor on a later tick.
\<close>

theorem onerror_raises_before_notifying_swarms:
  "(let r = run [NewSwarm ''aa'', Listen 0 (Some 6881), ServerListening 0,
                 ServerError 0 ''EACCES'' ''permission denied''] init
    in fst r = Some (TypeError ''this.swarms.forEach is not a function'') \<and>
       swarms (pool_objs (snd r) 0) = [(''aa'', 0)] \<and> \<not> listening (pool_objs (snd r) 0) \<and>
       ticks (snd r) = [] \<and>
       effects (snd r) = [ServerListen 0 6881, Emit 0 (Listening (Some 6881))])
   \<and>
   (let r = run [NewSwarm ''aa'', Listen 0 (Some 6881),
                 ServerError 0 ''EADDRINUSE'' ''in use'', TimerFires 0,
                 ServerError 0 ''EADDRINUSE'' ''in use'', TimerFires 1,
                 ServerError 0 ''EADDRINUSE'' ''in use'', TimerFires 2,
                 ServerError 0 ''EADDRINUSE'' ''in use'', TimerFires 3,
                 ServerError 0 ''EADDRINUSE'' ''in use'', TimerFires 4,
                 ServerError 0 ''EADDRINUSE'' ''in use''] init
    in fst r = Some (TypeError ''this.swarms.forEach is not a function'') \<and>
       pool_retries (pool_objs (snd r) 0) = 5 \<and>
       swarms (pool_objs (snd r) 0) = [(''aa'', 0)] \<and> \<not> listening (pool_objs (snd r) 0) \<and>
       ticks (snd r) = [] \<and>
       filter (\<lambda>e. case e of Emit s x \<Rightarrow> True | _ \<Rightarrow> False) (effects (snd r)) = [])"
  by (simp add: prim_defs op_defs Let_def)

section \<open>Swarm: removing a queued peer\<close>

lemma Swarm__remove_queue:
  "queue (swarm_objs (Swarm__remove sr a w) sr') = queue (swarm_objs w sr')"
  by (simp add: Swarm__remove_def prim_defs Let_def split: option.splits)

text \<open>
  C8. A paused swarm is given the address 1.2.3.4:6881: the new peer is in \<open>peers\<close> and
  sits on \<open>queue\<close>. \<^verbatim>\<open>_remove\<close> of that address deletes the peer from \<open>peers\<close> but
  leaves it on \<open>queue\<close>: the splice is guarded by \<^verbatim>\<open>peer.node\<close>, which no Peer has.
\<close>

theorem remove_leaves_peer_on_queue:
  "(let w = snd (run [NewSwarm ''aa'', Pause 0, Add 0 ''1.2.3.4:6881''] init);
        w' = Swarm__remove 0 ''1.2.3.4:6881'' w
    in map_of (peers (swarm_objs w 0)) ''1.2.3.4:6881'' = Some 0 \<and> queue (swarm_objs w 0) = [0]
       \<and> map_of (peers (swarm_objs w' 0)) ''1.2.3.4:6881'' = None \<and> queue (swarm_objs w' 0) = [0])"
  by (simp add: prim_defs op_defs num_defs Let_def)

section \<open>Peer: destroy\<close>

lemma show_nat_4000: "show_nat 4000 = ''4000''"
  by (simp add: show_nat.simps)

lemma Peer_destroy_sets_flag: "p_destroyed (mpeers (snd (Peer_destroy rp dr pr w)) pr)"
  unfolding Peer_destroy_def Let_def
  by (simp add: pprim_defs split: option.splits)

lemma Peer_destroy_when_destroyed:
  "p_destroyed (mpeers w pr) \<Longrightarrow> Peer_destroy rp dr pr w = (None, w)"
  by (simp add: Peer_destroy_def pok_def)

lemma destroy_times_when_destroyed:
  "p_destroyed (mpeers w pr) \<Longrightarrow> destroy_times rp dr pr n w = w"
  by (induction n) (simp_all add: Peer_destroy_when_destroyed)

text \<open>
  C4. Whatever the swarm's \<^verbatim>\<open>removePeer\<close> and \<^verbatim>\<open>_drain\<close> do to the swarm, and in
  every state: after a call of \<^verbatim>\<open>p.destroy()\<close> the peer's \<open>destroyed\<close> flag is set; a
  further call returns normally and leaves the whole state (the peer, every swarm, the
  timers, the calls made so far) as it is; so \<open>n \<ge> 1\<close> calls leave the state that one
  call leaves.
\<close>

theorem Peer_destroy_idempotent:
  "p_destroyed (mpeers (snd (Peer_destroy rp dr pr w)) pr) \<and>
   Peer_destroy rp dr pr (snd (Peer_destroy rp dr pr w)) = (None, snd (Peer_destroy rp dr pr w)) \<and>
   (1 \<le> n \<longrightarrow> destroy_times rp dr pr n w = snd (Peer_destroy rp dr pr w))"
proof -
  let ?w1 = "snd (Peer_destroy rp dr pr w)"
  have flag: "p_destroyed (mpeers ?w1 pr)"
    by (rule Peer_destroy_sets_flag)
  have again: "Peer_destroy rp dr pr ?w1 = (None, ?w1)"
    using flag by (rule Peer_destroy_when_destroyed)
  have "destroy_times rp dr pr n w = ?w1" if "1 \<le> n"
  proof -
    from that obtain m where "n = Suc m" by (cases n) auto
    then show ?thesis using flag by (simp add: destroy_times_when_destroyed)
  qed
  with flag again show ?thesis by blast
qed

text \<open>Three calls on an outgoing peer of swarm 0, with a \<^verbatim>\<open>removePeer\<close> and a
  \<^verbatim>\<open>_drain\<close> that leave the swarm object alone.\<close>

theorem Peer_destroy_idempotent_witness:
  "(let w = snd (createOutgoingTCPPeer ''1.2.3.4:6881'' 0
                   (pinit \<lparr>sw_wires = [5, 7], sw_destroyed = False, sw_infoHashHex = ''aa'',
                             sw_downloaded = 0, sw_uploaded = 0\<rparr>
                          \<lparr>c_id = [], c_connected = True, c_remoteAddress = Some ''9.9.9.9'',
                             c_remotePort = 4000\<rparr>))
    in (1::nat) \<le> 3 \<and>
       destroy_times (\<lambda>i s. s) (\<lambda>s. s) 0 3 w = snd (Peer_destroy (\<lambda>i s. s) (\<lambda>s. s) 0 w) \<and>
       p_destroyed (mpeers (snd (Peer_destroy (\<lambda>i s. s) (\<lambda>s. s) 0 w)) 0))"
proof -
  let ?w = "snd (createOutgoingTCPPeer ''1.2.3.4:6881'' 0
                   (pinit \<lparr>sw_wires = [5, 7], sw_destroyed = False, sw_infoHashHex = ''aa'',
                             sw_downloaded = 0, sw_uploaded = 0\<rparr>
                          \<lparr>c_id = [], c_connected = True, c_remoteAddress = Some ''9.9.9.9'',
                             c_remotePort = 4000\<rparr>))"
  have "(1::nat) \<le> 3" by simp
  with Peer_destroy_idempotent [of "\<lambda>i s. s" "\<lambda>s. s" 0 ?w 3] show ?thesis
    by (simp add: Let_def)
qed

text \<open>
  C10. A server accepts a socket from 9.9.9.9:4000 and \<^verbatim>\<open>createIncomingTCPPeer\<close> makes
  a peer for it: its \<open>swarm\<close> is null, \<^verbatim>\<open>onConnect\<close> has given it a wire and armed the
  25000 ms timer. \<^verbatim>\<open>destroy()\<close> of this peer raises a TypeError at
  \<^verbatim>\<open>self.swarm.wires\<close> (line 182), after the socket was destroyed and before anything
  else: the wire is not destroyed, the timer stays pending, \<open>conn\<close>, \<open>wire\<close> and
  \<open>timeout\<close> are not reset. The same happens when the timer fires and when the socket
  emits \<^verbatim>\<open>end\<close>, \<^verbatim>\<open>close\<close> or \<^verbatim>\<open>error\<close>. This holds whatever the swarm's
  \<^verbatim>\<open>removePeer\<close> and \<^verbatim>\<open>_drain\<close> are.
\<close>

theorem Peer_destroy_without_swarm_raises:
  "(let c = \<lparr>c_id = [], c_connected = True, c_remoteAddress = Some ''9.9.9.9'', c_remotePort = 4000\<rparr>;
        s = \<lparr>sw_wires = [], sw_destroyed = False, sw_infoHashHex = ''aa'', sw_downloaded = 0,
             sw_uploaded = 0\<rparr>;
        (pr, r0) = createIncomingTCPPeer 0 (pinit s c);
        w = snd r0;
        r = Peer_destroy rp dr pr w
    in fst r0 = None \<and> p_id (mpeers w pr) = ''9.9.9.9:4000'' \<and> p_swarm (mpeers w pr) = None \<and>
       p_conn (mpeers w pr) = Some 0 \<and> mtimers w = [(0, 25000, pr)] \<and>
       fst r = Some (TypeError ''self.swarm is null'') \<and>
       p_wire (mpeers (snd r) pr) = Some 0 \<and> p_timeout (mpeers (snd r) pr) = Some 0 \<and>
       p_conn (mpeers (snd r) pr) = Some 0 \<and> mtimers (snd r) = [(0, 25000, pr)] \<and>
       meffects (snd r) = meffects w @ [MConnDestroy 0] \<and>
       fst (mtimer_fires rp dr 0 w) = Some (TypeError ''self.swarm is null'') \<and>
       fst (mconn_emits rp dr 0 EvEnd w) = Some (TypeError ''self.swarm is null'') \<and>
       fst (mconn_emits rp dr 0 EvClose w) = Some (TypeError ''self.swarm is null'') \<and>
       fst (mconn_emits rp dr 0 EvError w) = Some (TypeError ''self.swarm is null''))"
  unfolding pop_defs Let_def
  by (simp add: pprim_defs show_nat_4000 Peer_destroy_def Let_def)

section \<open>Swarm: destroy and the close event\<close>

lemma Swarm__remove_ticks: "ticks (Swarm__remove sr a w) = ticks w"
  by (simp add: Swarm__remove_def prim_defs Let_def split: option.splits)

lemma Swarm__remove_peers:
  "peers (swarm_objs (Swarm__remove sr a w) sr) = AList.delete a (peers (swarm_objs w sr))"
  by (simp add: Swarm__remove_def prim_defs Let_def delete_notin_dom map_of_eq_None_iff[symmetric]
      split: option.splits)

lemma Swarm__remove_emits: "emits (Swarm__remove sr a w) = emits w"
  by (simp add: Swarm__remove_def prim_defs emits_def Let_def List.map_filter_def split: option.splits)

lemma remove_all_ticks: "ticks (foldl (\<lambda>v a. Swarm__remove sr a v) w ks) = ticks w"
  by (induction ks arbitrary: w) (simp_all add: Swarm__remove_ticks)

lemma remove_all_emits: "emits (foldl (\<lambda>v a. Swarm__remove sr a v) w ks) = emits w"
  by (induction ks arbitrary: w) (simp_all add: Swarm__remove_emits)

lemma remove_all_peers:
  "peers (swarm_objs (foldl (\<lambda>v a. Swarm__remove sr a v) w ks) sr) =
   filter (\<lambda>e. fst e \<notin> set ks) (peers (swarm_objs w sr))"
  by (induction ks arbitrary: w) (auto simp: Swarm__remove_peers AList.delete_eq intro: filter_cong)

lemma Pool_destroy_keeps:
  "ticks (Pool_destroy pl w) = ticks w \<and> swarm_objs (Pool_destroy pl w) = swarm_objs w \<and>
   emits (Pool_destroy pl w) = emits w"
proof -
  have "ticks (foldl (\<lambda>v c. conn_destroy c v) w cs) = ticks w \<and>
        swarm_objs (foldl (\<lambda>v c. conn_destroy c v) w cs) = swarm_objs w \<and>
        pool_objs (foldl (\<lambda>v c. conn_destroy c v) w cs) = pool_objs w \<and>
        emits (foldl (\<lambda>v c. conn_destroy c v) w cs) = emits w" for cs
    by (induction cs arbitrary: w) (simp_all add: prim_defs emits_def List.map_filter_def)
  then show ?thesis
    by (simp add: Pool_destroy_def prim_defs emits_def Let_def List.map_filter_def)
qed

lemma Pool_remove_keeps:
  "ticks (Pool_remove sr w) = ticks w \<and> swarm_objs (Pool_remove sr w) = swarm_objs w \<and>
   emits (Pool_remove sr w) = emits w"
  by (simp add: Pool_remove_def Pool_removeSwarm_def Pool_destroy_keeps
      Pool_destroy_keeps[unfolded emits_def] prim_defs emits_def Let_def split: option.splits)

lemma Swarm_destroy_ticks: "ticks (Swarm_destroy sr w) = ticks w @ [EmitTick sr Close]"
  by (simp add: Swarm_destroy_def Let_def nextTick_def Pool_remove_keeps remove_all_ticks upd_swarm_def)

lemma Swarm_destroy_peers: "peers (swarm_objs (Swarm_destroy sr w) sr) = []"
  by (simp add: Swarm_destroy_def Let_def nextTick_def Pool_remove_keeps remove_all_peers upd_swarm_def)

lemma Swarm_destroy_emits: "emits (Swarm_destroy sr w) = emits w"
  by (simp add: Swarm_destroy_def Let_def nextTick_def Pool_remove_keeps[unfolded emits_def]
      remove_all_emits[unfolded emits_def] upd_swarm_def emits_def)

lemma Swarm_destroy_ticks_n:
  "ticks ((Swarm_destroy sr ^^ n) w) = ticks w @ replicate n (EmitTick sr Close)"
  by (induction n) (simp_all add: Swarm_destroy_ticks replicate_append_same)

lemma tick_emits: "emits (tick (w\<lparr>ticks := EmitTick sr e # rest\<rparr>)) = emits w @ [(sr, e)]"
  by (simp add: tick_def prim_defs emits_def List.map_filter_def)

text \<open>
  C3, as the code has it. Every call of \<^verbatim>\<open>swarm.destroy()\<close> queues one emission of
  \<^verbatim>\<open>close\<close> for the next tick and emits nothing itself; when it returns, \<open>peers\<close> is
  empty; the tick then emits \<^verbatim>\<open>close\<close>. Nothing guards against a repeated call: \<open>n\<close>
  calls queue \<open>n\<close> emissions of \<^verbatim>\<open>close\<close>.
\<close>

theorem Swarm_destroy_queues_close_each_call:
  "ticks (Swarm_destroy sr w) = ticks w @ [EmitTick sr Close] \<and>
   peers (swarm_objs (Swarm_destroy sr w) sr) = [] \<and>
   emits (Swarm_destroy sr w) = emits w \<and>
   emits (tick (w\<lparr>ticks := EmitTick sr Close # rest\<rparr>)) = emits w @ [(sr, Close)] \<and>
   ticks ((Swarm_destroy sr ^^ n) w) = ticks w @ replicate n (EmitTick sr Close)"
  by (simp add: Swarm_destroy_ticks Swarm_destroy_peers Swarm_destroy_emits tick_emits
      Swarm_destroy_ticks_n)

text \<open>C3 as stated fails: a swarm that is destroyed twice emits \<^verbatim>\<open>close\<close> twice.\<close>

theorem close_emitted_twice:
  "(let es = emits (snd (run [NewSwarm ''aa'', Destroy 0, Destroy 0, Tick, Tick] init))
    in es = [(0, Close), (0, Close)] \<and> \<not> length (filter (\<lambda>e. snd e = Close) es) \<le> 1)"
  by (simp add: prim_defs op_defs emits_def List.map_filter_def Let_def)

section \<open>Handshake deadlines\<close>

lemma Swarm__drain_timers:
  assumes "numConns sr w < MAX_SIZE" "\<not> paused (swarm_objs w sr)" "queue (swarm_objs w sr) = pr # rest"
  shows "timers (Swarm__drain sr w) =
     (case timeout (peer_objs w pr) of
        None \<Rightarrow> timers w
      | Some t \<Rightarrow> filter (\<lambda>e. fst e \<noteq> t) (timers w))
     @ [(next_timer w, 5000, ConnDestroyCb (next_conn w))]"
  using assms unfolding Swarm__drain_def Let_def
  by (simp add: prim_defs HANDSHAKE_TIMEOUT_def split: option.splits)

lemma Swarm__drain_dials:
  assumes "numConns sr w < MAX_SIZE" "\<not> paused (swarm_objs w sr)" "queue (swarm_objs w sr) = pr # rest"
  shows "dials (Swarm__drain sr w) = Suc (dials w)"
  using assms unfolding Swarm__drain_def Let_def
  by (simp add: prim_defs dials_def split: option.splits)

lemma Pool__onconn_timers:
  "timers (Pool__onconn pl ra rp w) = timers w @ [(next_timer w, 5000, ConnDestroyCb (next_conn w))]"
  unfolding Pool__onconn_def Peer_onconnect_def Let_def
  by (simp add: prim_defs HANDSHAKE_TIMEOUT_def split: option.splits)

lemma Peer_setTimeout_timers:
  "mtimers (Peer_setTimeout pr w) =
     (case p_timeout (mpeers w pr) of
        None \<Rightarrow> mtimers w
      | Some t \<Rightarrow> filter (\<lambda>e. fst e \<noteq> t) (mtimers w))
     @ [(next_mtimer w, 25000, pr)]"
  unfolding Peer_setTimeout_def Let_def
  by (simp add: pprim_defs Peer_HANDSHAKE_TIMEOUT_def split: option.splits)

text \<open>
  C5, as the code has it. A call of \<^verbatim>\<open>_drain\<close> that starts a dial (the swarm is under
  the cap and not paused, a peer is queued) arms one new timer of 5000 ms, the swarm
  module's \<^verbatim>\<open>HANDSHAKE_TIMEOUT\<close>, for the new socket; the pool's \<^verbatim>\<open>_onconn\<close> arms a
  timer of the same 5000 ms for the accepted socket; the function of both timers destroys
  that socket. The 25000 ms deadline is the one of the peer module: \<^verbatim>\<open>Peer.prototype.setTimeout\<close>
  arms it, and \<^verbatim>\<open>_drain\<close> does not call that function.
\<close>

theorem handshake_deadlines:
  "(numConns sr w < MAX_SIZE \<and> \<not> paused (swarm_objs w sr) \<and> queue (swarm_objs w sr) = pr # rest \<longrightarrow>
      dials (Swarm__drain sr w) = Suc (dials w) \<and>
      timers (Swarm__drain sr w) =
        (case timeout (peer_objs w pr) of
           None \<Rightarrow> timers w
         | Some t \<Rightarrow> filter (\<lambda>e. fst e \<noteq> t) (timers w))
        @ [(next_timer w, 5000, ConnDestroyCb (next_conn w))]) \<and>
   timers (Pool__onconn pl ra rp w) = timers w @ [(next_timer w, 5000, ConnDestroyCb (next_conn w))] \<and>
   effects (run_callback (ConnDestroyCb c) v) = effects v @ [ConnDestroy c] \<and>
   HANDSHAKE_TIMEOUT = HANDSHAKE_TIMEOUT_IN \<and>
   mtimers (Peer_setTimeout p m) =
     (case p_timeout (mpeers m p) of
        None \<Rightarrow> mtimers m
      | Some t \<Rightarrow> filter (\<lambda>e. fst e \<noteq> t) (mtimers m))
     @ [(next_mtimer m, 25000, p)]"
  by (simp add: Swarm__drain_timers Swarm__drain_dials Pool__onconn_timers Peer_setTimeout_timers
      HANDSHAKE_TIMEOUT_def HANDSHAKE_TIMEOUT_IN_def prim_defs)

text \<open>A swarm that was paused when 1.2.3.4:6881 was added and is not paused any more:
  \<^verbatim>\<open>_drain\<close> dials the queued peer and arms 5000 ms.\<close>

theorem handshake_deadlines_witness:
  "(let w = upd_swarm 0 (\<lambda>s. s\<lparr>paused := False\<rparr>)
              (snd (run [NewSwarm ''aa'', Pause 0, Add 0 ''1.2.3.4:6881''] init))
    in numConns 0 w < MAX_SIZE \<and> \<not> paused (swarm_objs w 0) \<and> queue (swarm_objs w 0) = [0] \<and>
       dials (Swarm__drain 0 w) = Suc (dials w) \<and>
       timers (Swarm__drain 0 w) = [(0, 5000, ConnDestroyCb 0)])"
proof -
  let ?w = "upd_swarm 0 (\<lambda>s. s\<lparr>paused := False\<rparr>)
              (snd (run [NewSwarm ''aa'', Pause 0, Add 0 ''1.2.3.4:6881''] init))"
  have h: "numConns 0 ?w < MAX_SIZE \<and> \<not> paused (swarm_objs ?w 0) \<and> queue (swarm_objs ?w 0) = [0]"
    by (simp add: prim_defs op_defs num_defs Let_def)
  have t: "timeout (peer_objs ?w 0) = None \<and> timers ?w = [] \<and> next_timer ?w = 0 \<and> next_conn ?w = 0"
    by (simp add: prim_defs op_defs num_defs Let_def)
  from h handshake_deadlines [where sr = 0 and w = ?w and pr = 0 and rest = "[]", THEN conjunct1] t
  show ?thesis
    by (simp add: Let_def)
qed

text \<open>C5 as stated fails: the timer that \<^verbatim>\<open>_drain\<close> arms for its dial is of 5000 ms,
  not of 25000 ms.\<close>

theorem drain_arms_5000_not_25000:
  "(let w = snd (run [NewSwarm ''aa'', Add 0 ''1.2.3.4:6881''] init)
    in dials w = 1 \<and> timers w = [(0, 5000, ConnDestroyCb 0)] \<and>
       map (\<lambda>e. fst (snd e)) (timers w) \<noteq> [HANDSHAKE_TIMEOUT_OUT])"
  by (simp add: prim_defs op_defs num_defs dials_def HANDSHAKE_TIMEOUT_OUT_def Let_def)

section \<open>Swarm: add and the address check\<close>

lemma digit_not_ws: "is_digit c \<Longrightarrow> \<not> is_ws c"
  by (auto simp: is_digit_def digit_val_def is_ws_def Let_def split: if_splits)

lemma digit_not_special:
  "is_digit c \<Longrightarrow>
   c \<notin> {CHR ''x'', CHR ''X'', CHR ''o'', CHR ''O'', CHR ''b'', CHR ''B'', CHR ''+'', CHR ''-'', CHR ''I''}"
  by (auto simp: is_digit_def digit_val_def Let_def split: if_splits)

lemma digits_val_digits:
  "list_all is_digit p \<Longrightarrow> \<exists>n. digits_val 10 acc p = Some n"
  by (induction p arbitrary: acc) (auto simp: is_digit_def split: option.splits)

lemma js_trim_digits:
  assumes "p \<noteq> []" "list_all is_digit p"
  shows "js_trim p = p"
proof -
  have "\<not> is_ws (hd p)" using assms by (cases p) (auto simp: digit_not_ws)
  then have a: "dropWhile is_ws p = p" using assms(1) by (simp add: dropWhile_eq_self_iff)
  have "\<not> is_ws (hd (rev p))" using assms
    by (simp add: hd_rev list_all_iff digit_not_ws)
  then have "dropWhile is_ws (rev p) = rev p" using assms(1) by (simp add: dropWhile_eq_self_iff)
  with a show ?thesis by (simp add: js_trim_def)
qed

lemma js_Number_digits:
  assumes "p \<noteq> []" "list_all is_digit p" "digits_val 10 0 p = Some n"
  shows "js_Number (Some p) = number_value (of_nat n)"
proof -
  obtain c r where p: "p = c # r" using assms(1) by (cases p) auto
  have c: "is_digit c" using assms(2) p by simp
  have r: "r \<noteq> [] \<Longrightarrow> is_digit (hd r)" using assms(2) p by (cases r) auto
  have all: "\<forall>x\<in>set p. is_digit x" using assms(2) by (simp add: list_all_iff)
  have tw: "takeWhile is_digit p = p" using all by (simp add: takeWhile_eq_all_conv)
  have dw: "dropWhile is_digit p = []" using all by simp
  have ud: "unsigned_decimal p = number_value (of_nat n)"
    using assms(1,3) by (simp add: unsigned_decimal_def tw dw exponent_part_def scale10_def)
  have ninf: "p \<noteq> ''Infinity''" using c p digit_not_special[of c] by auto
  have ul: "unsigned_literal p = number_value (of_nat n)" using ud ninf by (simp add: unsigned_literal_def)
  have hdr: "r \<noteq> [] \<Longrightarrow> hd r \<notin> {CHR ''x'', CHR ''X'', CHR ''o'', CHR ''O'', CHR ''b'', CHR ''B''}"
    using r digit_not_special[of "hd r"] by auto
  have cs: "c \<noteq> CHR ''+'' \<and> c \<noteq> CHR ''-''" using c digit_not_special[of c] by auto
  show ?thesis
    using js_trim_digits[OF assms(1,2)] ul hdr cs p
    by (auto simp: js_Number_def)
qed

lemma validAddr_digits:
  assumes "js_index (js_split CHR '':'' a) 1 = Some p" "p \<noteq> []" "list_all is_digit p"
  shows "validAddr a = spec_validAddr a"
proof -
  obtain n where n: "digits_val 10 0 p = Some n" using digits_val_digits[OF assms(3)] by blast
  have num: "js_Number (Some p) = number_value (of_nat n)" by (rule js_Number_digits[OF assms(2,3) n])
  have big: "(65535::nat) < 2 ^ significand_bits" by (simp add: significand_bits_def)
  show ?thesis
  proof (cases "n < 2 ^ significand_bits")
    case True
    then have "js_Number (Some p) = Fin (of_nat n)" by (simp add: num number_value_nat)
    then show ?thesis using assms n
      by (simp add: validAddr_def spec_validAddr_def js_gt_def js_lt_def Let_def)
  next
    case False
    then have "(2::rat) ^ significand_bits \<le> of_nat n"
      by (metis linorder_not_less of_nat_le_iff of_nat_numeral of_nat_power)
    then have l: "\<not> js_lt (number_value (of_nat n)) (2 ^ significand_bits)" by (rule number_value_large)
    have "(65535::rat) \<le> 2 ^ significand_bits" by (simp add: significand_bits_def)
    with l have "\<not> js_lt (number_value (of_nat n)) 65535"
      by (auto simp: js_lt_def split: jsnum.splits)
    moreover have "\<not> n < 65535" using False big by linarith
    ultimately show ?thesis using assms n
      by (simp add: validAddr_def spec_validAddr_def num Let_def)
  qed
qed

lemma update_fresh: "map_of ps k = None \<Longrightarrow> AList.update k v ps = ps @ [(k, v)]"
  by (induction ps) (auto split: if_splits)

lemma Swarm__drain_peers: "peers (swarm_objs (Swarm__drain sr w) sr') = peers (swarm_objs w sr')"
  unfolding Swarm__drain_def Let_def
  by (simp add: prim_defs split: option.splits list.splits)

lemma Swarm_add_noop:
  "destroyed (swarm_objs w sr) \<or> map_of (peers (swarm_objs w sr)) a \<noteq> None \<or> \<not> validAddr a \<Longrightarrow>
   Swarm_add sr a w = w"
  by (auto simp: Swarm_add_def)

lemma Swarm_add_new:
  assumes "\<not> destroyed (swarm_objs w sr)" "map_of (peers (swarm_objs w sr)) a = None" "validAddr a"
  shows "Swarm_add sr a w =
           Swarm__drain sr
             (upd_swarm sr (\<lambda>s. s\<lparr>peers := peers s @ [(a, next_peer w)], queue := queue s @ [next_peer w]\<rparr>)
                (w\<lparr>peer_objs := (peer_objs w)(next_peer w := Peer a), next_peer := Suc (next_peer w)\<rparr>))"
  using assms
  by (simp add: Swarm_add_def new_Peer_def upd_swarm_def Let_def update_fresh)

lemma Swarm_add_new_peers:
  assumes "\<not> destroyed (swarm_objs w sr)" "map_of (peers (swarm_objs w sr)) a = None" "validAddr a"
  shows "peers (swarm_objs (Swarm_add sr a w) sr) = peers (swarm_objs w sr) @ [(a, next_peer w)]"
  by (simp add: Swarm_add_new[OF assms] Swarm__drain_peers upd_swarm_def)

text \<open>
  C9, as the code has it. \<^verbatim>\<open>add(addr)\<close> changes nothing when the swarm is destroyed,
  when \<open>peers\<close> has the key \<open>addr\<close>, or when \<^verbatim>\<open>validAddr(addr)\<close> is false. Otherwise it
  is \<^verbatim>\<open>_drain\<close> run on the state in which one new Peer for \<open>addr\<close> has been made,
  recorded last in \<open>peers\<close> and put last on \<open>queue\<close>; afterwards \<open>peers\<close> has exactly
  that one entry more. \<^verbatim>\<open>validAddr\<close> converts the second piece of
  \<^verbatim>\<open>addr.split(':')\<close> with \<^verbatim>\<open>Number\<close> and accepts iff the result is greater than 0
  and less than 65535: where that piece is a non-empty run of decimal digits, of any
  length, it accepts iff \<open>0 < port < 65535\<close>, as the specification words it.
\<close>

theorem Swarm_add_cases:
  "(destroyed (swarm_objs w sr) \<or> map_of (peers (swarm_objs w sr)) a \<noteq> None \<or> \<not> validAddr a \<longrightarrow>
      Swarm_add sr a w = w) \<and>
   (\<not> destroyed (swarm_objs w sr) \<and> map_of (peers (swarm_objs w sr)) a = None \<and> validAddr a \<longrightarrow>
      Swarm_add sr a w =
        Swarm__drain sr
          (upd_swarm sr (\<lambda>s. s\<lparr>peers := peers s @ [(a, next_peer w)], queue := queue s @ [next_peer w]\<rparr>)
             (w\<lparr>peer_objs := (peer_objs w)(next_peer w := Peer a), next_peer := Suc (next_peer w)\<rparr>)) \<and>
      peers (swarm_objs (Swarm_add sr a w) sr) = peers (swarm_objs w sr) @ [(a, next_peer w)]) \<and>
   (js_index (js_split CHR '':'' a) 1 = Some p \<and> p \<noteq> [] \<and> list_all is_digit p \<longrightarrow>
      validAddr a = spec_validAddr a)"
  using Swarm_add_noop[of w sr a] Swarm_add_new[of w sr a] Swarm_add_new_peers[of w sr a]
    validAddr_digits[of a p]
  by blast

text \<open>A new swarm, paused, is given 1.2.3.4:6881, and then the same address again.\<close>

theorem Swarm_add_cases_witness:
  "(let a = ''1.2.3.4:6881'';
        w = snd (run [NewSwarm ''aa'', Pause 0] init);
        w' = Swarm_add 0 a w
    in \<not> destroyed (swarm_objs w 0) \<and> map_of (peers (swarm_objs w 0)) a = None \<and> validAddr a \<and>
       peers (swarm_objs w' 0) = [(a, 0)] \<and>
       map_of (peers (swarm_objs w' 0)) a \<noteq> None \<and> Swarm_add 0 a w' = w' \<and>
       js_index (js_split CHR '':'' a) 1 = Some ''6881'' \<and> list_all is_digit ''6881'' \<and>
       validAddr a = spec_validAddr a)"
proof -
  let ?a = "''1.2.3.4:6881''"
  let ?w = "snd (run [NewSwarm ''aa'', Pause 0] init)"
  let ?w' = "Swarm_add 0 ?a ?w"
  have h1: "\<not> destroyed (swarm_objs ?w 0) \<and> map_of (peers (swarm_objs ?w 0)) ?a = None \<and> validAddr ?a"
    by (simp add: prim_defs op_defs num_defs Let_def)
  have e: "peers (swarm_objs ?w 0) = [] \<and> next_peer ?w = 0"
    by (simp add: prim_defs op_defs Let_def)
  from h1 Swarm_add_cases[of ?w 0 ?a "''6881''", THEN conjunct2, THEN conjunct1]
  have "peers (swarm_objs ?w' 0) = peers (swarm_objs ?w 0) @ [(?a, next_peer ?w)]" by blast
  with e have p': "peers (swarm_objs ?w' 0) = [(?a, 0)]" by simp
  then have h2: "map_of (peers (swarm_objs ?w' 0)) ?a \<noteq> None" by simp
  with Swarm_add_cases[of ?w' 0 ?a "''6881''", THEN conjunct1]
  have n: "Swarm_add 0 ?a ?w' = ?w'" by blast
  have h3: "js_index (js_split CHR '':'' ?a) 1 = Some ''6881'' \<and> ''6881'' \<noteq> [] \<and> list_all is_digit ''6881''"
    by (simp add: is_digit_def digit_val_def)
  with Swarm_add_cases[of ?w 0 ?a "''6881''", THEN conjunct2, THEN conjunct2]
  have v: "validAddr ?a = spec_validAddr ?a" by blast
  from h1 p' h2 n h3 v show ?thesis by (simp add: Let_def)
qed

text \<open>C9 as stated fails: the port text \<^verbatim>\<open>0x50\<close> is not a decimal integer, yet
  \<^verbatim>\<open>validAddr\<close> accepts the address (\<^verbatim>\<open>Number("0x50")\<close> is 80) and \<^verbatim>\<open>add\<close> records
  a peer for it.\<close>

theorem add_accepts_hexadecimal_port:
  "validAddr ''1.2.3.4:0x50'' \<and> \<not> spec_validAddr ''1.2.3.4:0x50'' \<and>
   (let w = snd (run [NewSwarm ''aa'', Pause 0] init)
    in Swarm_add 0 ''1.2.3.4:0x50'' w \<noteq> w \<and>
       peers (swarm_objs (Swarm_add 0 ''1.2.3.4:0x50'' w) 0) = [(''1.2.3.4:0x50'', 0)])"
  by (simp add: num_defs spec_validAddr_def prim_defs op_defs Let_def)

section \<open>The connection cap\<close>

lemma Swarm__drain_at_cap: "MAX_SIZE \<le> numConns sr w \<Longrightarrow> Swarm__drain sr w = w"
  by (simp add: Swarm__drain_def)

lemma Swarm__onincoming_result:
  assumes "wire (peer_objs w pr) = Some wd" "conn (peer_objs w pr) = Some c"
  shows "fst (Swarm__onincoming sr pr w) = None"
    and "peers (swarm_objs (snd (Swarm__onincoming sr pr w)) sr) =
           AList.update (wire_remoteAddress (wire_objs w wd)) pr (peers (swarm_objs w sr))"
    and "conn (peer_objs (snd (Swarm__onincoming sr pr w)) i) = conn (peer_objs w i)"
    and "next_conn (snd (Swarm__onincoming sr pr w)) = next_conn w"
    and "next_peer (snd (Swarm__onincoming sr pr w)) = next_peer w"
    and "next_wire (snd (Swarm__onincoming sr pr w)) = next_wire w"
    and "infoHash (swarm_objs (snd (Swarm__onincoming sr pr w)) sr') = infoHash (swarm_objs w sr')"
    and "pool_objs (snd (Swarm__onincoming sr pr w)) = pool_objs w"
    and "queue (swarm_objs (snd (Swarm__onincoming sr pr w)) sr') = queue (swarm_objs w sr')"
    and "destroyed (swarm_objs (snd (Swarm__onincoming sr pr w)) sr') = destroyed (swarm_objs w sr')"
  using assms
  unfolding Swarm__onincoming_def Swarm__onconn_def Swarm__onwire_def Let_def
  by (simp_all add: prim_defs)

lemma foldl_plus_append:
  "foldl (\<lambda>prev current. prev + current) k (xs @ [x]) = foldl (\<lambda>prev current. prev + current) k xs + (x::nat)"
  by simp

lemma Swarm__onincoming_numConns:
  assumes "wire (peer_objs w pr) = Some wd" "conn (peer_objs w pr) = Some c"
    and "map_of (peers (swarm_objs w sr)) (wire_remoteAddress (wire_objs w wd)) = None"
  shows "numConns sr (snd (Swarm__onincoming sr pr w)) = Suc (numConns sr w)"
proof -
  note res = Swarm__onincoming_result[OF assms(1,2), of sr]
  have "peers (swarm_objs (snd (Swarm__onincoming sr pr w)) sr) =
          peers (swarm_objs w sr) @ [(wire_remoteAddress (wire_objs w wd), pr)]"
    by (simp add: res(2) update_fresh[OF assms(3)])
  then show ?thesis
    by (simp add: numConns_def res(3) assms(2))
qed

lemma Pool__onconn_result:
  shows "next_conn (Pool__onconn pl ra rp w) = Suc (next_conn w)"
    and "next_peer (Pool__onconn pl ra rp w) = Suc (next_peer w)"
    and "next_wire (Pool__onconn pl ra rp w) = Suc (next_wire w)"
    and "swarm_objs (Pool__onconn pl ra rp w) = swarm_objs w"
    and "swarms (pool_objs (Pool__onconn pl ra rp w) pl') = swarms (pool_objs w pl')"
    and "conn (peer_objs (Pool__onconn pl ra rp w) i) =
           (if i = next_peer w then Some (next_conn w) else conn (peer_objs w i))"
    and "wire (peer_objs (Pool__onconn pl ra rp w) (next_peer w)) = Some (next_wire w)"
    and "wire_remoteAddress (wire_objs (Pool__onconn pl ra rp w) (next_wire w)) = ra @ '':'' @ show_nat rp"
    and "wire_listeners (wire_objs (Pool__onconn pl ra rp w) (next_wire w)) =
           [(KEnd, True, PeerWireEnd (next_peer w)),
            (KHandshake, False, PoolHandshake pl (next_conn w) (next_peer w) (next_timer w))]"
  unfolding Pool__onconn_def Peer_onconnect_def Let_def
  by (simp_all add: prim_defs)

lemma pool_handshake_dispatch:
  assumes "wire_listeners (wire_objs v wd) =
             [(KEnd, True, PeerWireEnd pr), (KHandshake, False, PoolHandshake pl c pr t)]"
    and "map_of (swarms (pool_objs v pl)) ih = Some sr"
  shows "wire_emits wd (EvHandshake ih) v = Swarm__onincoming sr pr (clearTimeout t v)"
  using assms
  by (simp add: wire_emits_def pool_onhandshake_def and_then_def ok_def Let_def clearTimeout_def
      call_def split: prod.splits option.splits)

lemma digits_val_append:
  "digits_val r acc (xs @ ys) =
     (case digits_val r acc xs of None \<Rightarrow> None | Some a \<Rightarrow> digits_val r a ys)"
  by (induction xs arbitrary: acc) (simp_all split: option.splits)

lemma digit_char: "n < 10 \<Longrightarrow> digit_val 10 (''0123456789'' ! n) = Some n"
proof -
  assume "n < 10"
  then have "n \<in> {0, 1, 2, 3, 4, 5, 6, 7, 8, 9}"
    by auto
  then show ?thesis
    by (elim insertE emptyE) (simp_all add: digit_val_def)
qed

lemma show_nat_value: "digits_val 10 0 (show_nat n) = Some n"
proof (induction n rule: show_nat.induct)
  case (1 n)
  show ?case
  proof (cases "n < 10")
    case True
    then show ?thesis by (subst show_nat.simps) (simp add: digit_char)
  next
    case False
    then have ih: "digits_val 10 0 (show_nat (n div 10)) = Some (n div 10)" using 1 by simp
    have "n mod 10 < 10" by simp
    then have d: "digit_val 10 (''0123456789'' ! (n mod 10)) = Some (n mod 10)" by (rule digit_char)
    show ?thesis using False
      by (subst show_nat.simps) (simp add: digits_val_append ih d)
  qed
qed

lemma show_nat_inj:
  assumes "show_nat m = show_nat n"
  shows "m = n"
proof -
  have "Some m = digits_val 10 0 (show_nat m)" by (simp only: show_nat_value)
  also have "\<dots> = digits_val 10 0 (show_nat n)" by (simp only: assms)
  also have "\<dots> = Some n" by (simp only: show_nat_value)
  finally show ?thesis by simp
qed

lemma incoming_key_inj: "incoming_key i = incoming_key j \<Longrightarrow> i = j"
  by (auto simp: incoming_key_def dest: show_nat_inj)

lemma incoming_key_fresh: "map_of (map (\<lambda>i. (incoming_key i, i)) [0..<n]) (incoming_key n) = None"
  by (auto simp: map_of_eq_None_iff dest: incoming_key_inj)

lemma run_append: "run (xs @ ys) w = and_then (run xs w) (run ys)"
  by (induction xs arbitrary: w) (simp_all add: and_then_def ok_def split: prod.splits option.splits)

lemma incoming_inv_step:
  assumes "incoming_inv n w"
  shows "fst (run (incoming_peer 0 ''aa'' n) w) = None \<and>
         incoming_inv (Suc n) (snd (run (incoming_peer 0 ''aa'' n) w))"
proof -
  let ?v = "Pool__onconn 0 ''9.9.9.9'' (4000 + n) w"
  let ?t = "next_timer w"
  from assms have nx: "next_conn w = n" "next_peer w = n" "next_wire w = n"
    and ih: "infoHash (swarm_objs w 0) = ''aa''"
    and sw: "map_of (swarms (pool_objs w 0)) ''aa'' = Some 0"
    and ps: "peers (swarm_objs w 0) = map (\<lambda>i. (incoming_key i, i)) [0..<n]"
    and cs: "list_all (\<lambda>i. conn (peer_objs w i) \<noteq> None) [0..<n]"
    and qd: "queue (swarm_objs w 0) = []" "\<not> destroyed (swarm_objs w 0)"
    by (simp_all add: incoming_inv_def)
  have ls: "wire_listeners (wire_objs ?v n) =
              [(KEnd, True, PeerWireEnd n), (KHandshake, False, PoolHandshake 0 n n ?t)]"
    using Pool__onconn_result(9)[of 0 "''9.9.9.9''" "4000 + n" w] nx by simp
  have sw': "map_of (swarms (pool_objs ?v 0)) ''aa'' = Some 0"
    using sw by (simp add: Pool__onconn_result(5))
  have emit: "wire_emits n (EvHandshake ''aa'') ?v = Swarm__onincoming 0 n (clearTimeout ?t ?v)"
    by (rule pool_handshake_dispatch[OF ls sw'])
  let ?u = "clearTimeout ?t ?v"
  have u_conn: "conn (peer_objs ?u i) = (if i = n then Some n else conn (peer_objs w i))" for i
    using Pool__onconn_result(6)[of 0 "''9.9.9.9''" "4000 + n" w i] nx
    by (simp add: clearTimeout_def call_def)
  have wu: "wire (peer_objs ?u n) = Some n"
    using Pool__onconn_result(7)[of 0 "''9.9.9.9''" "4000 + n" w] nx
    by (simp add: clearTimeout_def call_def)
  have cu: "conn (peer_objs ?u n) = Some n"
    by (simp add: u_conn)
  have ra: "wire_remoteAddress (wire_objs ?u n) = incoming_key n"
    using Pool__onconn_result(8)[of 0 "''9.9.9.9''" "4000 + n" w] nx
    by (simp add: clearTimeout_def call_def incoming_key_def)
  have pu: "peers (swarm_objs ?u 0) = map (\<lambda>i. (incoming_key i, i)) [0..<n]"
    using ps by (simp add: clearTimeout_def call_def Pool__onconn_result(4))
  have nu: "next_conn ?u = Suc n" "next_peer ?u = Suc n" "next_wire ?u = Suc n"
    using nx by (simp_all add: clearTimeout_def call_def Pool__onconn_result(1,2,3))
  have iu: "infoHash (swarm_objs ?u 0) = ''aa''"
    using ih by (simp add: clearTimeout_def call_def Pool__onconn_result(4))
  have su: "map_of (swarms (pool_objs ?u 0)) ''aa'' = Some 0"
    using sw by (simp add: clearTimeout_def call_def Pool__onconn_result(5))
  have qu: "queue (swarm_objs ?u 0) = []" "\<not> destroyed (swarm_objs ?u 0)"
    using qd by (simp_all add: clearTimeout_def call_def Pool__onconn_result(4))
  define u where "u = ?u"
  note res = Swarm__onincoming_result[of u n n n 0, OF wu[folded u_def] cu[folded u_def]]
  let ?r = "Swarm__onincoming 0 n u"
  have r1: "fst ?r = None" by (rule res(1))
  have r2: "peers (swarm_objs (snd ?r) 0) = map (\<lambda>i. (incoming_key i, i)) [0..<Suc n]"
    using ra pu by (simp add: res(2) u_def[symmetric] update_fresh incoming_key_fresh)
  have r3: "list_all (\<lambda>i. conn (peer_objs (snd ?r) i) \<noteq> None) [0..<Suc n]"
    using cs u_conn by (simp add: res(3) u_def[symmetric] list_all_iff)
  have r4: "next_conn (snd ?r) = Suc n" "next_peer (snd ?r) = Suc n" "next_wire (snd ?r) = Suc n"
    using nu by (simp_all add: res(4,5,6) u_def[symmetric])
  have r5: "infoHash (swarm_objs (snd ?r) 0) = ''aa''"
    using iu by (simp add: res(7) u_def[symmetric])
  have r6: "map_of (swarms (pool_objs (snd ?r) 0)) ''aa'' = Some 0"
    using su by (simp add: res(8) u_def[symmetric])
  have r7: "queue (swarm_objs (snd ?r) 0) = []" "\<not> destroyed (swarm_objs (snd ?r) 0)"
    using qu by (simp_all add: res(9,10) u_def[symmetric])
  have run_eq: "run (incoming_peer 0 ''aa'' n) w = ?r"
    using r1 by (cases ?r) (simp add: incoming_peer_def and_then_def ok_def emit u_def)
  show ?thesis
    unfolding run_eq using r1 r2 r3 r4 r5 r6 r7 by (simp add: incoming_inv_def)
qed

lemma incoming_inv_run:
  assumes "incoming_inv 0 w"
  shows "fst (run (incoming_peers 0 ''aa'' n) w) = None \<and>
         incoming_inv n (snd (run (incoming_peers 0 ''aa'' n) w))"
proof (induction n)
  case 0
  then show ?case using assms by (simp add: ok_def incoming_peers_def)
next
  case (Suc n)
  let ?a = "run (incoming_peers 0 ''aa'' n) w"
  from Suc have a: "fst ?a = None" and i: "incoming_inv n (snd ?a)" by simp_all
  from incoming_inv_step[OF i] a show ?case
    by (cases ?a) (simp add: run_append and_then_def incoming_peers_def)
qed

lemma incoming_inv_numConns: "incoming_inv n w \<Longrightarrow> numConns 0 w = n"
proof -
  assume a: "incoming_inv n w"
  have f: "foldl (\<lambda>prev current. prev + current) k (map (\<lambda>x. Suc 0) xs) = k + length xs"
    for k :: nat and xs :: "'b list"
    by (induction xs arbitrary: k) simp_all
  from a have ps: "peers (swarm_objs w 0) = map (\<lambda>i. (incoming_key i, i)) [0..<n]"
    and cs: "\<forall>i<n. conn (peer_objs w i) \<noteq> None"
    by (simp_all add: incoming_inv_def list_all_iff)
  have "map (\<lambda>e. if conn (peer_objs w (snd e)) \<noteq> None then 1 else 0)
          (map (\<lambda>i. (incoming_key i, i)) [0..<n])
        = map (\<lambda>x. 1::nat) [0..<n]"
    using cs by simp
  then show ?thesis
    by (simp add: numConns_def ps f del: map_map)
qed

lemma incoming_inv_init:
  "fst (run [NewSwarm ''aa'', Listen 0 (Some 6881), ServerListening 0] init) = None \<and>
   incoming_inv 0 (snd (run [NewSwarm ''aa'', Listen 0 (Some 6881), ServerListening 0] init))"
  by (simp add: incoming_inv_def prim_defs op_defs Let_def)

lemma incoming_run:
  "fst (run ([NewSwarm ''aa'', Listen 0 (Some 6881), ServerListening 0] @ incoming_peers 0 ''aa'' n) init) = None \<and>
   incoming_inv n
     (snd (run ([NewSwarm ''aa'', Listen 0 (Some 6881), ServerListening 0] @ incoming_peers 0 ''aa'' n) init))"
proof -
  let ?p = "run [NewSwarm ''aa'', Listen 0 (Some 6881), ServerListening 0] init"
  from incoming_inv_init have p: "fst ?p = None" and i: "incoming_inv 0 (snd ?p)" by simp_all
  have e: "run ([NewSwarm ''aa'', Listen 0 (Some 6881), ServerListening 0] @ incoming_peers 0 ''aa'' n) init
        = run (incoming_peers 0 ''aa'' n) (snd ?p)"
    using p by (cases ?p) (simp only: run_append and_then_def, simp)
  show ?thesis
    unfolding e by (rule incoming_inv_run[OF i])
qed

lemma Swarm__drain_conn: "conn (peer_objs (Swarm__drain sr w) p) = conn (peer_objs w p)"
  unfolding Swarm__drain_def Let_def
  by (simp add: prim_defs split: option.splits list.splits)

lemma Swarm__drain_numConns: "numConns sr' (Swarm__drain sr w) = numConns sr' w"
  by (simp add: numConns_def Swarm__drain_conn Swarm__drain_peers)

lemma Swarm__drain_queue:
  assumes "numConns sr w < MAX_SIZE" "\<not> paused (swarm_objs w sr)" "queue (swarm_objs w sr) = pr # rest"
  shows "queue (swarm_objs (Swarm__drain sr w) sr) = rest"
  using assms unfolding Swarm__drain_def Let_def
  by (simp add: prim_defs split: option.splits)

lemma numConns_new_peer:
  assumes "list_all (\<lambda>e. snd e < next_peer w) (peers (swarm_objs w sr))"
  shows "numConns sr
           (upd_swarm sr (\<lambda>s. s\<lparr>peers := peers s @ [(a, next_peer w)], queue := queue s @ [next_peer w]\<rparr>)
              (w\<lparr>peer_objs := (peer_objs w)(next_peer w := Peer a), next_peer := Suc (next_peer w)\<rparr>))
         = numConns sr w"
proof -
  have ne: "\<forall>e \<in> set (peers (swarm_objs w sr)). snd e \<noteq> next_peer w"
    using assms by (auto simp: list_all_iff)
  show ?thesis
    using ne by (simp add: numConns_def upd_swarm_def Peer_def cong: map_cong)
qed

lemma Swarm_add_at_cap:
  assumes "MAX_SIZE \<le> numConns sr w" "\<not> destroyed (swarm_objs w sr)"
    "map_of (peers (swarm_objs w sr)) a = None" "validAddr a"
    "list_all (\<lambda>e. snd e < next_peer w) (peers (swarm_objs w sr))"
  shows "Swarm_add sr a w =
           upd_swarm sr (\<lambda>s. s\<lparr>peers := peers s @ [(a, next_peer w)], queue := queue s @ [next_peer w]\<rparr>)
             (w\<lparr>peer_objs := (peer_objs w)(next_peer w := Peer a), next_peer := Suc (next_peer w)\<rparr>)"
  using assms(1)
  by (simp only: Swarm_add_new[OF assms(2,3,4)])
     (rule Swarm__drain_at_cap, simp only: numConns_new_peer[OF assms(5)])

lemma Swarm_add_below_cap:
  assumes "numConns sr w < MAX_SIZE" "\<not> paused (swarm_objs w sr)" "queue (swarm_objs w sr) = []"
    "\<not> destroyed (swarm_objs w sr)" "map_of (peers (swarm_objs w sr)) a = None" "validAddr a"
    "list_all (\<lambda>e. snd e < next_peer w) (peers (swarm_objs w sr))"
  shows "dials (Swarm_add sr a w) = Suc (dials w)"
    and "numConns sr (Swarm_add sr a w) = numConns sr w"
    and "queue (swarm_objs (Swarm_add sr a w) sr) = []"
proof -
  let ?v = "upd_swarm sr (\<lambda>s. s\<lparr>peers := peers s @ [(a, next_peer w)], queue := queue s @ [next_peer w]\<rparr>)
             (w\<lparr>peer_objs := (peer_objs w)(next_peer w := Peer a), next_peer := Suc (next_peer w)\<rparr>)"
  have e: "Swarm_add sr a w = Swarm__drain sr ?v" by (rule Swarm_add_new[OF assms(4,5,6)])
  have n: "numConns sr ?v = numConns sr w" by (rule numConns_new_peer[OF assms(7)])
  have c: "numConns sr ?v < MAX_SIZE" using assms(1) by (simp only: n)
  have p: "\<not> paused (swarm_objs ?v sr)" using assms(2) by (simp add: upd_swarm_def)
  have q: "queue (swarm_objs ?v sr) = next_peer w # []" using assms(3) by (simp add: upd_swarm_def)
  have d: "dials ?v = dials w" by (simp add: dials_def upd_swarm_def)
  show "dials (Swarm_add sr a w) = Suc (dials w)"
    by (simp only: e Swarm__drain_dials[OF c p q] d)
  show "numConns sr (Swarm_add sr a w) = numConns sr w"
    by (simp only: e Swarm__drain_numConns n)
  show "queue (swarm_objs (Swarm_add sr a w) sr) = []"
    by (simp only: e Swarm__drain_queue[OF c p q])
qed


lemma Swarm__drain_keeps:
  shows "paused (swarm_objs (Swarm__drain sr w) sr') = paused (swarm_objs w sr')"
    and "destroyed (swarm_objs (Swarm__drain sr w) sr') = destroyed (swarm_objs w sr')"
    and "next_peer (Swarm__drain sr w) = next_peer w"
  unfolding Swarm__drain_def Let_def
  by (simp_all add: prim_defs split: option.splits list.splits)

lemma Swarm_add_new_keeps:
  assumes "\<not> destroyed (swarm_objs w sr)" "map_of (peers (swarm_objs w sr)) a = None" "validAddr a"
  shows "paused (swarm_objs (Swarm_add sr a w) sr) = paused (swarm_objs w sr)"
    and "destroyed (swarm_objs (Swarm_add sr a w) sr) = destroyed (swarm_objs w sr)"
    and "next_peer (Swarm_add sr a w) = Suc (next_peer w)"
  by (simp_all add: Swarm_add_new[OF assms] Swarm__drain_keeps upd_swarm_def)

lemma add_burst:
  assumes "distinct as" "list_all validAddr as"
    and "\<forall>a\<in>set as. map_of (peers (swarm_objs w sr)) a = None"
    and "numConns sr w < MAX_SIZE" "\<not> paused (swarm_objs w sr)" "queue (swarm_objs w sr) = []"
    and "\<not> destroyed (swarm_objs w sr)"
    and "list_all (\<lambda>e. snd e < next_peer w) (peers (swarm_objs w sr))"
  shows "fst (run (map (Add sr) as) w) = None \<and>
         dials (snd (run (map (Add sr) as) w)) = dials w + length as \<and>
         numConns sr (snd (run (map (Add sr) as) w)) = numConns sr w \<and>
         queue (swarm_objs (snd (run (map (Add sr) as) w)) sr) = []"
  using assms
proof (induction as arbitrary: w)
  case Nil
  then show ?case by (simp add: ok_def)
next
  case (Cons a as)
  let ?v = "Swarm_add sr a w"
  from Cons.prems have va: "validAddr a" and fa: "map_of (peers (swarm_objs w sr)) a = None"
    and d: "distinct as" "a \<notin> set as" and v: "list_all validAddr as"
    and f: "\<forall>b\<in>set as. map_of (peers (swarm_objs w sr)) b = None"
    by simp_all
  note below = Swarm_add_below_cap[OF Cons.prems(4,5,6,7) fa va Cons.prems(8)]
  note keeps = Swarm_add_new_keeps[OF Cons.prems(7) fa va]
  have ps: "peers (swarm_objs ?v sr) = peers (swarm_objs w sr) @ [(a, next_peer w)]"
    by (rule Swarm_add_new_peers[OF Cons.prems(7) fa va])
  have f': "\<forall>b\<in>set as. map_of (peers (swarm_objs ?v sr)) b = None"
    using f d(2) by (auto simp: ps map_add_def)
  have c': "numConns sr ?v < MAX_SIZE" using Cons.prems(4) by (simp add: below(2))
  have p': "\<not> paused (swarm_objs ?v sr)" using Cons.prems(5) by (simp add: keeps(1))
  have d': "\<not> destroyed (swarm_objs ?v sr)" using Cons.prems(7) by (simp add: keeps(2))
  have w': "list_all (\<lambda>e. snd e < next_peer ?v) (peers (swarm_objs ?v sr))"
    using Cons.prems(8) by (auto simp: ps keeps(3) list_all_iff)
  note ih = Cons.IH[OF d(1) v f' c' p' below(3) d' w']
  have r: "run (map (Add sr) (a # as)) w = run (map (Add sr) as) ?v"
    by (simp add: and_then_def ok_def)
  show ?case
    unfolding r using ih by (simp add: below(1,2))
qed

lemma drain_onconnect_keeps:
  shows "peers (swarm_objs (snd (drain_onconnect sr pr c t w)) sr') = peers (swarm_objs w sr')"
    and "conn (peer_objs (snd (drain_onconnect sr pr c t w)) p) = (if p = pr then Some c else conn (peer_objs w p))"
    and "dials (snd (drain_onconnect sr pr c t w)) = dials w"
  unfolding drain_onconnect_def Swarm__onconn_def Peer_onconnect_def Let_def
  by (simp_all add: prim_defs dials_def)

lemma foldl_plus_sum: "foldl (\<lambda>prev current. prev + current) k xs = k + sum_list (xs :: nat list)"
  by (induction xs arbitrary: k) simp_all

lemma sum_conns_same:
  "pr \<notin> snd ` set ps \<Longrightarrow>
   sum_list (map (\<lambda>e. if (f(pr := Some c)) (snd e) \<noteq> None then 1 else (0::nat)) ps)
   = sum_list (map (\<lambda>e. if f (snd e) \<noteq> None then 1 else 0) ps)"
  by (induction ps) auto

lemma sum_conns_one_more:
  assumes "distinct (map snd ps)" "pr \<in> snd ` set ps" "f pr = None"
  shows "sum_list (map (\<lambda>e. if (f(pr := Some c)) (snd e) \<noteq> None then 1 else (0::nat)) ps)
         = Suc (sum_list (map (\<lambda>e. if f (snd e) \<noteq> None then 1 else 0) ps))"
  using assms
proof (induction ps)
  case Nil
  then show ?case by simp
next
  case (Cons e ps)
  show ?case
  proof (cases "snd e = pr")
    case True
    with Cons.prems(1) have "pr \<notin> snd ` set ps" by auto
    from sum_conns_same[OF this, of f c] True Cons.prems(3) show ?thesis by simp
  next
    case False
    with Cons.prems have "distinct (map snd ps)" "pr \<in> snd ` set ps" by auto
    from Cons.IH[OF this Cons.prems(3)] False show ?thesis by simp
  qed
qed

lemma count_conns_one_more:
  assumes "distinct (map snd ps)" "pr \<in> snd ` set ps" "f pr = None"
  shows "foldl (\<lambda>prev current. prev + current) 0
           (map (\<lambda>e. if (f(pr := Some c)) (snd e) \<noteq> None then 1 else 0) ps)
         = Suc (foldl (\<lambda>prev current. prev + current) 0
                  (map (\<lambda>e. if f (snd e) \<noteq> None then 1 else (0::nat)) ps))"
  using sum_conns_one_more[where f = f and pr = pr and ps = ps and c = c] assms
  by (simp only: foldl_plus_sum add_0)

lemma drain_onconnect_numConns:
  assumes "conn (peer_objs w pr) = None" "distinct (map snd (peers (swarm_objs w sr)))"
    "pr \<in> snd ` set (peers (swarm_objs w sr))"
  shows "numConns sr (snd (drain_onconnect sr pr c t w)) = Suc (numConns sr w)"
proof -
  have e: "(\<lambda>p. conn (peer_objs (snd (drain_onconnect sr pr c t w)) p))
           = (\<lambda>p. conn (peer_objs w p))(pr := Some c)"
    by (rule ext) (simp add: drain_onconnect_keeps(2))
  have "numConns sr (snd (drain_onconnect sr pr c t w))
        = foldl (\<lambda>prev current. prev + current) 0
            (map (\<lambda>e. if ((\<lambda>p. conn (peer_objs w p))(pr := Some c)) (snd e) \<noteq> None then 1 else 0)
               (peers (swarm_objs w sr)))"
    unfolding numConns_def drain_onconnect_keeps(1) e[symmetric] ..
  also have "\<dots> = Suc (numConns sr w)"
    unfolding numConns_def
    by (rule count_conns_one_more[OF assms(2,3)]) (rule assms(1))
  finally show ?thesis .
qed

text \<open>
  C1, as the code has it. The cap is tested in one place: \<^verbatim>\<open>_drain\<close> returns without
  changing anything while \<open>numConns\<close> is \<open>MAX_SIZE\<close> (100) or more, so \<^verbatim>\<open>add\<close> of a new
  valid address then only records the peer and leaves it on \<open>queue\<close>, without a dial.
  Below the cap (and not paused) \<^verbatim>\<open>_drain\<close> dials the head of the queue, and the dial
  leaves \<open>numConns\<close> as it was: \<open>numConns\<close> counts the peers whose \<open>conn\<close> is set, and
  \<open>conn\<close> is set by \<^verbatim>\<open>onconnect\<close>, when the socket has connected; \<^verbatim>\<open>onconnect\<close> tests
  nothing and then \<open>numConns\<close> grows by one. So the dials in flight are not counted:
  \<^verbatim>\<open>add\<close> of any number of distinct new valid addresses, on a swarm below the cap with
  nothing queued, dials every one of them. The incoming path has no test at all:
  \<^verbatim>\<open>_onincoming\<close>, given a peer with a wire and a socket, records it in \<open>peers\<close> under the
  wire's remote address whatever \<open>numConns\<close> is, and when that address is a new key
  \<open>numConns\<close> grows by one. (Peers are numbered as they are made: that the peers recorded
  have numbers below \<open>next_peer\<close> says that the Peer \<^verbatim>\<open>add\<close> makes is a new object.)
\<close>

theorem cap_applies_to_drain_only:
  "(MAX_SIZE \<le> numConns sr w \<longrightarrow> Swarm__drain sr w = w) \<and>
   (MAX_SIZE \<le> numConns sr w \<and> \<not> destroyed (swarm_objs w sr) \<and>
    map_of (peers (swarm_objs w sr)) a = None \<and> validAddr a \<and>
    list_all (\<lambda>e. snd e < next_peer w) (peers (swarm_objs w sr)) \<longrightarrow>
      Swarm_add sr a w =
        upd_swarm sr (\<lambda>s. s\<lparr>peers := peers s @ [(a, next_peer w)], queue := queue s @ [next_peer w]\<rparr>)
          (w\<lparr>peer_objs := (peer_objs w)(next_peer w := Peer a), next_peer := Suc (next_peer w)\<rparr>) \<and>
      queue (swarm_objs (Swarm_add sr a w) sr) = queue (swarm_objs w sr) @ [next_peer w] \<and>
      dials (Swarm_add sr a w) = dials w \<and>
      numConns sr (Swarm_add sr a w) = numConns sr w) \<and>
   (numConns sr w < MAX_SIZE \<and> \<not> paused (swarm_objs w sr) \<and> queue (swarm_objs w sr) = p # rest \<longrightarrow>
      dials (Swarm__drain sr w) = Suc (dials w) \<and>
      queue (swarm_objs (Swarm__drain sr w) sr) = rest \<and>
      numConns sr (Swarm__drain sr w) = numConns sr w) \<and>
   (conn (peer_objs w p) = None \<and> distinct (map snd (peers (swarm_objs w sr))) \<and>
    p \<in> snd ` set (peers (swarm_objs w sr)) \<longrightarrow>
      numConns sr (snd (drain_onconnect sr p c t w)) = Suc (numConns sr w) \<and>
      dials (snd (drain_onconnect sr p c t w)) = dials w) \<and>
   (distinct as \<and> list_all validAddr as \<and>
    (\<forall>b\<in>set as. map_of (peers (swarm_objs w sr)) b = None) \<and>
    numConns sr w < MAX_SIZE \<and> \<not> paused (swarm_objs w sr) \<and> queue (swarm_objs w sr) = [] \<and>
    \<not> destroyed (swarm_objs w sr) \<and>
    list_all (\<lambda>e. snd e < next_peer w) (peers (swarm_objs w sr)) \<longrightarrow>
      fst (run (map (Add sr) as) w) = None \<and>
      dials (snd (run (map (Add sr) as) w)) = dials w + length as \<and>
      numConns sr (snd (run (map (Add sr) as) w)) = numConns sr w) \<and>
   (wire (peer_objs w pr) = Some wd \<and> conn (peer_objs w pr) = Some c \<longrightarrow>
      fst (Swarm__onincoming sr pr w) = None \<and>
      map_of (peers (swarm_objs (snd (Swarm__onincoming sr pr w)) sr))
        (wire_remoteAddress (wire_objs w wd)) = Some pr \<and>
      (map_of (peers (swarm_objs w sr)) (wire_remoteAddress (wire_objs w wd)) = None \<longrightarrow>
         numConns sr (snd (Swarm__onincoming sr pr w)) = Suc (numConns sr w)))"
proof -
  have inc: "map_of (peers (swarm_objs (snd (Swarm__onincoming sr pr w)) sr))
          (wire_remoteAddress (wire_objs w wd)) = Some pr"
    if "wire (peer_objs w pr) = Some wd" "conn (peer_objs w pr) = Some c"
    by (simp add: Swarm__onincoming_result(2)[OF that] update_conv)
  have cap: "queue (swarm_objs (Swarm_add sr a w) sr) = queue (swarm_objs w sr) @ [next_peer w] \<and>
             dials (Swarm_add sr a w) = dials w \<and> numConns sr (Swarm_add sr a w) = numConns sr w"
    if "MAX_SIZE \<le> numConns sr w" "\<not> destroyed (swarm_objs w sr)"
      "map_of (peers (swarm_objs w sr)) a = None" "validAddr a"
      "list_all (\<lambda>e. snd e < next_peer w) (peers (swarm_objs w sr))"
    using numConns_new_peer[OF that(5), of a]
    by (simp add: Swarm_add_at_cap[OF that] upd_swarm_def dials_def)
  show ?thesis
    apply (intro conjI impI)
    subgoal by (rule Swarm__drain_at_cap)
    subgoal by (rule Swarm_add_at_cap) blast+
    subgoal using cap by blast
    subgoal using cap by blast
    subgoal using cap by blast
    subgoal by (rule Swarm__drain_dials) blast+
    subgoal by (rule Swarm__drain_queue) blast+
    subgoal by (rule Swarm__drain_numConns)
    subgoal by (rule drain_onconnect_numConns) blast+
    subgoal by (rule drain_onconnect_keeps(3))
    subgoal using add_burst[of as w sr] by blast
    subgoal using add_burst[of as w sr] by blast
    subgoal using add_burst[of as w sr] by blast
    subgoal using Swarm__onincoming_result(1)[of w pr wd c sr] by blast
    subgoal using inc by blast
    subgoal using Swarm__onincoming_numConns[of w pr wd c sr] by blast
    done
qed


text \<open>
  With 100 remote peers adopted, \<^verbatim>\<open>add\<close> of 1.2.3.4:6881 leaves the new peer (number
  100) on the queue, and \<^verbatim>\<open>_drain\<close> leaves it there. A swarm that was paused when the
  address was added, once it is not paused any more, dials it. A dialled peer is counted
  once its socket connects. Three addresses added to a new swarm are all dialled while
  \<open>numConns\<close> stays 0. And the first remote peer is adopted by a swarm that has no peer
  yet.
\<close>

theorem cap_applies_to_drain_only_witness:
  "(let a = ''1.2.3.4:6881'';
        w = snd (run ([NewSwarm ''aa'', Listen 0 (Some 6881), ServerListening 0]
                      @ incoming_peers 0 ''aa'' 100) init);
        w' = Swarm_add 0 a w;
        u = upd_swarm 0 (\<lambda>s. s\<lparr>paused := False\<rparr>) (snd (run [NewSwarm ''aa'', Pause 0, Add 0 a] init));
        d = snd (run [NewSwarm ''aa'', Add 0 a] init);
        f = snd (run [NewSwarm ''aa''] init);
        as = [''1.2.3.4:6881'', ''1.2.3.4:6882'', ''5.6.7.8:80''];
        v = Pool__onconn 0 ''9.9.9.9'' 4000
              (snd (run [NewSwarm ''aa'', Listen 0 (Some 6881), ServerListening 0] init))
    in MAX_SIZE \<le> numConns 0 w \<and> \<not> destroyed (swarm_objs w 0) \<and>
       map_of (peers (swarm_objs w 0)) a = None \<and> validAddr a \<and>
       list_all (\<lambda>e. snd e < next_peer w) (peers (swarm_objs w 0)) \<and>
       queue (swarm_objs w' 0) = [100] \<and> dials w' = dials w \<and>
       MAX_SIZE \<le> numConns 0 w' \<and> Swarm__drain 0 w' = w' \<and>
       numConns 0 u < MAX_SIZE \<and> \<not> paused (swarm_objs u 0) \<and> queue (swarm_objs u 0) = [0] \<and>
       dials (Swarm__drain 0 u) = Suc (dials u) \<and> queue (swarm_objs (Swarm__drain 0 u) 0) = [] \<and>
       numConns 0 (Swarm__drain 0 u) = numConns 0 u \<and>
       conn (peer_objs d 0) = None \<and> distinct (map snd (peers (swarm_objs d 0))) \<and>
       0 \<in> snd ` set (peers (swarm_objs d 0)) \<and> dials d = 1 \<and> numConns 0 d = 0 \<and>
       numConns 0 (snd (drain_onconnect 0 0 0 0 d)) = 1 \<and>
       distinct as \<and> list_all validAddr as \<and>
       (\<forall>b\<in>set as. map_of (peers (swarm_objs f 0)) b = None) \<and>
       numConns 0 f < MAX_SIZE \<and> \<not> paused (swarm_objs f 0) \<and> queue (swarm_objs f 0) = [] \<and>
       \<not> destroyed (swarm_objs f 0) \<and>
       list_all (\<lambda>e. snd e < next_peer f) (peers (swarm_objs f 0)) \<and>
       dials (snd (run (map (Add 0) as) f)) = 3 \<and> numConns 0 (snd (run (map (Add 0) as) f)) = 0 \<and>
       wire (peer_objs v 0) = Some 0 \<and> conn (peer_objs v 0) = Some 0 \<and>
       map_of (peers (swarm_objs v 0)) (wire_remoteAddress (wire_objs v 0)) = None \<and>
       fst (Swarm__onincoming 0 0 v) = None \<and>
       numConns 0 (snd (Swarm__onincoming 0 0 v)) = Suc (numConns 0 v))"
proof -
  let ?a = "''1.2.3.4:6881''"
  let ?w = "snd (run ([NewSwarm ''aa'', Listen 0 (Some 6881), ServerListening 0]
                      @ incoming_peers 0 ''aa'' 100) init)"
  let ?w' = "Swarm_add 0 ?a ?w"
  let ?u = "upd_swarm 0 (\<lambda>s. s\<lparr>paused := False\<rparr>) (snd (run [NewSwarm ''aa'', Pause 0, Add 0 ?a] init))"
  let ?d = "snd (run [NewSwarm ''aa'', Add 0 ?a] init)"
  let ?f = "snd (run [NewSwarm ''aa''] init)"
  let ?as = "[''1.2.3.4:6881'', ''1.2.3.4:6882'', ''5.6.7.8:80'']"
  let ?i = "snd (run [NewSwarm ''aa'', Listen 0 (Some 6881), ServerListening 0] init)"
  let ?v = "Pool__onconn 0 ''9.9.9.9'' 4000 ?i"
  have inv: "incoming_inv 100 ?w" by (rule conjunct2[OF incoming_run])
  then have n: "numConns 0 ?w = 100" by (rule incoming_inv_numConns)
  from inv have ps: "peers (swarm_objs ?w 0) = map (\<lambda>i. (incoming_key i, i)) [0..<100]"
    and np: "next_peer ?w = 100" and q: "queue (swarm_objs ?w 0) = []"
    and nd: "\<not> destroyed (swarm_objs ?w 0)"
    by (simp_all add: incoming_inv_def)
  have h1: "MAX_SIZE \<le> numConns 0 ?w" using n by (simp add: MAX_SIZE_def)
  have h2: "map_of (peers (swarm_objs ?w 0)) ?a = None"
    unfolding ps by (auto simp: map_of_eq_None_iff incoming_key_def)
  have h3: "validAddr ?a" by (simp add: num_defs)
  have h4: "list_all (\<lambda>e. snd e < next_peer ?w) (peers (swarm_objs ?w 0))"
    unfolding ps np by (simp add: list_all_iff)
  from h1 nd h2 h3 h4 cap_applies_to_drain_only[where sr = 0 and w = ?w and a = ?a, THEN conjunct2, THEN conjunct1]
  have c1: "queue (swarm_objs ?w' 0) = queue (swarm_objs ?w 0) @ [next_peer ?w] \<and> dials ?w' = dials ?w \<and>
            numConns 0 ?w' = numConns 0 ?w"
    by blast
  then have c1': "queue (swarm_objs ?w' 0) = [100] \<and> dials ?w' = dials ?w" using q np by simp
  have h5: "MAX_SIZE \<le> numConns 0 ?w'" using c1 h1 by simp
  with cap_applies_to_drain_only[where sr = 0 and w = ?w', THEN conjunct1]
  have c2: "Swarm__drain 0 ?w' = ?w'" by blast
  have h6: "numConns 0 ?u < MAX_SIZE \<and> \<not> paused (swarm_objs ?u 0) \<and> queue (swarm_objs ?u 0) = [0]"
    by (simp add: prim_defs op_defs num_defs Let_def update_fresh)
  then have h6': "queue (swarm_objs ?u 0) = 0 # []" by simp
  from h6 h6' cap_applies_to_drain_only[where sr = 0 and w = ?u and p = 0 and rest = "[]",
      THEN conjunct2, THEN conjunct2, THEN conjunct1]
  have c3: "dials (Swarm__drain 0 ?u) = Suc (dials ?u) \<and> queue (swarm_objs (Swarm__drain 0 ?u) 0) = [] \<and>
            numConns 0 (Swarm__drain 0 ?u) = numConns 0 ?u"
    by blast
  have hd: "conn (peer_objs ?d 0) = None \<and> distinct (map snd (peers (swarm_objs ?d 0))) \<and>
            0 \<in> snd ` set (peers (swarm_objs ?d 0))"
    by (simp add: prim_defs op_defs num_defs Let_def)
  have d0: "dials ?d = 1 \<and> numConns 0 ?d = 0"
    by (simp add: prim_defs op_defs num_defs dials_def Let_def)
  from hd cap_applies_to_drain_only[where sr = 0 and w = ?d and p = 0 and c = 0 and t = 0,
      THEN conjunct2, THEN conjunct2, THEN conjunct2, THEN conjunct1]
  have "numConns 0 (snd (drain_onconnect 0 0 0 0 ?d)) = Suc (numConns 0 ?d)" by blast
  then have cd: "numConns 0 (snd (drain_onconnect 0 0 0 0 ?d)) = 1" using d0 by simp
  have h7: "distinct ?as \<and> list_all validAddr ?as" by (simp add: num_defs)
  have h8: "(\<forall>b\<in>set ?as. map_of (peers (swarm_objs ?f 0)) b = None) \<and>
            numConns 0 ?f < MAX_SIZE \<and> \<not> paused (swarm_objs ?f 0) \<and> queue (swarm_objs ?f 0) = [] \<and>
            \<not> destroyed (swarm_objs ?f 0) \<and>
            list_all (\<lambda>e. snd e < next_peer ?f) (peers (swarm_objs ?f 0))"
    by (simp add: prim_defs op_defs Let_def)
  have f0: "dials ?f = 0 \<and> numConns 0 ?f = 0" by (simp add: prim_defs op_defs dials_def Let_def)
  from h7 h8 cap_applies_to_drain_only[where sr = 0 and w = ?f and as = ?as,
      THEN conjunct2, THEN conjunct2, THEN conjunct2, THEN conjunct2, THEN conjunct1]
  have "dials (snd (run (map (Add 0) ?as) ?f)) = dials ?f + length ?as \<and>
        numConns 0 (snd (run (map (Add 0) ?as) ?f)) = numConns 0 ?f"
    by blast
  then have c4: "dials (snd (run (map (Add 0) ?as) ?f)) = 3 \<and> numConns 0 (snd (run (map (Add 0) ?as) ?f)) = 0"
    using f0 by simp
  have "incoming_inv 0 ?i" by (rule conjunct2[OF incoming_inv_init])
  then have v0: "next_conn ?i = 0" "next_peer ?i = 0" "next_wire ?i = 0" "peers (swarm_objs ?i 0) = []"
    by (simp_all add: incoming_inv_def)
  have h9: "wire (peer_objs ?v 0) = Some 0 \<and> conn (peer_objs ?v 0) = Some 0"
    using Pool__onconn_result(6)[of 0 "''9.9.9.9''" 4000 ?i 0]
      Pool__onconn_result(7)[of 0 "''9.9.9.9''" 4000 ?i] v0
    by simp
  have h10: "map_of (peers (swarm_objs ?v 0)) (wire_remoteAddress (wire_objs ?v 0)) = None"
    using v0 by (simp add: Pool__onconn_result(4))
  from h9 h10 cap_applies_to_drain_only[where sr = 0 and w = ?v and pr = 0 and wd = 0 and c = 0,
      THEN conjunct2, THEN conjunct2, THEN conjunct2, THEN conjunct2, THEN conjunct2]
  have c5: "fst (Swarm__onincoming 0 0 ?v) = None \<and>
           numConns 0 (snd (Swarm__onincoming 0 0 ?v)) = Suc (numConns 0 ?v)" by blast
  from h1 nd h2 h3 h4 c1' h5 c2 h6 c3 hd d0 cd h7 h8 c4 h9 h10 c5 show ?thesis
    unfolding Let_def by blast
qed

text \<open>C1 as stated fails: a pool's swarm that has adopted 101 remote peers, each after
  its handshake, has 101 peers with a socket.\<close>

theorem incoming_peers_exceed_cap:
  "(let r = run ([NewSwarm ''aa'', Listen 0 (Some 6881), ServerListening 0]
                 @ incoming_peers 0 ''aa'' 101) init
    in fst r = None \<and> numConns 0 (snd r) = 101 \<and> \<not> numConns 0 (snd r) \<le> MAX_CONNS)"
proof -
  let ?r = "run ([NewSwarm ''aa'', Listen 0 (Some 6881), ServerListening 0]
                 @ incoming_peers 0 ''aa'' 101) init"
  have a: "fst ?r = None" by (rule conjunct1[OF incoming_run])
  have "incoming_inv 101 (snd ?r)" by (rule conjunct2[OF incoming_run])
  then have n: "numConns 0 (snd ?r) = 101" by (rule incoming_inv_numConns)
  show ?thesis
    unfolding Let_def using a n by (simp add: MAX_CONNS_def)
qed

section \<open>Reconnecting with backoff\<close>

lemma silent_refl: "silent w w"
  by (simp add: silent_def)

lemma silent_trans: "silent w w' \<Longrightarrow> silent w' w'' \<Longrightarrow> silent w w''"
  unfolding silent_def by (metis le_trans)

lemma silent_remove: "silent w (Swarm__remove sr a w)"
  unfolding Swarm__remove_def Let_def
  by (simp add: silent_def reconnects_def prim_defs split: option.splits)

lemma silent_drain: "silent w (Swarm__drain sr w)"
  unfolding Swarm__drain_def Let_def
  by (simp add: silent_def reconnects_def prim_defs split: option.splits list.splits)

lemma silent_add: "silent w (Swarm_add sr a w)"
proof -
  have "silent w (upd_swarm sr f (upd_swarm sr g (snd (new_Peer a w))))" for f g
    by (simp add: silent_def reconnects_def prim_defs)
  then show ?thesis
    unfolding Swarm_add_def Let_def
    by (auto simp: silent_refl split: prod.splits intro: silent_trans[OF _ silent_drain])
qed


lemma silent_tracks: "silent w w' \<Longrightarrow> tracks pr w w'"
  unfolding silent_def tracks_def by (metis not_le)

lemma silent_keeps: "silent w w' \<Longrightarrow> keeps_bound w w'"
  unfolding silent_def keeps_bound_def by (metis le0)

lemma tracks_trans: "tracks pr w w' \<Longrightarrow> tracks pr w' w'' \<Longrightarrow> tracks pr w w''"
  unfolding tracks_def by auto

lemma keeps_bound_trans: "keeps_bound w w' \<Longrightarrow> keeps_bound w' w'' \<Longrightarrow> keeps_bound w w''"
  unfolding keeps_bound_def by blast

lemma silent_upd_swarm: "silent w (upd_swarm sr f w)"
  by (simp add: silent_def reconnects_def prim_defs)

lemma silent_pause: "silent w (Swarm_pause sr w)"
  by (simp add: Swarm_pause_def silent_upd_swarm)

lemma silent_resume: "silent w (Swarm_resume sr w)"
  unfolding Swarm_resume_def by (rule silent_trans[OF silent_upd_swarm silent_drain])

lemma silent_Swarm_remove: "silent w (Swarm_remove sr a w)"
  unfolding Swarm_remove_def by (rule silent_trans[OF silent_remove silent_drain])

lemma silent_conn_destroy: "silent w (conn_destroy c w)"
  by (simp add: silent_def reconnects_def prim_defs)

lemma silent_upd_pool: "silent w (upd_pool pl f w)"
  by (simp add: silent_def reconnects_def prim_defs)

lemma silent_Pool_destroy: "silent w (Pool_destroy pl w)"
proof -
  have a: "silent w (foldl (\<lambda>v c. conn_destroy c v) w cs)" for cs
  proof (induction cs arbitrary: w)
    case Nil
    show ?case by (simp add: silent_refl)
  next
    case (Cons c cs)
    have "silent w (foldl (\<lambda>v c. conn_destroy c v) (conn_destroy c w) cs)"
      by (rule silent_trans[OF silent_conn_destroy Cons])
    then show ?case by simp
  qed
  have b: "silent v (call (ServerClose pl) (upd_pool pl f v))" for v f
    by (simp add: silent_def reconnects_def prim_defs)
  show ?thesis
    unfolding Pool_destroy_def Let_def by (rule silent_trans[OF a b])
qed

lemma silent_if: "silent w a \<Longrightarrow> silent w b \<Longrightarrow> silent w (if c then a else b)"
  by simp

lemma silent_Pool_removeSwarm: "silent w (Pool_removeSwarm pl sr w)"
  unfolding Pool_removeSwarm_def Let_def
  by (rule silent_if, rule silent_trans[OF silent_upd_pool silent_Pool_destroy], rule silent_upd_pool)

lemma silent_pools_update: "silent w (w\<lparr>pools := x\<rparr>)"
  by (simp add: silent_def reconnects_def)

lemma silent_Pool_remove: "silent w (Pool_remove sr w)"
proof (cases "map_of (pools w) (port (swarm_objs w sr))")
  case None
  then show ?thesis by (simp add: Pool_remove_def silent_refl)
next
  case (Some pl)
  have "silent w ((Pool_removeSwarm pl sr w)\<lparr>pools := x\<rparr>)" for x
    by (rule silent_trans[OF silent_Pool_removeSwarm silent_pools_update])
  then show ?thesis using Some
    by (simp add: Pool_remove_def Let_def silent_Pool_removeSwarm)
qed

lemma silent_Pool_addSwarm: "silent w (Pool_addSwarm pl sr w)"
  unfolding Pool_addSwarm_def Let_def
  by (simp add: silent_def reconnects_def prim_defs)

lemma silent_Pool_add: "silent w (Pool_add sr w)"
proof (cases "map_of (pools w) (port (swarm_objs w sr))")
  case (Some pl)
  then show ?thesis by (simp add: Pool_add_def silent_Pool_addSwarm)
next
  case None
  have a: "silent w ((snd (new_Pool pt w))\<lparr>pools := x\<rparr>)" for pt x
    by (simp add: silent_def reconnects_def prim_defs)
  show ?thesis using None
    unfolding Pool_add_def Let_def split_def
    by (simp only: option.case) (rule silent_trans[OF a silent_Pool_addSwarm])
qed

lemma silent_emit: "silent w (emit sr e w)"
  by (simp add: silent_def reconnects_def prim_defs)

lemma silent_listen_onPort: "silent w (listen_onPort sr err pt w)"
proof (cases err)
  case None
  then show ?thesis
    by (simp add: listen_onPort_def) (rule silent_trans[OF silent_upd_swarm silent_Pool_add])
next
  case (Some e)
  then show ?thesis by (simp add: listen_onPort_def silent_emit)
qed

lemma silent_call_portfinder: "silent w (call (PortfinderGetPort sr) w)"
  by (simp add: silent_def reconnects_def prim_defs)

lemma silent_listen: "silent w (Swarm_listen sr pt w)"
  unfolding Swarm_listen_def
  by (simp add: silent_listen_onPort silent_call_portfinder split: option.splits)

lemma silent_remove_all: "silent w (foldl (\<lambda>v a. Swarm__remove sr a v) w ks)"
proof (induction ks arbitrary: w)
  case Nil
  show ?case by (simp add: silent_refl)
next
  case (Cons k ks)
  have "silent w (foldl (\<lambda>v a. Swarm__remove sr a v) (Swarm__remove sr k w) ks)"
    by (rule silent_trans[OF silent_remove Cons])
  then show ?case by simp
qed

lemma silent_nextTick: "silent w (nextTick tk w)"
  by (simp add: silent_def reconnects_def prim_defs)

lemma silent_destroy: "silent w (Swarm_destroy sr w)"
  unfolding Swarm_destroy_def Let_def
  by (rule silent_trans[OF silent_trans[OF silent_trans[OF silent_upd_swarm silent_remove_all] silent_Pool_remove] silent_nextTick])

lemma silent_new_Swarm: "silent w (snd (new_Swarm ih w))"
  by (simp add: silent_def reconnects_def prim_defs)


lemma silent_good: "silent w w' \<Longrightarrow> good pr w w'"
  by (simp add: good_def silent_tracks silent_keeps)

lemma good_trans: "good pr w w' \<Longrightarrow> good pr w' w'' \<Longrightarrow> good pr w w''"
  unfolding good_def by (blast intro: tracks_trans keeps_bound_trans)

lemma good_refl: "good pr w w"
  by (simp add: silent_good silent_refl)

lemma keeps_bound_refl: "keeps_bound w w"
  by (simp add: keeps_bound_def)

lemma silent_and_then:
  assumes "silent w (snd r)" "\<And>v. silent v (snd (f v))"
  shows "silent w (snd (and_then r f))"
proof (cases r)
  case (Pair x v)
  show ?thesis
  proof (cases x)
    case None
    then show ?thesis using Pair assms(1) assms(2)[of v]
      by (auto simp: and_then_def intro: silent_trans)
  next
    case (Some e)
    then show ?thesis using Pair assms(1) by (simp add: and_then_def)
  qed
qed

lemma good_and_then:
  assumes "good pr w (snd r)" "\<And>v. good pr v (snd (f v))"
  shows "good pr w (snd (and_then r f))"
proof (cases r)
  case (Pair x v)
  show ?thesis
  proof (cases x)
    case None
    then show ?thesis using Pair assms(1) assms(2)[of v]
      by (auto simp: and_then_def intro: good_trans)
  next
    case (Some e)
    then show ?thesis using Pair assms(1) by (simp add: and_then_def)
  qed
qed

lemma keeps_bound_and_then:
  assumes "keeps_bound w (snd r)" "\<And>v. keeps_bound v (snd (f v))"
  shows "keeps_bound w (snd (and_then r f))"
proof (cases r)
  case (Pair x v)
  show ?thesis
  proof (cases x)
    case None
    then show ?thesis using Pair assms(1) assms(2)[of v]
      by (auto simp: and_then_def intro: keeps_bound_trans)
  next
    case (Some e)
    then show ?thesis using Pair assms(1) by (simp add: and_then_def)
  qed
qed

lemma silent_Peer_onconnect: "silent w (Peer_onconnect pr c w)"
  unfolding Peer_onconnect_def Let_def
  by (simp add: silent_def reconnects_def prim_defs)

lemma silent_Swarm__onconn: "silent w (snd (Swarm__onconn sr pr w))"
  unfolding Swarm__onconn_def
  by (simp add: silent_def reconnects_def prim_defs split: option.splits)

lemma silent_drain_onconnect: "silent w (snd (drain_onconnect sr pr c t w))"
proof -
  have a: "silent w (snd (Swarm__onconn sr pr (Peer_onconnect pr c w)))"
    by (rule silent_trans[OF silent_Peer_onconnect silent_Swarm__onconn])
  have b: "silent v (snd (case wire (peer_objs v pr) of
                None \<Rightarrow> throw (TypeError ''wire is null'') v
              | Some wd \<Rightarrow>
                  (let w2 = wire_on wd KHandshake False (DrainHandshake sr pr t) v;
                       w3 = wire_on wd KEnd False (DrainWireEnd sr pr wd) w2
                   in ok (call (WireHandshake wd sr) w3))))" for v
    by (simp add: silent_def reconnects_def prim_defs Let_def split: option.splits)
  show ?thesis
    unfolding drain_onconnect_def by (rule silent_and_then[OF a b])
qed

lemma silent_peer_conn_destroy: "silent w (snd (peer_conn_destroy pr d w))"
  unfolding peer_conn_destroy_def Let_def
  by (simp add: silent_def reconnects_def prim_defs split: option.splits)

lemma silent_onwire_cleanup: "silent w (snd (onwire_cleanup sr wd co cl w))"
  unfolding onwire_cleanup_def Let_def
  by (simp add: silent_def reconnects_def prim_defs split: option.splits)

lemma silent_onwire_download: "silent w (onwire_download sr n w)"
  by (simp add: onwire_download_def silent_def reconnects_def prim_defs)

lemma silent_onwire_upload: "silent w (onwire_upload sr n w)"
  by (simp add: onwire_upload_def silent_def reconnects_def prim_defs)

lemma silent_pool_conn_onclose: "silent w (pool_conn_onclose pl c w)"
  by (simp add: pool_conn_onclose_def silent_upd_pool)

lemma silent_readd: "silent w (readd sr pr w)"
  unfolding readd_def by (rule silent_trans[OF silent_upd_swarm silent_drain])

lemma silent_retry_listen: "silent w (retry_listen pl w)"
  unfolding retry_listen_def Let_def
  by (simp add: silent_def reconnects_def prim_defs)

lemma silent_wire_end: "silent w (wire_end wd w)"
  by (simp add: silent_def reconnects_def prim_defs)

lemma silent_upd_peer_wire: "silent w (upd_peer pr (\<lambda>p. p\<lparr>wire := x\<rparr>) w)"
  by (simp add: silent_def reconnects_def prim_defs)

lemma silent_console: "silent w (call (ConsoleLog x) w)"
  by (simp add: silent_def reconnects_def prim_defs)

lemma good_drain_wire_onend: "good pr w (drain_wire_onend sr p wd w)"
proof (cases "destroyed (swarm_objs w sr) \<or> wire_destroyed (wire_objs w wd)
         \<or> retries (peer_objs w p) \<ge> length RECONNECT_WAIT")
  case True
  then show ?thesis
    by (simp add: drain_wire_onend_def silent_good silent_remove)
next
  case False
  then show ?thesis
    unfolding drain_wire_onend_def Let_def
    by (simp add: good_def tracks_def keeps_bound_def reconnects_def prim_defs)
qed

lemma keeps_Swarm__onwire: "keeps_bound w (snd (Swarm__onwire sr pr w))"
  unfolding Swarm__onwire_def Let_def
  by (simp add: keeps_bound_def prim_defs split: option.splits)

lemma keeps_Swarm__onincoming: "keeps_bound w (snd (Swarm__onincoming sr pr w))"
proof (cases "wire (peer_objs w pr)")
  case None
  then show ?thesis by (simp add: Swarm__onincoming_def throw_def keeps_bound_refl)
next
  case (Some wd)
  have a: "keeps_bound w (snd (Swarm__onconn sr pr (call (WireHandshake wd sr) (upd_swarm sr f w))))" for f
    by (rule silent_keeps, rule silent_trans[OF _ silent_Swarm__onconn])
       (simp add: silent_def reconnects_def prim_defs)
  show ?thesis using Some
    unfolding Swarm__onincoming_def Let_def
    by (simp only: option.case) (rule keeps_bound_and_then[OF a keeps_Swarm__onwire])
qed

lemma silent_clearTimeout: "silent w (clearTimeout t w)"
  by (simp add: silent_def reconnects_def prim_defs)

lemma keeps_drain_onhandshake: "keeps_bound w (snd (drain_onhandshake sr pr t ih w))"
proof -
  have a: "keeps_bound (clearTimeout t w) (snd (case conn (peer_objs (clearTimeout t w) pr) of
                 None \<Rightarrow> throw (TypeError ''peer.conn is null'') (clearTimeout t w)
               | Some c \<Rightarrow> ok (conn_destroy c (clearTimeout t w))))"
    by (simp add: keeps_bound_def prim_defs split: option.splits)
  have "keeps_bound (clearTimeout t w) (snd (drain_onhandshake sr pr t ih w))"
    unfolding drain_onhandshake_def Let_def
    using a keeps_Swarm__onwire[of "clearTimeout t w" sr pr] by simp
  then show ?thesis
    by (rule keeps_bound_trans[OF silent_keeps[OF silent_clearTimeout]])
qed

lemma keeps_pool_onhandshake: "keeps_bound w (snd (pool_onhandshake pl c pr t ih w))"
proof -
  have "keeps_bound (clearTimeout t w) (snd (pool_onhandshake pl c pr t ih w))"
    unfolding pool_onhandshake_def Let_def
    using keeps_Swarm__onincoming[of "clearTimeout t w" _ pr]
          silent_keeps[OF silent_conn_destroy[of "clearTimeout t w" c]]
    by (simp add: ok_def split: option.splits)
  then show ?thesis
    by (rule keeps_bound_trans[OF silent_keeps[OF silent_clearTimeout]])
qed


lemma silent_ok: "silent w (snd (ok w))"
  by (simp add: ok_def silent_refl)

lemma good_run_handler:
  "\<not> handshake_event ev \<Longrightarrow> good pr w (snd (run_handler h ev w))"
  by (cases h; cases ev)
     (simp_all add: ok_def good_refl good_drain_wire_onend
        silent_good[OF silent_peer_conn_destroy] silent_good[OF silent_wire_end]
        silent_good[OF silent_upd_peer_wire] silent_good[OF silent_pool_conn_onclose]
        silent_good[OF silent_drain_onconnect] silent_good[OF silent_console]
        silent_good[OF silent_drain] silent_good[OF silent_onwire_download]
        silent_good[OF silent_onwire_upload] silent_good[OF silent_onwire_cleanup])

lemma keeps_run_handler: "keeps_bound w (snd (run_handler h ev w))"
proof (cases "handshake_event ev")
  case False
  then show ?thesis using good_run_handler[of ev _ w h] by (simp add: good_def)
next
  case True
  then obtain ih where ev: "ev = EvHandshake ih" by (cases ev) auto
  show ?thesis unfolding ev
    by (cases h)
       (simp_all add: ok_def keeps_bound_refl keeps_pool_onhandshake keeps_drain_onhandshake
          silent_keeps[OF silent_peer_conn_destroy] silent_keeps[OF silent_wire_end]
          silent_keeps[OF silent_upd_peer_wire] silent_keeps[OF silent_pool_conn_onclose]
          silent_keeps[OF silent_drain_onconnect] silent_keeps[OF silent_console]
          silent_keeps[OF silent_drain] silent_keeps[OF silent_onwire_cleanup]
          good_drain_wire_onend[unfolded good_def, THEN conjunct2])
qed

lemma good_run_listeners:
  assumes "\<not> handshake_event ev" "\<And>l v. silent v (off l v)"
  shows "good pr w (snd (run_listeners off ev ls w))"
proof (induction ls arbitrary: w)
  case Nil
  show ?case by (simp add: ok_def good_refl)
next
  case (Cons l ls)
  have a: "good pr w (snd (run_handler (snd (snd l)) ev (if fst (snd l) then off l w else w)))"
  proof (cases "fst (snd l)")
    case True
    then show ?thesis
      using good_trans[OF silent_good[OF assms(2)[of w l]] good_run_handler[OF assms(1)]] by simp
  next
    case False
    then show ?thesis using good_run_handler[OF assms(1)] by simp
  qed
  show ?case
    by (simp only: run_listeners.simps) (rule good_and_then[OF a Cons])
qed

lemma keeps_run_listeners:
  assumes "\<And>l v. silent v (off l v)"
  shows "keeps_bound w (snd (run_listeners off ev ls w))"
proof (induction ls arbitrary: w)
  case Nil
  show ?case by (simp add: ok_def keeps_bound_refl)
next
  case (Cons l ls)
  have a: "keeps_bound w (snd (run_handler (snd (snd l)) ev (if fst (snd l) then off l w else w)))"
  proof (cases "fst (snd l)")
    case True
    then show ?thesis
      using keeps_bound_trans[OF silent_keeps[OF assms[of w l]] keeps_run_handler] by simp
  next
    case False
    then show ?thesis using keeps_run_handler by simp
  qed
  show ?case
    by (simp only: run_listeners.simps) (rule keeps_bound_and_then[OF a Cons])
qed

lemma silent_conn_off: "silent v (conn_off c l v)"
  by (simp add: conn_off_def silent_def reconnects_def prim_defs)

lemma silent_wire_off: "silent v (wire_off wd l v)"
  by (simp add: wire_off_def silent_def reconnects_def prim_defs)

lemma silent_Pool__onlistening: "silent w (Pool__onlistening pl w)"
proof -
  have a: "silent w (foldl (\<lambda>v e. emit (snd e) (Listening (Some (pool_port (pool_objs v pl)))) v) w es)" for w es
  proof (induction es arbitrary: w)
    case Nil
    show ?case by (simp add: silent_refl)
  next
    case (Cons e es)
    have "silent w (foldl (\<lambda>v e. emit (snd e) (Listening (Some (pool_port (pool_objs v pl)))) v)
             (emit (snd e) (Listening (Some (pool_port (pool_objs w pl)))) w) es)"
      by (rule silent_trans[OF silent_emit Cons])
    then show ?case by simp
  qed
  show ?thesis
    unfolding Pool__onlistening_def Let_def by (rule silent_trans[OF silent_upd_pool a])
qed

lemma silent_Pool__onconn: "silent w (Pool__onconn pl ra rp w)"
  unfolding Pool__onconn_def Peer_onconnect_def Let_def
  by (simp add: silent_def reconnects_def prim_defs split: option.splits)

lemma silent_Pool__onerror: "silent w (snd (Pool__onerror pl code msg w))"
  unfolding Pool__onerror_def Let_def
  by (simp add: silent_def reconnects_def prim_defs)

lemma silent_timer_fires: "silent w (timer_fires t w)"
proof (cases "map_of (timers w) t")
  case None
  then show ?thesis by (simp add: timer_fires_def silent_refl)
next
  case (Some dc)
  obtain d cb where dc: "dc = (d, cb)" by (cases dc)
  have a: "silent w (w\<lparr>timers := x\<rparr>)" for x
    by (simp add: silent_def reconnects_def)
  have b: "silent v (run_callback cb v)" for v
    by (cases cb) (simp_all add: silent_conn_destroy silent_readd silent_retry_listen)
  show ?thesis using Some dc
    by (simp add: timer_fires_def) (rule silent_trans[OF a b])
qed

lemma silent_tick: "silent w (tick w)"
proof (cases "ticks w")
  case Nil
  then show ?thesis by (simp add: tick_def silent_refl)
next
  case (Cons tk rest)
  have a: "silent w (w\<lparr>ticks := x\<rparr>)" for x
    by (simp add: silent_def reconnects_def)
  have b: "silent v (run_tick tk v)" for v
    by (cases tk) (simp add: silent_emit)
  show ?thesis using Cons
    by (simp add: tick_def) (rule silent_trans[OF a b])
qed

lemma stable_refl: "stable w w"
  by (simp add: stable_def)

lemma stable_trans: "stable w w' \<Longrightarrow> stable w' w'' \<Longrightarrow> stable w w''"
  by (simp add: stable_def)

lemma accepts_stable: "stable w w' \<Longrightarrow> accepts_handshake pr ih w' h = accepts_handshake pr ih w h"
  by (cases h) (simp_all add: stable_def)

lemma stable_remove: "stable w (Swarm__remove sr a w)"
  unfolding Swarm__remove_def Let_def
  by (simp add: stable_def prim_defs split: option.splits)

lemma stable_drain: "stable w (Swarm__drain sr w)"
  unfolding Swarm__drain_def Let_def
  by (simp add: stable_def prim_defs split: option.splits list.splits)

lemma stable_Swarm__onwire: "stable w (snd (Swarm__onwire sr pr w))"
  unfolding Swarm__onwire_def Let_def
  by (simp add: stable_def prim_defs split: option.splits)

lemma stable_Swarm__onincoming: "stable w (snd (Swarm__onincoming sr pr w))"
  unfolding Swarm__onincoming_def Swarm__onconn_def Swarm__onwire_def Let_def
  by (simp add: stable_def prim_defs split: option.splits)

lemma stable_drain_onhandshake: "stable w (snd (drain_onhandshake sr pr t ih w))"
  unfolding drain_onhandshake_def Swarm__onwire_def Let_def
  by (simp add: stable_def prim_defs split: option.splits)

lemma stable_pool_onhandshake: "stable w (snd (pool_onhandshake pl c pr t ih w))"
proof -
  have a: "stable w (clearTimeout t w)" by (simp add: stable_def prim_defs)
  have b: "stable (clearTimeout t w) (conn_destroy c (clearTimeout t w))" by (simp add: stable_def prim_defs)
  show ?thesis
    unfolding pool_onhandshake_def Let_def
    using stable_trans[OF a stable_Swarm__onincoming] stable_trans[OF a b]
    by (simp add: ok_def split: option.splits)
qed

lemma stable_drain_onconnect: "stable w (snd (drain_onconnect sr pr c t w))"
  unfolding drain_onconnect_def Swarm__onconn_def Peer_onconnect_def Let_def
  by (simp add: stable_def prim_defs split: option.splits)

lemma stable_drain_wire_onend: "stable w (drain_wire_onend sr pr wd w)"
proof (cases "destroyed (swarm_objs w sr) \<or> wire_destroyed (wire_objs w wd)
         \<or> retries (peer_objs w pr) \<ge> length RECONNECT_WAIT")
  case True
  then show ?thesis by (simp add: drain_wire_onend_def stable_remove)
next
  case False
  then show ?thesis
    unfolding drain_wire_onend_def Let_def by (simp add: stable_def prim_defs)
qed

lemma stable_run_handler: "stable w (snd (run_handler h ev w))"
  by (cases h; cases ev)
     (simp_all add: ok_def stable_refl stable_drain stable_drain_onhandshake stable_pool_onhandshake
        stable_drain_onconnect stable_drain_wire_onend,
      simp_all add: stable_def prim_defs peer_conn_destroy_def onwire_cleanup_def pool_conn_onclose_def
        onwire_download_def onwire_upload_def Let_def split: option.splits)

lemma stable_conn_off: "stable v (conn_off c l v)"
  by (simp add: conn_off_def stable_def prim_defs)

lemma stable_wire_off: "stable v (wire_off wd l v)"
  by (simp add: wire_off_def stable_def prim_defs)

lemma tracks_Swarm__onwire_other: "p \<noteq> pr \<Longrightarrow> tracks pr w (snd (Swarm__onwire sr p w))"
  unfolding Swarm__onwire_def Let_def
  by (simp add: tracks_def reconnects_def prim_defs split: option.splits)

lemma tracks_Swarm__onincoming_other: "p \<noteq> pr \<Longrightarrow> tracks pr w (snd (Swarm__onincoming sr p w))"
  unfolding Swarm__onincoming_def Swarm__onconn_def Swarm__onwire_def Let_def
  by (simp add: tracks_def reconnects_def prim_defs split: option.splits)

lemma good_drain_onhandshake:
  assumes "\<not> (p = pr \<and> ih = infoHash (swarm_objs w sr))"
  shows "good pr w (snd (drain_onhandshake sr p t ih w))"
proof -
  have "tracks pr w (snd (drain_onhandshake sr p t ih w))"
    using assms
    unfolding drain_onhandshake_def Swarm__onwire_def Let_def
    by (auto simp: tracks_def reconnects_def prim_defs split: option.splits)
  then show ?thesis by (simp add: good_def keeps_drain_onhandshake)
qed

lemma good_pool_onhandshake:
  assumes "\<not> (p = pr \<and> map_of (swarms (pool_objs w pl)) ih \<noteq> None)"
  shows "good pr w (snd (pool_onhandshake pl c p t ih w))"
proof -
  have "tracks pr w (snd (pool_onhandshake pl c p t ih w))"
    using assms
    unfolding pool_onhandshake_def Swarm__onincoming_def Swarm__onconn_def Swarm__onwire_def Let_def
    by (auto simp: tracks_def reconnects_def prim_defs split: option.splits)
  then show ?thesis by (simp add: good_def keeps_pool_onhandshake)
qed

lemma good_run_handler_handshake:
  "\<not> accepts_handshake pr ih w h \<Longrightarrow> good pr w (snd (run_handler h (EvHandshake ih) w))"
  by (cases h)
     (simp_all add: ok_def good_refl good_drain_wire_onend good_drain_onhandshake good_pool_onhandshake
        silent_good[OF silent_peer_conn_destroy] silent_good[OF silent_wire_end]
        silent_good[OF silent_upd_peer_wire] silent_good[OF silent_pool_conn_onclose]
        silent_good[OF silent_drain_onconnect] silent_good[OF silent_console]
        silent_good[OF silent_drain] silent_good[OF silent_onwire_cleanup])

lemma snd_and_then: "snd (and_then r f) = (if fst r = None then snd (f (snd r)) else snd r)"
  by (cases r) (auto simp: and_then_def)

lemma good_run_listeners_handshake:
  assumes "\<And>l v. silent v (off l v)" "\<And>l v. stable v (off l v)"
    and "\<forall>l\<in>set ls. \<not> accepts_handshake pr ih w (snd (snd l))"
  shows "good pr w (snd (run_listeners off (EvHandshake ih) ls w))"
  using assms(3)
proof (induction ls arbitrary: w)
  case Nil
  show ?case by (simp add: ok_def good_refl)
next
  case (Cons l ls)
  define w1 where "w1 = (if fst (snd l) then off l w else w)"
  define r where "r = run_handler (snd (snd l)) (EvHandshake ih) w1"
  have s1: "silent w w1" by (simp add: w1_def assms(1) silent_refl)
  have t1: "stable w w1" by (simp add: w1_def assms(2) stable_refl)
  from Cons.prems have "\<not> accepts_handshake pr ih w (snd (snd l))" by simp
  then have "\<not> accepts_handshake pr ih w1 (snd (snd l))" by (simp add: accepts_stable[OF t1])
  then have g1: "good pr w1 (snd r)" unfolding r_def by (rule good_run_handler_handshake)
  have g: "good pr w (snd r)" by (rule good_trans[OF silent_good[OF s1] g1])
  have t: "stable w (snd r)" unfolding r_def by (rule stable_trans[OF t1 stable_run_handler])
  from Cons.prems have "\<forall>l\<in>set ls. \<not> accepts_handshake pr ih (snd r) (snd (snd l))"
    by (simp add: accepts_stable[OF t])
  then have ih: "good pr (snd r) (snd (run_listeners off (EvHandshake ih) ls (snd r)))"
    by (rule Cons.IH)
  have e: "run_listeners off (EvHandshake ih) (l # ls) w = and_then r (run_listeners off (EvHandshake ih) ls)"
    by (simp add: r_def w1_def)
  show ?case
    unfolding e snd_and_then using g good_trans[OF g ih] by simp
qed

lemma good_step: "\<not> completes_handshake pr i w \<Longrightarrow> good pr w (snd (step i w))"
proof (cases "\<exists>x ih. i = WireEmits x (EvHandshake ih) \<or> i = ConnEmits x (EvHandshake ih)")
  case False
  then have ne: "\<And>x ev. i = WireEmits x ev \<or> i = ConnEmits x ev \<Longrightarrow> \<not> handshake_event ev"
    by (metis handshake_event.elims(2))
  show ?thesis
  proof (cases i)
    case (ConnEmits c ev)
    then show ?thesis using ne[of c ev]
      by (simp add: conn_emits_def good_run_listeners silent_conn_off)
  next
    case (WireEmits wd ev)
    then show ?thesis using ne[of wd ev]
      by (simp add: wire_emits_def good_run_listeners silent_wire_off)
  qed (simp_all add: ok_def silent_good silent_new_Swarm silent_add silent_Swarm_remove silent_pause
        silent_resume silent_listen silent_destroy silent_listen_onPort silent_timer_fires silent_tick
        silent_Pool__onlistening silent_Pool__onconn silent_Pool__onerror)
next
  case True
  assume n: "\<not> completes_handshake pr i w"
  from True obtain x ih where "i = WireEmits x (EvHandshake ih) \<or> i = ConnEmits x (EvHandshake ih)" by blast
  then show ?thesis
  proof
    assume i: "i = WireEmits x (EvHandshake ih)"
    with n have "\<forall>l\<in>set (filter (\<lambda>l. fst l = kind_of (EvHandshake ih)) (wire_listeners (wire_objs w x))).
                   \<not> accepts_handshake pr ih w (snd (snd l))"
      by (auto simp: list_ex_iff)
    then show ?thesis unfolding i
      by (simp only: step.simps wire_emits_def)
         (rule good_run_listeners_handshake[OF silent_wire_off stable_wire_off])
  next
    assume i: "i = ConnEmits x (EvHandshake ih)"
    with n have "\<forall>l\<in>set (filter (\<lambda>l. fst l = kind_of (EvHandshake ih)) (conn_listeners (conn_objs w x))).
                   \<not> accepts_handshake pr ih w (snd (snd l))"
      by (auto simp: list_ex_iff)
    then show ?thesis unfolding i
      by (simp only: step.simps conn_emits_def)
         (rule good_run_listeners_handshake[OF silent_conn_off stable_conn_off])
  qed
qed

lemma keeps_step: "keeps_bound w (snd (step i w))"
  by (cases i)
     (simp_all add: ok_def silent_keeps silent_new_Swarm silent_add silent_Swarm_remove silent_pause
        silent_resume silent_listen silent_destroy silent_listen_onPort silent_timer_fires silent_tick
        silent_Pool__onlistening silent_Pool__onconn silent_Pool__onerror
        wire_emits_def conn_emits_def keeps_run_listeners silent_wire_off silent_conn_off)

lemma good_run: "no_handshake_of pr ins w \<Longrightarrow> good pr w (snd (run ins w))"
proof (induction ins arbitrary: w)
  case Nil
  show ?case by (simp add: ok_def good_refl)
next
  case (Cons i ins)
  then have a: "good pr w (snd (step i w))"
    and b: "good pr (snd (step i w)) (snd (run ins (snd (step i w))))"
    by (simp_all add: good_step)
  show ?case
    unfolding run.simps snd_and_then using a good_trans[OF a b] by simp
qed

lemma keeps_run: "keeps_bound w (snd (run ins w))"
proof (induction ins arbitrary: w)
  case Nil
  show ?case by (simp add: ok_def keeps_bound_refl)
next
  case (Cons i ins)
  show ?case
    by (simp only: run.simps) (rule keeps_bound_and_then[OF keeps_step Cons])
qed

lemma reconnects_bounded:
  assumes "pr < next_peer w" "\<forall>p. retries (peer_objs w p) \<le> length RECONNECT_WAIT"
    "no_handshake_of pr ins w"
  shows "reconnects pr (snd (run ins w)) + retries (peer_objs w pr) \<le> reconnects pr w + length RECONNECT_WAIT"
proof -
  let ?w' = "snd (run ins w)"
  from good_run[OF assms(3)] assms(1)
  have e: "reconnects pr ?w' + retries (peer_objs w pr) = reconnects pr w + retries (peer_objs ?w' pr)"
    by (simp add: good_def tracks_def)
  from keeps_run[of w ins] assms(2) have "retries (peer_objs ?w' pr) \<le> length RECONNECT_WAIT"
    by (simp add: keeps_bound_def)
  with e show ?thesis by simp
qed


lemma drain_onconnect_result:
  shows "fst (drain_onconnect sr pr c t w) = None"
    and "conn (peer_objs (snd (drain_onconnect sr pr c t w)) pr) = Some c"
    and "wire (peer_objs (snd (drain_onconnect sr pr c t w)) pr) = Some (next_wire w)"
    and "wire_listeners (wire_objs (snd (drain_onconnect sr pr c t w)) (next_wire w)) =
           [(KEnd, True, PeerWireEnd pr), (KHandshake, False, DrainHandshake sr pr t),
            (KEnd, False, DrainWireEnd sr pr (next_wire w))]"
  unfolding drain_onconnect_def Swarm__onconn_def Peer_onconnect_def Let_def
  by (simp_all add: prim_defs)

lemma wire_end_dispatch:
  assumes "wire_listeners (wire_objs w wd) =
             [(KEnd, True, PeerWireEnd pr), (KHandshake, False, DrainHandshake sr pr t),
              (KEnd, False, DrainWireEnd sr pr wd)] @ rest"
  shows "wire_emits wd EvEnd w =
           and_then
             (ok (drain_wire_onend sr pr wd
                    (upd_peer pr (\<lambda>p. p\<lparr>wire := None\<rparr>) (wire_off wd (KEnd, True, PeerWireEnd pr) w))))
             (run_listeners (wire_off wd) EvEnd (filter (\<lambda>l. fst l = KEnd) rest))"
  using assms by (simp add: wire_emits_def and_then_def ok_def)

lemma Swarm__onwire_resets:
  shows "retries (peer_objs (snd (Swarm__onwire sr pr w)) pr) = 0"
    and "reconnects p (snd (Swarm__onwire sr pr w)) = reconnects p w"
  unfolding Swarm__onwire_def Let_def
  by (simp_all add: reconnects_def prim_defs split: option.splits)

lemma drain_onhandshake_cases:
  shows "ih = infoHash (swarm_objs w sr) \<Longrightarrow>
           drain_onhandshake sr pr t ih w = Swarm__onwire sr pr (clearTimeout t w)"
    and "ih \<noteq> infoHash (swarm_objs w sr) \<Longrightarrow>
           retries (peer_objs (snd (drain_onhandshake sr pr t ih w)) p) = retries (peer_objs w p)"
  unfolding drain_onhandshake_def Let_def
  by (simp_all add: prim_defs split: option.splits)

lemma Swarm__onincoming_listeners:
  assumes "wire (peer_objs w pr) = Some wd" "conn (peer_objs w pr) = Some c"
  shows "wire_listeners (wire_objs (snd (Swarm__onincoming sr pr w)) wd) =
           wire_listeners (wire_objs w wd) @
           [(KDownload, False, OnwireDownload sr), (KUpload, False, OnwireUpload sr),
            (KEnd, False, OnwireCleanup sr wd (Some c) (next_once w)),
            (KClose, False, OnwireCleanup sr wd (Some c) (next_once w)),
            (KError, False, OnwireCleanup sr wd (Some c) (next_once w)),
            (KFinish, False, OnwireCleanup sr wd (Some c) (next_once w))]"
  using assms
  unfolding Swarm__onincoming_def Swarm__onconn_def Swarm__onwire_def Let_def
  by (simp add: prim_defs)

lemma own_end_listeners_quiet:
  assumes "list_all (\<lambda>l. own_end_listener (snd (snd l))) ls"
  shows "peers (swarm_objs (snd (run_listeners (wire_off wd) ev ls w)) sr) = peers (swarm_objs w sr) \<and>
         queue (swarm_objs (snd (run_listeners (wire_off wd) ev ls w)) sr) = queue (swarm_objs w sr) \<and>
         reconnects p (snd (run_listeners (wire_off wd) ev ls w)) = reconnects p w"
  using assms
proof (induction ls arbitrary: w)
  case Nil
  show ?case by (simp add: ok_def)
next
  case (Cons l ls)
  define w1 where "w1 = (if fst (snd l) then wire_off wd l w else w)"
  define r where "r = run_handler (snd (snd l)) ev w1"
  have a: "peers (swarm_objs w1 sr) = peers (swarm_objs w sr) \<and>
           queue (swarm_objs w1 sr) = queue (swarm_objs w sr) \<and> reconnects p w1 = reconnects p w"
    by (simp add: w1_def wire_off_def reconnects_def prim_defs)
  from Cons.prems have "own_end_listener (snd (snd l))" by simp
  then have b: "peers (swarm_objs (snd r) sr) = peers (swarm_objs w1 sr) \<and>
           queue (swarm_objs (snd r) sr) = queue (swarm_objs w1 sr) \<and> reconnects p (snd r) = reconnects p w1"
    unfolding r_def
    by (cases "snd (snd l)")
       (simp_all add: onwire_cleanup_def reconnects_def prim_defs Let_def split: option.splits)
  from Cons.prems have "list_all (\<lambda>l. own_end_listener (snd (snd l))) ls" by simp
  note ih = Cons.IH[OF this, of "snd r"]
  have e: "run_listeners (wire_off wd) ev (l # ls) w = and_then r (run_listeners (wire_off wd) ev ls)"
    by (simp add: r_def w1_def)
  show ?case
    unfolding e snd_and_then using a b ih by simp
qed

lemma incoming_wire_end_quiet:
  assumes "list_all (\<lambda>l. fst l = KEnd \<longrightarrow> own_end_listener (snd (snd l))) (wire_listeners (wire_objs w wd))"
  shows "peers (swarm_objs (snd (wire_emits wd EvEnd w)) sr) = peers (swarm_objs w sr) \<and>
         queue (swarm_objs (snd (wire_emits wd EvEnd w)) sr) = queue (swarm_objs w sr) \<and>
         reconnects p (snd (wire_emits wd EvEnd w)) = reconnects p w"
proof -
  have "list_all (\<lambda>l. own_end_listener (snd (snd l)))
          (filter (\<lambda>l. fst l = kind_of EvEnd) (wire_listeners (wire_objs w wd)))"
    using assms by (auto simp: list_all_iff)
  then show ?thesis
    unfolding wire_emits_def by (rule own_end_listeners_quiet)
qed

lemma handler_reconnect:
  assumes "\<not> destroyed (swarm_objs w sr)" "\<not> wire_destroyed (wire_objs w wd)"
    "retries (peer_objs w pr) < length RECONNECT_WAIT"
  shows "retries (peer_objs (drain_wire_onend sr pr wd w) pr) = retries (peer_objs w pr) + 1"
    and "timeout (peer_objs (drain_wire_onend sr pr wd w) pr) = Some (next_timer w)"
    and "timers (drain_wire_onend sr pr wd w) =
           timers w @ [(next_timer w, RECONNECT_WAIT ! retries (peer_objs w pr), ReaddCb sr pr)]"
    and "swarm_objs (drain_wire_onend sr pr wd w) = swarm_objs w"
  using assms unfolding drain_wire_onend_def Let_def
  by (simp_all add: prim_defs)

lemma handler_terminal:
  assumes "retries (peer_objs w pr) \<ge> length RECONNECT_WAIT"
  shows "drain_wire_onend sr pr wd w = Swarm__remove sr (addr (peer_objs w pr)) w"
    and "map_of (peers (swarm_objs (drain_wire_onend sr pr wd w) sr)) (addr (peer_objs w pr)) = None"
    and "reconnects p (drain_wire_onend sr pr wd w) = reconnects p w"
    and "retries (peer_objs (drain_wire_onend sr pr wd w) p) = retries (peer_objs w p)"
proof -
  show a: "drain_wire_onend sr pr wd w = Swarm__remove sr (addr (peer_objs w pr)) w"
    using assms by (simp add: drain_wire_onend_def)
  show "map_of (peers (swarm_objs (drain_wire_onend sr pr wd w) sr)) (addr (peer_objs w pr)) = None"
    unfolding a Swarm__remove_def Let_def
    by (simp add: prim_defs AList.delete_conv split: option.splits)
  show "reconnects p (drain_wire_onend sr pr wd w) = reconnects p w"
    unfolding a Swarm__remove_def Let_def
    by (simp add: prim_defs reconnects_def split: option.splits)
  show "retries (peer_objs (drain_wire_onend sr pr wd w) p) = retries (peer_objs w p)"
    unfolding a Swarm__remove_def Let_def
    by (simp add: prim_defs split: option.splits)
qed

lemma readd_callback:
  "run_callback (ReaddCb sr pr) v = Swarm__drain sr (upd_swarm sr (\<lambda>s. s\<lparr>queue := queue s @ [pr]\<rparr>) v)"
  by (simp add: readd_def)


text \<open>
  C2, as the code has it. \<open>RECONNECT_WAIT\<close> is the schedule of the claim. The listener in
  question is the one that \<^verbatim>\<open>onconnect\<close> of \<^verbatim>\<open>_drain\<close> puts on the wire of a dialled peer,
  next to Peer's own \<^verbatim>\<open>end\<close> listener and \<^verbatim>\<open>onhandshake\<close>; the wire's \<^verbatim>\<open>end\<close> event runs
  it (after Peer's own listener has cleared \<open>wire\<close>). When the swarm and the wire are not
  destroyed and the peer's \<open>retries\<close> is below the length of the schedule, \<open>retries\<close> grows
  by one and one timer of \<open>RECONNECT_WAIT[retries]\<close> ms (the old value of \<open>retries\<close>) is set,
  whose function puts the peer back on \<open>queue\<close> and calls \<^verbatim>\<open>_drain\<close>. When \<open>retries\<close> has
  reached the length of the schedule, the listener is \<^verbatim>\<open>_remove\<close> of the peer's address:
  the address leaves \<open>peers\<close> and no timer is set. Over any run, if no retry counter
  exceeds 8 at the start, none ever does.

  \<^verbatim>\<open>_onwire\<close> sets \<open>retries\<close> to 0, and \<^verbatim>\<open>onhandshake\<close> calls it when the handshake has the
  swarm's info-hash; with another info-hash it leaves \<open>retries\<close> as it is. So the bound
  of 8 is on the reconnects between two completed handshakes of the peer: over a run none
  of whose inputs completes a handshake of \<open>pr\<close> (other peers may complete theirs, and
  handshakes with another info-hash may arrive), the reconnect timers set for \<open>pr\<close> number
  at most 8 minus the \<open>retries\<close> of \<open>pr\<close> at the start.

  A peer adopted by \<^verbatim>\<open>_onincoming\<close> gets no such listener: \<^verbatim>\<open>_onincoming\<close> adds to its wire
  only the listeners of \<^verbatim>\<open>_onwire\<close>. And when the \<^verbatim>\<open>end\<close> listeners of a wire are only
  Peer's own and \<^verbatim>\<open>cleanup\<close>, the wire's \<^verbatim>\<open>end\<close> event leaves \<open>peers\<close> and \<open>queue\<close> as
  they are and sets no reconnect timer.
\<close>

theorem reconnect_backoff:
  "RECONNECT_WAIT = [1000, 5000, 15000, 30000, 60000, 120000, 300000, 600000] \<and>
   (fst (drain_onconnect sr pr c t w) = None \<and>
    wire (peer_objs (snd (drain_onconnect sr pr c t w)) pr) = Some (next_wire w) \<and>
    wire_listeners (wire_objs (snd (drain_onconnect sr pr c t w)) (next_wire w)) =
      [(KEnd, True, PeerWireEnd pr), (KHandshake, False, DrainHandshake sr pr t),
       (KEnd, False, DrainWireEnd sr pr (next_wire w))]) \<and>
   (wire_listeners (wire_objs w wd) =
      [(KEnd, True, PeerWireEnd pr), (KHandshake, False, DrainHandshake sr pr t),
       (KEnd, False, DrainWireEnd sr pr wd)] @ rest \<longrightarrow>
    wire_emits wd EvEnd w =
      and_then
        (ok (drain_wire_onend sr pr wd
               (upd_peer pr (\<lambda>p. p\<lparr>wire := None\<rparr>) (wire_off wd (KEnd, True, PeerWireEnd pr) w))))
        (run_listeners (wire_off wd) EvEnd (filter (\<lambda>l. fst l = KEnd) rest))) \<and>
   (\<not> destroyed (swarm_objs w sr) \<and> \<not> wire_destroyed (wire_objs w wd) \<and>
    retries (peer_objs w pr) < length RECONNECT_WAIT \<longrightarrow>
      retries (peer_objs (drain_wire_onend sr pr wd w) pr) = retries (peer_objs w pr) + 1 \<and>
      timeout (peer_objs (drain_wire_onend sr pr wd w) pr) = Some (next_timer w) \<and>
      timers (drain_wire_onend sr pr wd w) =
        timers w @ [(next_timer w, RECONNECT_WAIT ! retries (peer_objs w pr), ReaddCb sr pr)] \<and>
      swarm_objs (drain_wire_onend sr pr wd w) = swarm_objs w) \<and>
   run_callback (ReaddCb sr pr) v =
     Swarm__drain sr (upd_swarm sr (\<lambda>s. s\<lparr>queue := queue s @ [pr]\<rparr>) v) \<and>
   (length RECONNECT_WAIT \<le> retries (peer_objs w pr) \<longrightarrow>
      drain_wire_onend sr pr wd w = Swarm__remove sr (addr (peer_objs w pr)) w \<and>
      map_of (peers (swarm_objs (drain_wire_onend sr pr wd w) sr)) (addr (peer_objs w pr)) = None \<and>
      reconnects pr (drain_wire_onend sr pr wd w) = reconnects pr w) \<and>
   ((\<forall>p. retries (peer_objs w p) \<le> length RECONNECT_WAIT) \<longrightarrow>
      (\<forall>p. retries (peer_objs (snd (run ins w)) p) \<le> length RECONNECT_WAIT)) \<and>
   retries (peer_objs (snd (Swarm__onwire sr pr w)) pr) = 0 \<and>
   (ih = infoHash (swarm_objs w sr) \<longrightarrow>
      drain_onhandshake sr pr t ih w = Swarm__onwire sr pr (clearTimeout t w)) \<and>
   (ih \<noteq> infoHash (swarm_objs w sr) \<longrightarrow>
      retries (peer_objs (snd (drain_onhandshake sr pr t ih w)) pr) = retries (peer_objs w pr)) \<and>
   (pr < next_peer w \<and> (\<forall>p. retries (peer_objs w p) \<le> length RECONNECT_WAIT) \<and>
    no_handshake_of pr ins w \<longrightarrow>
      reconnects pr (snd (run ins w)) + retries (peer_objs w pr)
        \<le> reconnects pr w + length RECONNECT_WAIT) \<and>
   (wire (peer_objs w pr) = Some wd \<and> conn (peer_objs w pr) = Some c \<longrightarrow>
      wire_listeners (wire_objs (snd (Swarm__onincoming sr pr w)) wd) =
        wire_listeners (wire_objs w wd) @
        [(KDownload, False, OnwireDownload sr), (KUpload, False, OnwireUpload sr),
         (KEnd, False, OnwireCleanup sr wd (Some c) (next_once w)),
         (KClose, False, OnwireCleanup sr wd (Some c) (next_once w)),
         (KError, False, OnwireCleanup sr wd (Some c) (next_once w)),
         (KFinish, False, OnwireCleanup sr wd (Some c) (next_once w))]) \<and>
   (list_all (\<lambda>l. fst l = KEnd \<longrightarrow> own_end_listener (snd (snd l))) (wire_listeners (wire_objs w wd)) \<longrightarrow>
      peers (swarm_objs (snd (wire_emits wd EvEnd w)) sr) = peers (swarm_objs w sr) \<and>
      queue (swarm_objs (snd (wire_emits wd EvEnd w)) sr) = queue (swarm_objs w sr) \<and>
      reconnects pr (snd (wire_emits wd EvEnd w)) = reconnects pr w)"
proof -
  have a: "RECONNECT_WAIT = [1000, 5000, 15000, 30000, 60000, 120000, 300000, 600000]"
    by (simp add: RECONNECT_WAIT_def)
  note b = handler_reconnect[of w sr wd pr]
  note c = handler_terminal(1,2)[where w = w and pr = pr and sr = sr and wd = wd]
    handler_terminal(3)[where w = w and pr = pr and sr = sr and wd = wd and p = pr]
  note d = keeps_run[of w ins, unfolded keeps_bound_def]
  note e = reconnects_bounded[of pr w ins]
  note f = drain_onconnect_result[of sr pr c t w]
  note g = drain_onhandshake_cases(1)[where ih = ih and w = w and sr = sr and pr = pr and t = t]
    drain_onhandshake_cases(2)[where ih = ih and w = w and sr = sr and pr = pr and t = t and p = pr]
  note h = incoming_wire_end_quiet[of w wd sr pr]
  show ?thesis
    apply (intro conjI impI)
    subgoal by (rule a)
    subgoal by (rule f(1))
    subgoal by (rule f(3))
    subgoal by (rule f(4))
    subgoal by (rule wire_end_dispatch)
    subgoal using b by blast
    subgoal using b by blast
    subgoal using b by blast
    subgoal using b by blast
    subgoal by (rule readd_callback)
    subgoal using c by blast
    subgoal using c by blast
    subgoal using c by blast
    subgoal using d by blast
    subgoal by (rule Swarm__onwire_resets(1))
    subgoal using g(1) by blast
    subgoal using g(2) by blast
    subgoal using e by blast
    subgoal by (rule Swarm__onincoming_listeners) blast+
    subgoal using h by blast
    subgoal using h by blast
    subgoal using h by blast
    done
qed

text \<open>
  The peer of 1.2.3.4:6881 has been dialled and has connected: its wire carries the three
  listeners, and its \<^verbatim>\<open>end\<close> event sets the first reconnect timer, of 1000 ms; with
  \<open>retries\<close> at 8 the peer is removed instead. With a second peer, 5.6.7.8:6881, connected as
  well: that peer completes its handshake, the first one gets a handshake for another
  info-hash, and then the first one's wire ends. And a remote peer adopted by the swarm
  of a pool: the \<^verbatim>\<open>end\<close> event of its wire leaves it in \<open>peers\<close>.
\<close>

theorem reconnect_backoff_witness:
  "(let w = snd (run [NewSwarm ''aa'', Add 0 ''1.2.3.4:6881'', ConnEmits 0 EvConnect] init);
        w8 = upd_peer 0 (\<lambda>p. p\<lparr>retries := 8\<rparr>) w;
        w2 = snd (run [NewSwarm ''aa'', Add 0 ''1.2.3.4:6881'', ConnEmits 0 EvConnect,
                       Add 0 ''5.6.7.8:6881'', ConnEmits 1 EvConnect] init);
        ins = [WireEmits 1 (EvHandshake ''aa''), WireEmits 0 (EvHandshake ''bb''), WireEmits 0 EvEnd];
        v = Pool__onconn 0 ''9.9.9.9'' 4000
              (snd (run [NewSwarm ''aa'', Listen 0 (Some 6881), ServerListening 0] init));
        v' = snd (Swarm__onincoming 0 0 v)
    in wire_listeners (wire_objs w 0) =
         [(KEnd, True, PeerWireEnd 0), (KHandshake, False, DrainHandshake 0 0 0),
          (KEnd, False, DrainWireEnd 0 0 0)] @ [] \<and>
       wire_emits 0 EvEnd w =
         and_then
           (ok (drain_wire_onend 0 0 0
                  (upd_peer 0 (\<lambda>p. p\<lparr>wire := None\<rparr>) (wire_off 0 (KEnd, True, PeerWireEnd 0) w))))
           (run_listeners (wire_off 0) EvEnd (filter (\<lambda>l. fst l = KEnd) [])) \<and>
       \<not> destroyed (swarm_objs w 0) \<and> \<not> wire_destroyed (wire_objs w 0) \<and>
       retries (peer_objs w 0) < length RECONNECT_WAIT \<and>
       retries (peer_objs (drain_wire_onend 0 0 0 w) 0) = 1 \<and>
       timers (drain_wire_onend 0 0 0 w) = timers w @ [(next_timer w, 1000, ReaddCb 0 0)] \<and>
       length RECONNECT_WAIT \<le> retries (peer_objs w8 0) \<and>
       map_of (peers (swarm_objs (drain_wire_onend 0 0 0 w8) 0)) (addr (peer_objs w8 0)) = None \<and>
       (\<forall>p. retries (peer_objs w2 p) \<le> length RECONNECT_WAIT) \<and>
       ''aa'' = infoHash (swarm_objs w 0) \<and>
       drain_onhandshake 0 0 0 ''aa'' w = Swarm__onwire 0 0 (clearTimeout 0 w) \<and>
       ''bb'' \<noteq> infoHash (swarm_objs w 0) \<and>
       retries (peer_objs (snd (drain_onhandshake 0 0 0 ''bb'' w)) 0) = retries (peer_objs w 0) \<and>
       0 < next_peer w2 \<and> no_handshake_of 0 ins w2 \<and>
       completes_handshake 1 (WireEmits 1 (EvHandshake ''aa'')) w2 \<and>
       reconnects 0 (snd (run ins w2)) + retries (peer_objs w2 0) \<le> reconnects 0 w2 + length RECONNECT_WAIT \<and>
       wire (peer_objs v 0) = Some 0 \<and> conn (peer_objs v 0) = Some 0 \<and>
       list_all (\<lambda>l. fst l = KEnd \<longrightarrow> own_end_listener (snd (snd l))) (wire_listeners (wire_objs v' 0)) \<and>
       peers (swarm_objs (snd (wire_emits 0 EvEnd v')) 0) = peers (swarm_objs v' 0) \<and>
       reconnects 0 (snd (wire_emits 0 EvEnd v')) = reconnects 0 v')"
proof -
  let ?w = "snd (run [NewSwarm ''aa'', Add 0 ''1.2.3.4:6881'', ConnEmits 0 EvConnect] init)"
  let ?w8 = "upd_peer 0 (\<lambda>p. p\<lparr>retries := 8\<rparr>) ?w"
  let ?pre = "[NewSwarm ''aa'', Add 0 ''1.2.3.4:6881'', ConnEmits 0 EvConnect, Add 0 ''5.6.7.8:6881'',
               ConnEmits 1 EvConnect]"
  let ?w2 = "snd (run ?pre init)"
  let ?ins = "[WireEmits 1 (EvHandshake ''aa''), WireEmits 0 (EvHandshake ''bb''), WireEmits 0 EvEnd]"
  let ?i = "snd (run [NewSwarm ''aa'', Listen 0 (Some 6881), ServerListening 0] init)"
  let ?v = "Pool__onconn 0 ''9.9.9.9'' 4000 ?i"
  let ?v' = "snd (Swarm__onincoming 0 0 ?v)"
  have f: "\<not> destroyed (swarm_objs ?w 0) \<and> \<not> wire_destroyed (wire_objs ?w 0) \<and>
           retries (peer_objs ?w 0) = 0 \<and> infoHash (swarm_objs ?w 0) = ''aa'' \<and>
           wire_listeners (wire_objs ?w 0) =
             [(KEnd, True, PeerWireEnd 0), (KHandshake, False, DrainHandshake 0 0 0),
              (KEnd, False, DrainWireEnd 0 0 0)]"
    by (simp add: prim_defs op_defs num_defs Let_def)
  have len: "length RECONNECT_WAIT = 8" "RECONNECT_WAIT ! 0 = 1000"
    by (simp_all add: RECONNECT_WAIT_def)
  have h0: "wire_listeners (wire_objs ?w 0) =
         [(KEnd, True, PeerWireEnd 0), (KHandshake, False, DrainHandshake 0 0 0),
          (KEnd, False, DrainWireEnd 0 0 0)] @ []"
    using f by simp
  note thm_w = reconnect_backoff[where w = ?w and sr = 0 and pr = 0 and wd = 0 and t = 0 and rest = "[]"]
  from thm_w[THEN conjunct2, THEN conjunct2, THEN conjunct1] h0
  have c0: "wire_emits 0 EvEnd ?w =
         and_then
           (ok (drain_wire_onend 0 0 0
                  (upd_peer 0 (\<lambda>p. p\<lparr>wire := None\<rparr>) (wire_off 0 (KEnd, True, PeerWireEnd 0) ?w))))
           (run_listeners (wire_off 0) EvEnd (filter (\<lambda>l. fst l = KEnd) []))"
    by (rule mp)
  have h1: "\<not> destroyed (swarm_objs ?w 0) \<and> \<not> wire_destroyed (wire_objs ?w 0) \<and>
            retries (peer_objs ?w 0) < length RECONNECT_WAIT"
    using f len by simp
  from thm_w[THEN conjunct2, THEN conjunct2, THEN conjunct2, THEN conjunct1] h1
  have c1: "retries (peer_objs (drain_wire_onend 0 0 0 ?w) 0) = retries (peer_objs ?w 0) + 1 \<and>
            timeout (peer_objs (drain_wire_onend 0 0 0 ?w) 0) = Some (next_timer ?w) \<and>
            timers (drain_wire_onend 0 0 0 ?w) =
              timers ?w @ [(next_timer ?w, RECONNECT_WAIT ! retries (peer_objs ?w 0), ReaddCb 0 0)] \<and>
            swarm_objs (drain_wire_onend 0 0 0 ?w) = swarm_objs ?w"
    by (rule mp)
  have r0: "retries (peer_objs ?w 0) = 0" using f by simp
  have c1a: "retries (peer_objs (drain_wire_onend 0 0 0 ?w) 0) = 1"
    using c1[THEN conjunct1] by (simp only: r0)
  have c1b: "timers (drain_wire_onend 0 0 0 ?w) = timers ?w @ [(next_timer ?w, 1000, ReaddCb 0 0)]"
    using c1[THEN conjunct2, THEN conjunct2, THEN conjunct1] by (simp only: r0 len)
  have h2: "length RECONNECT_WAIT \<le> retries (peer_objs ?w8 0)"
    using len by (simp add: upd_peer_def)
  from reconnect_backoff[where w = ?w8 and sr = 0 and pr = 0 and wd = 0,
      THEN conjunct2, THEN conjunct2, THEN conjunct2, THEN conjunct2, THEN conjunct2, THEN conjunct1] h2
  have "drain_wire_onend 0 0 0 ?w8 = Swarm__remove 0 (addr (peer_objs ?w8 0)) ?w8 \<and>
        map_of (peers (swarm_objs (drain_wire_onend 0 0 0 ?w8) 0)) (addr (peer_objs ?w8 0)) = None \<and>
        reconnects 0 (drain_wire_onend 0 0 0 ?w8) = reconnects 0 ?w8"
    by (rule mp)
  then have c2: "map_of (peers (swarm_objs (drain_wire_onend 0 0 0 ?w8) 0)) (addr (peer_objs ?w8 0)) = None"
    by (rule conjunct1[OF conjunct2])
  have hi: "\<forall>p. retries (peer_objs init p) \<le> length RECONNECT_WAIT"
    by (simp add: init_def Peer_def)
  from reconnect_backoff[where w = init and ins = ?pre,
      THEN conjunct2, THEN conjunct2, THEN conjunct2, THEN conjunct2, THEN conjunct2, THEN conjunct2,
      THEN conjunct1] hi
  have h3: "\<forall>p. retries (peer_objs ?w2 p) \<le> length RECONNECT_WAIT" by (rule mp)
  have h4a: "''aa'' = infoHash (swarm_objs ?w 0)" using f by simp
  have h4b: "''bb'' \<noteq> infoHash (swarm_objs ?w 0)" using f by simp
  from thm_w[where ih = "''aa''", THEN conjunct2, THEN conjunct2, THEN conjunct2, THEN conjunct2,
      THEN conjunct2, THEN conjunct2, THEN conjunct2, THEN conjunct2, THEN conjunct1] h4a
  have c4: "drain_onhandshake 0 0 0 ''aa'' ?w = Swarm__onwire 0 0 (clearTimeout 0 ?w)" by (rule mp)
  from thm_w[where ih = "''bb''", THEN conjunct2, THEN conjunct2, THEN conjunct2, THEN conjunct2,
      THEN conjunct2, THEN conjunct2, THEN conjunct2, THEN conjunct2, THEN conjunct2, THEN conjunct1] h4b
  have c5: "retries (peer_objs (snd (drain_onhandshake 0 0 0 ''bb'' ?w)) 0) = retries (peer_objs ?w 0)"
    by (rule mp)
  have h5: "0 < next_peer ?w2 \<and> no_handshake_of 0 ?ins ?w2 \<and>
            completes_handshake 1 (WireEmits 1 (EvHandshake ''aa'')) ?w2"
    by (simp add: prim_defs op_defs num_defs Let_def)
  have h5': "0 < next_peer ?w2 \<and> (\<forall>p. retries (peer_objs ?w2 p) \<le> length RECONNECT_WAIT) \<and>
             no_handshake_of 0 ?ins ?w2"
    using h3 h5 by (intro conjI) (rule conjunct1, assumption, assumption, rule conjunct1[OF conjunct2], assumption)
  from reconnect_backoff[where w = ?w2 and pr = 0 and ins = ?ins,
      THEN conjunct2, THEN conjunct2, THEN conjunct2, THEN conjunct2, THEN conjunct2, THEN conjunct2,
      THEN conjunct2, THEN conjunct2, THEN conjunct2, THEN conjunct2, THEN conjunct1] h5'
  have c6: "reconnects 0 (snd (run ?ins ?w2)) + retries (peer_objs ?w2 0)
              \<le> reconnects 0 ?w2 + length RECONNECT_WAIT"
    by (rule mp)
  have "incoming_inv 0 ?i" by (rule conjunct2[OF incoming_inv_init])
  then have v0: "next_conn ?i = 0" "next_peer ?i = 0" "next_wire ?i = 0"
    by (simp_all add: incoming_inv_def)
  have h6: "wire (peer_objs ?v 0) = Some 0 \<and> conn (peer_objs ?v 0) = Some 0"
    using Pool__onconn_result(6)[of 0 "''9.9.9.9''" 4000 ?i 0]
      Pool__onconn_result(7)[of 0 "''9.9.9.9''" 4000 ?i] v0
    by simp
  have l6: "wire_listeners (wire_objs ?v 0) =
              [(KEnd, True, PeerWireEnd 0), (KHandshake, False, PoolHandshake 0 0 0 (next_timer ?i))]"
    using Pool__onconn_result(9)[of 0 "''9.9.9.9''" 4000 ?i] v0 by simp
  from reconnect_backoff[where w = ?v and sr = 0 and pr = 0 and wd = 0 and c = 0,
      THEN conjunct2, THEN conjunct2, THEN conjunct2, THEN conjunct2, THEN conjunct2, THEN conjunct2,
      THEN conjunct2, THEN conjunct2, THEN conjunct2, THEN conjunct2, THEN conjunct2, THEN conjunct1] h6
  have ls: "wire_listeners (wire_objs ?v' 0) =
        wire_listeners (wire_objs ?v 0) @
        [(KDownload, False, OnwireDownload 0), (KUpload, False, OnwireUpload 0),
         (KEnd, False, OnwireCleanup 0 0 (Some 0) (next_once ?v)),
         (KClose, False, OnwireCleanup 0 0 (Some 0) (next_once ?v)),
         (KError, False, OnwireCleanup 0 0 (Some 0) (next_once ?v)),
         (KFinish, False, OnwireCleanup 0 0 (Some 0) (next_once ?v))]"
    by (rule mp)
  have h7: "list_all (\<lambda>l. fst l = KEnd \<longrightarrow> own_end_listener (snd (snd l))) (wire_listeners (wire_objs ?v' 0))"
    by (simp only: ls l6) simp
  from reconnect_backoff[where w = ?v' and sr = 0 and pr = 0 and wd = 0,
      THEN conjunct2, THEN conjunct2, THEN conjunct2, THEN conjunct2, THEN conjunct2, THEN conjunct2,
      THEN conjunct2, THEN conjunct2, THEN conjunct2, THEN conjunct2, THEN conjunct2, THEN conjunct2] h7
  have c7: "peers (swarm_objs (snd (wire_emits 0 EvEnd ?v')) 0) = peers (swarm_objs ?v' 0) \<and>
            queue (swarm_objs (snd (wire_emits 0 EvEnd ?v')) 0) = queue (swarm_objs ?v' 0) \<and>
            reconnects 0 (snd (wire_emits 0 EvEnd ?v')) = reconnects 0 ?v'"
    by (rule mp)
  note c7a = c7[THEN conjunct1] and c7c = c7[THEN conjunct2, THEN conjunct2]
  show ?thesis
    unfolding Let_def
    by (intro conjI;
        (rule h0 c0 h1[THEN conjunct1] h1[THEN conjunct2, THEN conjunct1] h1[THEN conjunct2, THEN conjunct2]
           c1a c1b h2 c2 h3 h4a c4 h4b c5 h5[THEN conjunct1] h5[THEN conjunct2, THEN conjunct1]
           h5[THEN conjunct2, THEN conjunct2] c6 h6[THEN conjunct1] h6[THEN conjunct2] h7 c7a c7c))
qed

text \<open>
  C2 as stated fails: a peer that completes the handshake and then loses its wire, nine
  times over, is re-enqueued and dialled again each time: nine reconnect timers, ten
  dials, and the peer is still in \<open>peers\<close>. Each handshake has set \<open>retries\<close> back to 0.
\<close>

theorem nine_redials_of_one_peer:
  "(case run ([NewSwarm ''aa'', Add 0 ''1.2.3.4:6881'']
              @ lost_wire_round ''aa'' 0 0 1 @ lost_wire_round ''aa'' 1 1 3
              @ lost_wire_round ''aa'' 2 2 5 @ lost_wire_round ''aa'' 3 3 7
              @ lost_wire_round ''aa'' 4 4 9 @ lost_wire_round ''aa'' 5 5 11
              @ lost_wire_round ''aa'' 6 6 13 @ lost_wire_round ''aa'' 7 7 15
              @ lost_wire_round ''aa'' 8 8 17) init of
      (x, w) \<Rightarrow>
        x = None \<and> reconnects 0 w = 9 \<and> dials w = 10 \<and> \<not> dials w - 1 \<le> length RECONNECT_WAIT \<and>
        retries (peer_objs w 0) = 1 \<and>
        map_of (peers (swarm_objs w 0)) ''1.2.3.4:6881'' = Some 0)"
  by (simp add: prim_defs op_defs num_defs lost_wire_round_def reconnects_def dials_def Let_def
      js_splice_def js_splice_start_def)

end
